(* ===== verification/Prelude.thy ===== *)
theory Prelude
  imports Main "HOL-Library.Word" "HOL-Library.Sublist"
begin

text \<open>
  Shared vocabulary of the development: names for the C integer types, the
  state-and-error monad in which the fallible C routines are written (a C function that takes
  a pointer to its state and returns an error code becomes a function from the state to a
  result and the new state), and the generic facts about words, bit strings and lists that
  the component theories use.
\<close>

unbundle bit_operations_syntax

section \<open>Collections\<close>

named_theorems wr_rules \<open>which bit string an encoder appends to the stream\<close>
named_theorems rd_rules \<open>which bit string a decoder consumes, and what it returns\<close>
named_theorems safe_rules \<open>decoders that are memory safe on every input\<close>

section \<open>C integer types\<close>

type_synonym byte = "8 word"
type_synonym u16 = "16 word"
type_synonym u32 = "32 word"
type_synonym u64 = "64 word"

text \<open>Number of values of \<^verbatim>\<open>size_t\<close> on the 64 bit targets; subtraction on it wraps around.\<close>

abbreviation size_t_modulus :: nat where
  "size_t_modulus \<equiv> 2 ^ 64"

section \<open>Fallible stateful routines\<close>

type_synonym ('s, 'e, 'a) se = "'s \<Rightarrow> ('e + 'a) \<times> 's"

definition ret :: "'a \<Rightarrow> ('s, 'e, 'a) se" where
  "ret x = (\<lambda>s. (Inr x, s))"

definition throw :: "'e \<Rightarrow> ('s, 'e, 'a) se" where
  "throw e = (\<lambda>s. (Inl e, s))"

text \<open>
  \<open>bind m f\<close> is the C idiom \<^verbatim>\<open>error = m(...); if (error) return error; f(...)\<close>: the state
  as \<open>m\<close> left it is kept in both cases.
\<close>

definition bind :: "('s, 'e, 'a) se \<Rightarrow> ('a \<Rightarrow> ('s, 'e, 'b) se) \<Rightarrow> ('s, 'e, 'b) se" where
  "bind m f = (\<lambda>s. case m s of (Inl e, s') \<Rightarrow> (Inl e, s') | (Inr x, s') \<Rightarrow> f x s')"

abbreviation seq :: "('s, 'e, 'a) se \<Rightarrow> ('s, 'e, 'b) se \<Rightarrow> ('s, 'e, 'b) se" where
  "seq m n \<equiv> bind m (\<lambda>_. n)"

text \<open>A fallible pure computation as a routine that leaves the state alone.\<close>

definition lift_result :: "'e + 'a \<Rightarrow> ('s, 'e, 'a) se" where
  "lift_result r = (\<lambda>s. (r, s))"

lemma lift_result_simps [simp]:
  "lift_result (Inl e) = throw e"
  "lift_result (Inr x) = ret x"
  by (simp_all add: lift_result_def throw_def ret_def)

lemma ret_apply: "ret x s = (Inr x, s)"
  by (simp add: ret_def)

lemma throw_apply: "throw e s = (Inl e, s)"
  by (simp add: throw_def)

lemma bind_Inr: "m s = (Inr x, s') \<Longrightarrow> bind m f s = f x s'"
  by (simp add: bind_def)

lemma bind_Inl: "m s = (Inl e, s') \<Longrightarrow> bind m f s = (Inl e, s')"
  by (simp add: bind_def)

lemma bind_ret_left [simp]: "bind (ret x) f = f x"
  by (simp add: bind_def ret_def fun_eq_iff)

lemma bind_throw [simp]: "bind (throw e) f = throw e"
  by (simp add: bind_def throw_def fun_eq_iff)

lemma bind_ret_right [simp]: "bind m ret = m"
  by (auto simp: bind_def ret_def fun_eq_iff split: prod.splits sum.splits)

lemma bind_assoc: "bind (bind m f) g = bind m (\<lambda>x. bind (f x) g)"
  by (auto simp: bind_def fun_eq_iff split: prod.splits sum.splits)

lemma bind_eq_Inr:
  "bind m f s = (Inr y, s') \<longleftrightarrow> (\<exists>x t. m s = (Inr x, t) \<and> f x t = (Inr y, s'))"
  by (auto simp: bind_def split: prod.splits sum.splits)

section \<open>Words as bit strings, most significant bit first\<close>

definition word_bits :: "nat \<Rightarrow> 'a::len word \<Rightarrow> bool list" where
  "word_bits n w = map (bit w) (rev [0..<n])"

definition push_bits :: "'a::len word \<Rightarrow> bool list \<Rightarrow> 'a word" where
  "push_bits = foldl (\<lambda>v b. push_bit 1 v OR of_bool b)"

lemma length_word_bits [simp]: "length (word_bits n w) = n"
  by (simp add: word_bits_def)

lemma word_bits_0 [simp]: "word_bits 0 w = []"
  by (simp add: word_bits_def)

lemma word_bits_Suc: "word_bits (Suc n) w = bit w n # word_bits n w"
  by (simp add: word_bits_def)

lemma push_bits_Nil [simp]: "push_bits v [] = v"
  by (simp add: push_bits_def)

lemma push_bits_Cons: "push_bits v (b # bs) = push_bits (push_bit 1 v OR of_bool b) bs"
  by (simp add: push_bits_def)

lemma push_bits_word_bits:
  "push_bits v (word_bits n w) = push_bit n v OR take_bit n w"
proof (induction n arbitrary: v)
  case 0
  then show ?case by simp
next
  case (Suc n)
  have "push_bit n (push_bit 1 v OR of_bool (bit w n)) OR take_bit n w =
      push_bit (Suc n) v OR take_bit (Suc n) w"
    by (rule bit_word_eqI) (auto simp: bit_simps less_Suc_eq not_less)
  then show ?case
    by (simp add: word_bits_Suc push_bits_Cons Suc.IH)
qed

lemma push_bits_zero_word_bits [simp]:
  "push_bits 0 (word_bits n w) = take_bit n w"
  by (simp add: push_bits_word_bits)

lemma and_push_bit_one_gt_zero:
  fixes w :: "'a::len word"
  assumes "n < LENGTH('a)"
  shows "(w AND push_bit n 1 > 0) = bit w n"
proof -
  have "(w AND push_bit n 1 \<noteq> 0) = bit w n"
  proof
    assume "bit w n"
    with assms have "bit (w AND push_bit n 1) n"
      by (simp add: bit_simps)
    then show "w AND push_bit n 1 \<noteq> 0"
      by (metis bit_0_eq bot_apply bot_bool_def)
  next
    assume "w AND push_bit n 1 \<noteq> 0"
    then obtain i where "bit (w AND push_bit n 1) i"
      by (metis bit_word_eqI bit_0_eq bot_apply bot_bool_def)
    then show "bit w n"
      by (auto simp: bit_simps)
  qed
  then show ?thesis
    by (simp add: word_gt_0)
qed

lemmas and_exp_gt_zero = and_push_bit_one_gt_zero [unfolded push_bit_of_1]

lemma prefix_map_upt:
  assumes "m \<le> n"
  shows "prefix (map f [i..<m]) (map f [i..<n])"
proof (cases "i \<le> m")
  case True
  then have "[i..<n] = [i..<m] @ [m..<n]"
    using assms by (metis le_add_diff_inverse upt_add_eq_append)
  then show ?thesis by simp
qed simp

lemma unat_drop_bit_div: "unat (drop_bit n w) = unat w div 2 ^ n"
  by (subst unat_drop_bit_eq) (simp add: drop_bit_eq_div)

lemma unat_drop_bit_less: "n > 0 \<Longrightarrow> w \<noteq> 0 \<Longrightarrow> unat (drop_bit n w) < unat w"
  unfolding unat_drop_bit_div by (intro div_less_dividend one_less_power) (auto simp: unat_gt_0)

lemma unat_or_push_bit:
  fixes v w :: "'a::len word"
  assumes v: "unat v < 2 ^ n" and fit: "unat w * 2 ^ n + unat v < 2 ^ LENGTH('a)"
  shows "unat (push_bit n w OR v) = unat w * 2 ^ n + unat v"
proof -
  have tv: "take_bit n v = v"
    by (rule word_unat_eq_iff[THEN iffD2]) (simp add: unsigned_take_bit_eq take_bit_nat_eq_self v)
  have "push_bit n w OR v = push_bit n w + v"
    by (rule disjunctive_add_eq_or[symmetric], subst tv[symmetric]) (auto simp: bit_eq_iff bit_simps)
  moreover have "unat (push_bit n w) = unat w * 2 ^ n"
    using fit by (subst unsigned_push_bit_eq) (simp add: push_bit_eq_mult take_bit_nat_eq_self)
  ultimately show ?thesis
    using fit by (simp add: unat_word_ariths)
qed

lemma unat_or_push_bit':
  fixes v w :: "'a::len word"
  assumes v: "unat v < 2 ^ n" and fit: "unat w * 2 ^ n + unat v < 2 ^ LENGTH('a)"
  shows "unat (v OR push_bit n w) = unat v + unat w * 2 ^ n"
  using unat_or_push_bit[OF assms] by (simp add: or.commute)

lemma unat_ucast_mod: "unat (ucast w :: 'b::len word) = unat w mod 2 ^ LENGTH('b)"
  by (simp add: unsigned_ucast_eq take_bit_eq_mod)

lemma unat_ucast_up:
  fixes w :: "'a::len word"
  assumes "LENGTH('a) \<le> LENGTH('b::len)"
  shows "unat (ucast w :: 'b word) = unat w"
proof -
  have "unat w < 2 ^ LENGTH('b)"
    using unsigned_less[of w, where ?'a = nat] assms
    by (meson less_le_trans one_le_numeral power_increasing)
  then show ?thesis by (simp add: unat_ucast_mod)
qed

lemma ceil_div_7_le: "(t + 6) div 7 \<le> m \<longleftrightarrow> t \<le> 7 * (m :: nat)"
  by arith

end
