(* ===== verification/Exi_Bitstream.thy ===== *)
theory Exi_Bitstream
  imports Prelude
begin

text \<open>
  The EXI bit stream of libcbv2g (\<^verbatim>\<open>lib/everest/cbv2g/lib/cbv2g/common/exi_bitstream.c\<close>):
  a cursor of byte and bit position over a caller-supplied byte buffer, with routines that
  write or read single bits, up to 32 bits, or octets. Every encoder and decoder of the
  library goes through it. The error codes of \<^verbatim>\<open>exi_error_codes.h\<close> are a datatype; the extra
  values \<open>UNDEFINED_BEHAVIOUR\<close> and \<open>LOOP_BOUND_REACHED\<close> stand for a C memory access outside its
  array and for a loop that runs longer than the bound of the model, so that memory safety
  and termination are the statement that no routine returns them.

  The second half states what the routines promise: \<open>writes m bs\<close> says that \<open>m\<close> appends
  exactly the bits \<open>bs\<close> (or reports an overflow when they do not fit), \<open>reads m bs x\<close> that
  \<open>m\<close> consumes the bits \<open>bs\<close> and returns \<open>x\<close>, and \<open>safe_reader m\<close> that \<open>m\<close> is memory safe on
  every input. The three compose along \<^const>\<open>bind\<close>, and the locale \<open>exi_codec\<close> packages them
  as the contract between an encoder and its decoder.
\<close>

section \<open>Error codes\<close>

datatype exi_error =
    BITSTREAM_OVERFLOW
  | HEADER_COOKIE_NOT_SUPPORTED
  | HEADER_OPTIONS_NOT_SUPPORTED
  | HEADER_INCORRECT
  | SUPPORTED_MAX_OCTETS_OVERRUN
  | OCTET_COUNT_LARGER_THAN_TYPE_SUPPORTS
  | UNKNOWN_EVENT_FOR_DECODING
  | DECODER_NOT_IMPLEMENTED
  | UNKNOWN_EVENT_FOR_ENCODING
  | ENCODER_NOT_IMPLEMENTED
  | BIT_COUNT_LARGER_THAN_TYPE_SIZE
  | BYTE_COUNT_LARGER_THAN_TYPE_SIZE
  | ARRAY_OUT_OF_BOUNDS
  | CHARACTER_BUFFER_TOO_SMALL
  | BYTE_BUFFER_TOO_SMALL
  | ENCODED_INTEGER_SIZE_LARGER_THAN_DESTINATION
  | UNKNOWN_GRAMMAR_ID
  | UNKNOWN_EVENT_CODE
  | UNSUPPORTED_SUB_EVENT
  | DEVIANTS_NOT_SUPPORTED
  | STRINGVALUES_NOT_SUPPORTED
  | UNSUPPORTED_INTEGER_VALUE_TYPE
  | UNSUPPORTED_DATETIME_TYPE
  | UNSUPPORTED_CHARACTER_VALUE
  | INCORRECT_END_FRAGMENT_VALUE
  | NOT_IMPLEMENTED_YET
  | UNDEFINED_BEHAVIOUR
  | LOOP_BOUND_REACHED

definition c_result :: "exi_error + 'a \<Rightarrow> bool" where
  "c_result r \<longleftrightarrow> r \<noteq> Inl UNDEFINED_BEHAVIOUR \<and> r \<noteq> Inl LOOP_BOUND_REACHED"

lemma c_result_simps [simp]:
  "c_result (Inr x)"
  "c_result (Inl e) \<longleftrightarrow> e \<noteq> UNDEFINED_BEHAVIOUR \<and> e \<noteq> LOOP_BOUND_REACHED"
  by (simp_all add: c_result_def)

section \<open>The stream\<close>

definition EXI_BITSTREAM_MAX_BIT_COUNT :: nat where
  "EXI_BITSTREAM_MAX_BIT_COUNT = 8"

text \<open>
  \<^verbatim>\<open>struct exi_bitstream\<close>. \<open>data\<close> is the memory the data pointer points to; \<open>data_size\<close> is the
  size the caller declared for it. The status callback is never called by the library and
  is left out.
\<close>

record exi_bitstream_t =
  data :: "byte list"
  data_size :: nat
  bit_count :: nat
  byte_pos :: nat
  init_called :: bool
  flag_byte_pos :: nat

type_synonym 'a exi = "(exi_bitstream_t, exi_error, 'a) se"

definition exi_bitstream_has_overflow :: "unit exi" where
  "exi_bitstream_has_overflow stream =
     (let stream =
        (if bit_count stream = EXI_BITSTREAM_MAX_BIT_COUNT
         then (if byte_pos stream < data_size stream
               then stream\<lparr>byte_pos := byte_pos stream + 1, bit_count := 0\<rparr>
               else stream)
         else stream)
      in if byte_pos stream \<ge> data_size stream then (Inl BITSTREAM_OVERFLOW, stream)
         else (Inr (), stream))"

definition exi_bitstream_store :: "byte \<Rightarrow> exi_bitstream_t \<Rightarrow> exi_bitstream_t" where
  "exi_bitstream_store b stream =
     (let cleared = (if bit_count stream = 0 then (data stream)[byte_pos stream := 0]
                     else data stream);
          marked = (if b \<noteq> 0
                    then cleared[byte_pos stream := cleared ! byte_pos stream OR
                      push_bit (EXI_BITSTREAM_MAX_BIT_COUNT - (bit_count stream + 1)) 1]
                    else cleared)
      in stream\<lparr>data := marked, bit_count := bit_count stream + 1\<rparr>)"

definition exi_bitstream_write_bit :: "byte \<Rightarrow> unit exi" where
  "exi_bitstream_write_bit b =
     bind exi_bitstream_has_overflow (\<lambda>_ stream.
       if byte_pos stream < length (data stream)
       then (Inr (), exi_bitstream_store b stream)
       else (Inl UNDEFINED_BEHAVIOUR, stream))"

definition exi_bitstream_read_bit :: "byte exi" where
  "exi_bitstream_read_bit =
     bind exi_bitstream_has_overflow (\<lambda>_ stream.
       if byte_pos stream < length (data stream)
       then (let current_bit = drop_bit (EXI_BITSTREAM_MAX_BIT_COUNT - (bit_count stream + 1))
                   (data stream ! byte_pos stream)
             in (Inr (if current_bit AND 1 \<noteq> 0 then 1 else 0),
                 stream\<lparr>bit_count := bit_count stream + 1\<rparr>))
       else (Inl UNDEFINED_BEHAVIOUR, stream))"

definition exi_bitstream_init :: "byte list \<Rightarrow> nat \<Rightarrow> nat \<Rightarrow> exi_bitstream_t" where
  "exi_bitstream_init buf buf_size offset =
     \<lparr>data = buf, data_size = buf_size, bit_count = 0, byte_pos = offset,
      init_called = True, flag_byte_pos = offset\<rparr>"

definition exi_bitstream_reset :: "exi_bitstream_t \<Rightarrow> exi_bitstream_t" where
  "exi_bitstream_reset stream =
     stream\<lparr>byte_pos := (if init_called stream then flag_byte_pos stream else 0), bit_count := 0\<rparr>"

definition exi_bitstream_get_length :: "exi_bitstream_t \<Rightarrow> nat" where
  "exi_bitstream_get_length stream =
     (let len = byte_pos stream;
          len = (if init_called stream \<and> flag_byte_pos stream > 0
                 then (len + size_t_modulus - flag_byte_pos stream) mod size_t_modulus else len)
      in (len + (if bit_count stream > 0 then 1 else 0)) mod size_t_modulus)"

text \<open>
  The loops \<^verbatim>\<open>for (n = 0; n < bit_count; n++)\<close> run on the number of bits still to go,
  \<^verbatim>\<open>bit_count - n\<close>.
\<close>

fun exi_bitstream_write_bits_loop :: "nat \<Rightarrow> u32 \<Rightarrow> unit exi" where
  "exi_bitstream_write_bits_loop 0 value = ret ()"
| "exi_bitstream_write_bits_loop (Suc k) value =
     seq (exi_bitstream_write_bit (of_bool (value AND push_bit k 1 > 0)))
         (exi_bitstream_write_bits_loop k value)"

definition exi_bitstream_write_bits :: "nat \<Rightarrow> u32 \<Rightarrow> unit exi" where
  "exi_bitstream_write_bits n value =
     (if n > 32 then throw BIT_COUNT_LARGER_THAN_TYPE_SIZE
      else exi_bitstream_write_bits_loop n value)"

definition exi_bitstream_write_octet :: "byte \<Rightarrow> unit exi" where
  "exi_bitstream_write_octet value = exi_bitstream_write_bits 8 (ucast value)"

fun exi_bitstream_read_bits_loop :: "nat \<Rightarrow> 'a::len word \<Rightarrow> 'a word exi" where
  "exi_bitstream_read_bits_loop 0 value = ret value"
| "exi_bitstream_read_bits_loop (Suc k) value =
     bind exi_bitstream_read_bit (\<lambda>b.
       exi_bitstream_read_bits_loop k (push_bit 1 value OR ucast b))"

definition exi_bitstream_read_bits :: "nat \<Rightarrow> u32 exi" where
  "exi_bitstream_read_bits n =
     (if n > 32 then throw BIT_COUNT_LARGER_THAN_TYPE_SIZE
      else exi_bitstream_read_bits_loop n 0)"

definition exi_bitstream_read_octet :: "byte exi" where
  "exi_bitstream_read_octet = exi_bitstream_read_bits_loop 8 0"

section \<open>The stream as a bit string\<close>

definition stream_wf :: "exi_bitstream_t \<Rightarrow> bool" where
  "stream_wf s \<longleftrightarrow> data_size s \<le> length (data s) \<and> bit_count s \<le> 8 \<and>
     byte_pos s \<le> data_size s \<and> (byte_pos s = data_size s \<longrightarrow> bit_count s = 0)"

definition stream_pos :: "exi_bitstream_t \<Rightarrow> nat" where
  "stream_pos s = 8 * byte_pos s + bit_count s"

definition stream_bit :: "exi_bitstream_t \<Rightarrow> nat \<Rightarrow> bool" where
  "stream_bit s i = bit (data s ! (i div 8)) (7 - i mod 8)"

definition written :: "exi_bitstream_t \<Rightarrow> bool list" where
  "written s = map (stream_bit s) [0..<stream_pos s]"

definition unread :: "exi_bitstream_t \<Rightarrow> bool list" where
  "unread s = map (stream_bit s) [stream_pos s..<8 * data_size s]"

definition room :: "exi_bitstream_t \<Rightarrow> nat" where
  "room s = 8 * data_size s - stream_pos s"

text \<open>
  A writer clears a byte when it enters it and afterwards only sets bits, so between two
  writes the rest of the current byte has to be zero.
\<close>

definition stream_writable :: "exi_bitstream_t \<Rightarrow> bool" where
  "stream_writable s \<longleftrightarrow> stream_wf s \<and>
     (bit_count s \<noteq> 0 \<longrightarrow> (\<forall>k < 8 - bit_count s. \<not> bit (data s ! byte_pos s) k))"

text \<open>What a writer may change: bytes from the cursor on and the cursor itself.\<close>

definition write_frame :: "exi_bitstream_t \<Rightarrow> exi_bitstream_t \<Rightarrow> bool" where
  "write_frame s s' \<longleftrightarrow> length (data s') = length (data s) \<and> data_size s' = data_size s \<and>
     init_called s' = init_called s \<and> flag_byte_pos s' = flag_byte_pos s \<and>
     stream_pos s \<le> stream_pos s' \<and> byte_pos s \<le> byte_pos s' \<and>
     (\<forall>i. 8 * i + 8 \<le> stream_pos s \<longrightarrow> data s' ! i = data s ! i) \<and>
     (\<forall>i < length (data s). 8 * i \<ge> stream_pos s' \<longrightarrow> data s' ! i = data s ! i)"

text \<open>What a reader may change: the cursor only, and only forwards.\<close>

definition read_frame :: "exi_bitstream_t \<Rightarrow> exi_bitstream_t \<Rightarrow> bool" where
  "read_frame s s' \<longleftrightarrow> data s' = data s \<and> data_size s' = data_size s \<and>
     init_called s' = init_called s \<and> flag_byte_pos s' = flag_byte_pos s \<and>
     stream_pos s \<le> stream_pos s'"

definition writes :: "unit exi \<Rightarrow> bool list \<Rightarrow> bool" where
  "writes m bs \<longleftrightarrow> (\<forall>s. stream_writable s \<longrightarrow>
     (\<exists>r s'. m s = (r, s') \<and> stream_writable s' \<and> write_frame s s' \<and>
       (if length bs \<le> room s then r = Inr () \<and> written s' = written s @ bs
        else r = Inl BITSTREAM_OVERFLOW)))"

definition reads :: "'a exi \<Rightarrow> bool list \<Rightarrow> 'a \<Rightarrow> bool" where
  "reads m bs x \<longleftrightarrow> (\<forall>s. stream_wf s \<longrightarrow> prefix bs (unread s) \<longrightarrow>
     (\<exists>s'. m s = (Inr x, s') \<and> stream_wf s' \<and> read_frame s s' \<and>
       stream_pos s' = stream_pos s + length bs))"

definition safe_reader :: "'a exi \<Rightarrow> bool" where
  "safe_reader m \<longleftrightarrow> (\<forall>s. stream_wf s \<longrightarrow>
     (\<exists>r s'. m s = (r, s') \<and> stream_wf s' \<and> read_frame s s' \<and> c_result r))"

section \<open>Basic facts\<close>

lemmas stream_defs = stream_wf_def stream_pos_def room_def

lemma length_written [simp]: "length (written s) = stream_pos s"
  by (simp add: written_def)

lemma length_unread [simp]: "length (unread s) = room s"
  by (simp add: unread_def room_def)

lemma write_frame_refl [simp]: "write_frame s s"
  by (simp add: write_frame_def)

lemma read_frame_refl [simp]: "read_frame s s"
  by (simp add: read_frame_def)

lemma read_frame_trans: "read_frame s t \<Longrightarrow> read_frame t u \<Longrightarrow> read_frame s u"
  by (auto simp: read_frame_def)

lemma write_frame_trans: "write_frame s t \<Longrightarrow> write_frame t u \<Longrightarrow> write_frame s u"
  by (auto simp: write_frame_def)

lemma init_writable:
  "n \<le> length buf \<Longrightarrow> offset \<le> n \<Longrightarrow> stream_writable (exi_bitstream_init buf n offset)"
  by (simp add: exi_bitstream_init_def stream_writable_def stream_wf_def)

text \<open>
  The overflow check: it moves the cursor to the next byte when the current one is full, and
  fails exactly when no bit is left.
\<close>

lemma has_overflow_spec:
  assumes "stream_wf s"
  shows "\<exists>r s'. exi_bitstream_has_overflow s = (r, s') \<and> stream_wf s' \<and> data s' = data s \<and>
    data_size s' = data_size s \<and> init_called s' = init_called s \<and>
    flag_byte_pos s' = flag_byte_pos s \<and> stream_pos s' = stream_pos s \<and>
    (stream_writable s \<longrightarrow> stream_writable s') \<and>
    byte_pos s \<le> byte_pos s' \<and>
    (if room s = 0 then r = Inl BITSTREAM_OVERFLOW
     else r = Inr () \<and> byte_pos s' < data_size s' \<and> bit_count s' < 8)"
  using assms
  by (auto simp: exi_bitstream_has_overflow_def EXI_BITSTREAM_MAX_BIT_COUNT_def stream_defs
      stream_writable_def Let_def)

lemma stream_bit_cong:
  "data s' ! (i div 8) = data s ! (i div 8) \<Longrightarrow> stream_bit s' i = stream_bit s i"
  by (simp add: stream_bit_def)

lemma written_cong:
  "stream_pos s' = stream_pos s \<Longrightarrow> data s' = data s \<Longrightarrow> written s' = written s"
  by (simp add: written_def stream_bit_def)

lemma unread_cong:
  "stream_pos s' = stream_pos s \<Longrightarrow> data s' = data s \<Longrightarrow> data_size s' = data_size s \<Longrightarrow>
    unread s' = unread s"
  by (simp add: unread_def stream_bit_def)

lemma store_fields [simp]:
  "length (data (exi_bitstream_store b s)) = length (data s)"
  "data_size (exi_bitstream_store b s) = data_size s"
  "init_called (exi_bitstream_store b s) = init_called s"
  "flag_byte_pos (exi_bitstream_store b s) = flag_byte_pos s"
  "byte_pos (exi_bitstream_store b s) = byte_pos s"
  "bit_count (exi_bitstream_store b s) = bit_count s + 1"
  by (simp_all add: exi_bitstream_store_def Let_def)

lemma store_other:
  "i \<noteq> byte_pos s \<Longrightarrow> data (exi_bitstream_store b s) ! i = data s ! i"
  by (simp add: exi_bitstream_store_def Let_def)

lemma store_bit:
  assumes "stream_writable s" "byte_pos s < data_size s" "bit_count s < 8" "k < 8"
  shows "bit (data (exi_bitstream_store b s) ! byte_pos s) k \<longleftrightarrow>
    (if k = 7 - bit_count s then b \<noteq> 0
     else k > 7 - bit_count s \<and> bit (data s ! byte_pos s) k)"
proof -
  have "byte_pos s < length (data s)"
    using assms by (simp add: stream_writable_def stream_wf_def)
  moreover have "\<not> bit (data s ! byte_pos s) k" if "bit_count s \<noteq> 0" "k \<le> 7 - bit_count s"
    using that assms by (simp add: stream_writable_def)
  ultimately show ?thesis
    using assms(3,4)
    by (cases "k \<le> 7 - bit_count s")
      (auto simp: exi_bitstream_store_def Let_def EXI_BITSTREAM_MAX_BIT_COUNT_def bit_simps)
qed

lemma store_written:
  assumes "stream_writable s" "byte_pos s < data_size s" "bit_count s < 8"
  shows "written (exi_bitstream_store b s) = written s @ [b \<noteq> 0]"
proof -
  let ?t = "exi_bitstream_store b s"
  have pos: "stream_pos ?t = Suc (stream_pos s)"
    by (simp add: stream_pos_def)
  have old: "stream_bit ?t i = stream_bit s i" if "i < stream_pos s" for i
  proof (cases "i div 8 = byte_pos s")
    case True
    with that have "i mod 8 < bit_count s"
      by (simp add: stream_pos_def) presburger
    then have "7 - i mod 8 > 7 - bit_count s"
      using assms(3) by linarith
    with True assms show ?thesis
      by (simp add: stream_bit_def store_bit)
  next
    case False
    then show ?thesis by (simp add: stream_bit_def store_other)
  qed
  have "stream_bit ?t (stream_pos s) = (b \<noteq> 0)"
    using assms by (simp add: stream_bit_def stream_pos_def store_bit)
  with old show ?thesis
    by (simp add: written_def pos)
qed

lemma store_spec:
  assumes "stream_writable s" "byte_pos s < data_size s" "bit_count s < 8"
  shows "stream_writable (exi_bitstream_store b s) \<and> write_frame s (exi_bitstream_store b s)"
proof
  show "stream_writable (exi_bitstream_store b s)"
    using assms store_bit[OF assms]
    by (auto simp: stream_writable_def stream_wf_def)
  show "write_frame s (exi_bitstream_store b s)"
    using assms by (auto simp: write_frame_def stream_defs store_other)
qed

lemma write_bit_writes: "writes (exi_bitstream_write_bit b) [b \<noteq> 0]"
proof -
  have "\<exists>r s'. exi_bitstream_write_bit b s = (r, s') \<and> stream_writable s' \<and> write_frame s s' \<and>
      (if length [b \<noteq> 0] \<le> room s then r = Inr () \<and> written s' = written s @ [b \<noteq> 0]
       else r = Inl BITSTREAM_OVERFLOW)" if w: "stream_writable s" for s
  proof -
    from w have wf: "stream_wf s" by (simp add: stream_writable_def)
    obtain r t where t: "exi_bitstream_has_overflow s = (r, t)" "stream_wf t" "data t = data s"
        "data_size t = data_size s" "init_called t = init_called s" "stream_writable t"
        "flag_byte_pos t = flag_byte_pos s" "stream_pos t = stream_pos s" "byte_pos s \<le> byte_pos t"
        "if room s = 0 then r = Inl BITSTREAM_OVERFLOW
         else r = Inr () \<and> byte_pos t < data_size t \<and> bit_count t < 8"
      using has_overflow_spec[OF wf] w by blast
    show ?thesis
    proof (cases "room s = 0")
      case True
      with t show ?thesis
        by (auto simp: exi_bitstream_write_bit_def bind_def write_frame_def)
    next
      case False
      with t have b: "byte_pos t < data_size t" "bit_count t < 8" and r: "r = Inr ()" by auto
      have "byte_pos t < length (data t)"
        using t(2) b by (simp add: stream_wf_def)
      then have "exi_bitstream_write_bit b s = (Inr (), exi_bitstream_store b t)"
        using t(1) r by (simp add: exi_bitstream_write_bit_def bind_def)
      moreover have "write_frame s (exi_bitstream_store b t)"
        using store_spec[OF t(6) b, of b] t(3-9) by (simp add: write_frame_def)
      moreover have "written (exi_bitstream_store b t) = written s @ [b \<noteq> 0]"
        using store_written[OF t(6) b, of b] written_cong[OF t(8) t(3)] by simp
      ultimately show ?thesis
        using store_spec[OF t(6) b, of b] False by auto
    qed
  qed
  then show ?thesis by (simp add: writes_def)
qed

section \<open>Composition\<close>

lemma writesI:
  assumes "\<And>s. stream_writable s \<Longrightarrow> \<exists>r s'. m s = (r, s') \<and> stream_writable s' \<and> write_frame s s' \<and>
    (if length bs \<le> room s then r = Inr () \<and> written s' = written s @ bs
     else r = Inl BITSTREAM_OVERFLOW)"
  shows "writes m bs"
  using assms by (simp add: writes_def)

lemma writes_fits:
  assumes "writes m bs" "stream_writable s" "length bs \<le> room s"
  obtains s' where "m s = (Inr (), s')" "stream_writable s'" "write_frame s s'"
    "written s' = written s @ bs"
  using assms by (fastforce simp: writes_def)

lemma writes_overflow:
  assumes "writes m bs" "stream_writable s" "length bs > room s"
  obtains s' where "m s = (Inl BITSTREAM_OVERFLOW, s')" "stream_writable s'" "write_frame s s'"
  using assms by (fastforce simp: writes_def)

lemma writes_room:
  assumes "write_frame s s'" "written s' = written s @ bs"
  shows "stream_pos s' = stream_pos s + length bs" "room s' = room s - length bs"
proof -
  show p: "stream_pos s' = stream_pos s + length bs"
    using assms(2) by (metis length_append length_written)
  show "room s' = room s - length bs"
    using assms(1) p by (simp add: room_def write_frame_def)
qed

lemma writes_ret [wr_rules]: "writes (ret ()) []"
  by (rule writesI) (auto simp: ret_def)

lemma writes_seq [wr_rules]:
  assumes m: "writes m bs" and n: "writes n cs"
  shows "writes (seq m n) (bs @ cs)"
proof (rule writesI)
  fix s assume w: "stream_writable s"
  show "\<exists>r s'. seq m n s = (r, s') \<and> stream_writable s' \<and> write_frame s s' \<and>
    (if length (bs @ cs) \<le> room s then r = Inr () \<and> written s' = written s @ bs @ cs
     else r = Inl BITSTREAM_OVERFLOW)"
  proof (cases "length bs \<le> room s")
    case True
    obtain t where t: "m s = (Inr (), t)" "stream_writable t" "write_frame s t"
        "written t = written s @ bs"
      by (rule writes_fits[OF m w True])
    note room = writes_room(2)[OF t(3,4)]
    show ?thesis
    proof (cases "length cs \<le> room t")
      case True
      then obtain u where "n t = (Inr (), u)" "stream_writable u" "write_frame t u"
          "written u = written t @ cs"
        by (rule writes_fits[OF n t(2)])
      with t True room \<open>length bs \<le> room s\<close> show ?thesis
        by (auto simp: bind_Inr[of m s] intro: write_frame_trans)
    next
      case False
      then obtain u where "n t = (Inl BITSTREAM_OVERFLOW, u)" "stream_writable u" "write_frame t u"
        using writes_overflow[OF n t(2)] by (metis not_le)
      with t False room show ?thesis
        by (auto simp: bind_Inr[of m s] intro: write_frame_trans)
    qed
  next
    case False
    then obtain t where "m s = (Inl BITSTREAM_OVERFLOW, t)" "stream_writable t" "write_frame s t"
      using writes_overflow[OF m w] by (metis not_le)
    with False show ?thesis
      by (auto simp: bind_Inl[of m s])
  qed
qed

lemma readsI:
  assumes "\<And>s. stream_wf s \<Longrightarrow> prefix bs (unread s) \<Longrightarrow> \<exists>s'. m s = (Inr x, s') \<and> stream_wf s' \<and>
    read_frame s s' \<and> stream_pos s' = stream_pos s + length bs"
  shows "reads m bs x"
  using assms by (simp add: reads_def)

lemma readsE:
  assumes "reads m bs x" "stream_wf s" "prefix bs (unread s)"
  obtains s' where "m s = (Inr x, s')" "stream_wf s'" "read_frame s s'"
    "stream_pos s' = stream_pos s + length bs"
  using assms by (auto simp: reads_def)

lemma unread_drop:
  assumes "read_frame s s'" "stream_pos s' = stream_pos s + n"
  shows "unread s' = drop n (unread s)"
proof -
  have "[stream_pos s + n..<8 * data_size s] = drop n [stream_pos s..<8 * data_size s]"
    by simp
  with assms show ?thesis
    by (simp add: unread_def read_frame_def stream_bit_def drop_map)
qed

lemma reads_ret [rd_rules]: "reads (ret x) [] x"
  by (simp add: reads_def ret_def)

lemma reads_bind:
  assumes m: "reads m bs x" and f: "reads (f x) cs y"
  shows "reads (bind m f) (bs @ cs) y"
proof (rule readsI)
  fix s assume wf: "stream_wf s" and p: "prefix (bs @ cs) (unread s)"
  from p have "prefix bs (unread s)"
    by (rule append_prefixD)
  with m wf obtain t where t: "m s = (Inr x, t)" "stream_wf t" "read_frame s t"
      "stream_pos t = stream_pos s + length bs"
    by (rule readsE)
  from p have "prefix cs (unread t)"
    unfolding unread_drop[OF t(3,4)] by (auto simp: prefix_def)
  with f t(2) obtain u where "f x t = (Inr y, u)" "stream_wf u" "read_frame t u"
      "stream_pos u = stream_pos t + length cs"
    by (rule readsE)
  with t show "\<exists>s'. bind m f s = (Inr y, s') \<and> stream_wf s' \<and> read_frame s s' \<and>
      stream_pos s' = stream_pos s + length (bs @ cs)"
    by (auto simp: bind_Inr[of m s] intro: read_frame_trans)
qed

lemma reads_bind_ret: "reads m bs x \<Longrightarrow> f x = ret y \<Longrightarrow> reads (bind m f) bs y"
  using reads_bind[of m bs x f "[]" y] by (simp add: reads_ret)

lemma reads_bind_pure: "reads m bs x \<Longrightarrow> reads (f x) [] y \<Longrightarrow> reads (bind m f) bs y"
  using reads_bind[of m bs x f "[]" y] by simp

lemma safe_readerI:
  assumes "\<And>s. stream_wf s \<Longrightarrow> \<exists>r s'. m s = (r, s') \<and> stream_wf s' \<and> read_frame s s' \<and>
    c_result r"
  shows "safe_reader m"
  using assms by (simp add: safe_reader_def)

lemma safe_readerD:
  assumes "safe_reader m" "stream_wf s" "m s = (r, s')"
  shows "stream_wf s'" "read_frame s s'" "c_result r"
  using assms by (auto simp: safe_reader_def)

lemma safe_ret [safe_rules]: "safe_reader (ret x)"
  by (simp add: safe_reader_def ret_def)

lemma safe_throw [safe_rules]: "c_result (Inl e :: exi_error + unit) \<Longrightarrow> safe_reader (throw e)"
  by (simp add: safe_reader_def throw_def)

lemma safe_if [safe_rules]:
  "(b \<Longrightarrow> safe_reader m) \<Longrightarrow> (\<not> b \<Longrightarrow> safe_reader n) \<Longrightarrow> safe_reader (if b then m else n)"
  by simp

text \<open>
  A reader whose result has a property; what comes after it needs to be safe for such results
  only.
\<close>

definition yields :: "'a exi \<Rightarrow> ('a \<Rightarrow> bool) \<Rightarrow> bool" where
  "yields m P \<longleftrightarrow> (\<forall>s. stream_wf s \<longrightarrow> (\<forall>x s'. m s = (Inr x, s') \<longrightarrow> P x))"

lemma safe_bind_yields:
  assumes m: "safe_reader m" and y: "yields m P" and f: "\<And>x. P x \<Longrightarrow> safe_reader (f x)"
  shows "safe_reader (bind m f)"
proof (rule safe_readerI)
  fix s assume wf: "stream_wf s"
  obtain r t where t: "m s = (r, t)" by force
  note ok = safe_readerD[OF m wf t]
  show "\<exists>r s'. bind m f s = (r, s') \<and> stream_wf s' \<and> read_frame s s' \<and> c_result r"
  proof (cases r)
    case (Inl e)
    with t ok show ?thesis by (simp add: bind_def)
  next
    case (Inr x)
    obtain q u where u: "f x t = (q, u)" by force
    have "P x" using y wf t Inr by (auto simp: yields_def)
    from safe_readerD[OF f[OF this] ok(1) u] t Inr ok u show ?thesis
      by (auto simp: bind_def intro: read_frame_trans)
  qed
qed

lemma safe_bind [safe_rules]:
  "safe_reader m \<Longrightarrow> (\<And>x. safe_reader (f x)) \<Longrightarrow> safe_reader (bind m f)"
  by (rule safe_bind_yields[where P = "\<lambda>_. True"]) (auto simp: yields_def)

lemma yieldsI: "(\<And>s x s'. stream_wf s \<Longrightarrow> m s = (Inr x, s') \<Longrightarrow> P x) \<Longrightarrow> yields m P"
  by (auto simp: yields_def)

lemma yields_ret: "P x \<Longrightarrow> yields (ret x) P"
  by (simp add: yields_def ret_def)

lemma yields_throw: "yields (throw e) P"
  by (simp add: yields_def throw_def)

lemma yieldsD: "yields m P \<Longrightarrow> stream_wf s \<Longrightarrow> m s = (Inr x, s') \<Longrightarrow> P x"
  by (auto simp: yields_def)

lemma yields_bind_yields:
  assumes "safe_reader m" "yields m Q" "\<And>x. Q x \<Longrightarrow> yields (f x) P"
  shows "yields (bind m f) P"
proof (rule yieldsI)
  fix s x s' assume "stream_wf s" "bind m f s = (Inr x, s')"
  then obtain y t where "m s = (Inr y, t)" "f y t = (Inr x, s')"
    by (auto simp: bind_eq_Inr)
  with assms \<open>stream_wf s\<close> show "P x"
    by (meson safe_readerD(1) yieldsD)
qed

lemma yields_bind: "safe_reader m \<Longrightarrow> (\<And>x. yields (f x) P) \<Longrightarrow> yields (bind m f) P"
  by (rule yields_bind_yields[where Q = "\<lambda>_. True"]) (auto simp: yields_def)

section \<open>Bits and octets\<close>

lemma safe_read_bit [safe_rules]: "safe_reader exi_bitstream_read_bit"
proof (rule safe_readerI)
  fix s assume wf: "stream_wf s"
  then show "\<exists>r s'. exi_bitstream_read_bit s = (r, s') \<and> stream_wf s' \<and> read_frame s s' \<and>
      c_result r"
    using has_overflow_spec[OF wf]
    by (cases "room s = 0")
      (auto simp: exi_bitstream_read_bit_def bind_def read_frame_def stream_wf_def stream_pos_def Let_def)
qed

lemma reads_read_bit: "reads exi_bitstream_read_bit [b] (of_bool b)"
proof (rule readsI)
  fix s assume wf: "stream_wf s" and p: "prefix [b] (unread s)"
  then have "length [b] \<le> length (unread s)" by (metis prefix_length_le)
  then have r: "room s \<noteq> 0" by auto
  with has_overflow_spec[OF wf] obtain t where t: "exi_bitstream_has_overflow s = (Inr (), t)"
      "stream_wf t" "data t = data s" "data_size t = data_size s" "init_called t = init_called s"
      "flag_byte_pos t = flag_byte_pos s" "stream_pos t = stream_pos s"
      "byte_pos t < data_size t" "bit_count t < 8"
    by auto
  have "unread s = stream_bit s (stream_pos s) # map (stream_bit s) [Suc (stream_pos s)..<8 * data_size s]"
    using r by (simp add: unread_def room_def upt_conv_Cons)
  with p have "b = stream_bit t (stream_pos t)"
    using t(3,7) by (simp add: stream_bit_def)
  also have "\<dots> = bit (data t ! byte_pos t) (7 - bit_count t)"
    using t(9) by (simp add: stream_bit_def stream_pos_def)
  finally have "(drop_bit (7 - bit_count t) (data t ! byte_pos t) AND 1 \<noteq> 0) = b"
    by (simp add: and_one_eq mod_2_eq_odd bit_iff_odd_drop_bit)
  then have "exi_bitstream_read_bit s = (Inr (of_bool b), t\<lparr>bit_count := bit_count t + 1\<rparr>)"
    using t by (auto simp: exi_bitstream_read_bit_def bind_def EXI_BITSTREAM_MAX_BIT_COUNT_def
        stream_wf_def Let_def)
  moreover have "stream_wf (t\<lparr>bit_count := bit_count t + 1\<rparr>)"
      "read_frame s (t\<lparr>bit_count := bit_count t + 1\<rparr>)"
      "stream_pos (t\<lparr>bit_count := bit_count t + 1\<rparr>) = stream_pos s + length [b]"
    using t by (auto simp: stream_wf_def read_frame_def stream_pos_def)
  ultimately show "\<exists>s'. exi_bitstream_read_bit s = (Inr (of_bool b), s') \<and> stream_wf s' \<and>
      read_frame s s' \<and> stream_pos s' = stream_pos s + length [b]"
    by blast
qed

lemma writes_write_bits_loop:
  "n \<le> 32 \<Longrightarrow> writes (exi_bitstream_write_bits_loop n v) (word_bits n v)"
proof (induction n)
  case 0
  then show ?case by (simp add: writes_ret)
next
  case (Suc n)
  then have "writes (seq (exi_bitstream_write_bit (of_bool (bit v n))) (exi_bitstream_write_bits_loop n v))
      ([(of_bool (bit v n) :: byte) \<noteq> 0] @ word_bits n v)"
    by (intro writes_seq write_bit_writes) simp
  with Suc.prems show ?case
    by (simp add: and_exp_gt_zero word_bits_Suc)
qed

lemma writes_write_bits [wr_rules]:
  "n \<le> 32 \<Longrightarrow> writes (exi_bitstream_write_bits n v) (word_bits n v)"
  by (simp add: exi_bitstream_write_bits_def writes_write_bits_loop)

lemma word_bits_ucast:
  fixes w :: "'a::len word"
  assumes "n \<le> LENGTH('b::len)"
  shows "word_bits n (ucast w :: 'b word) = word_bits n w"
  using assms by (auto simp: word_bits_def bit_simps)

lemma writes_write_octet [wr_rules]: "writes (exi_bitstream_write_octet v) (word_bits 8 v)"
proof -
  have "word_bits 8 (ucast v :: u32) = word_bits 8 v"
    by (rule word_bits_ucast) simp
  then show ?thesis
    using writes_write_bits[of 8 "ucast v"] by (simp add: exi_bitstream_write_octet_def)
qed

lemma reads_read_bits_loop: "reads (exi_bitstream_read_bits_loop (length bs) v) bs (push_bits v bs)"
proof (induction bs arbitrary: v)
  case Nil
  then show ?case by (simp add: reads_ret)
next
  case (Cons b bs)
  have "reads (exi_bitstream_read_bits_loop (length (b # bs)) v) ([b] @ bs) (push_bits v (b # bs))"
    unfolding exi_bitstream_read_bits_loop.simps list.size(4) add_Suc_right add_0_right
    by (rule reads_bind[OF reads_read_bit]) (use Cons.IH in \<open>simp add: push_bits_Cons\<close>)
  then show ?case by simp
qed

lemma reads_read_bits [rd_rules]:
  "n \<le> 32 \<Longrightarrow> reads (exi_bitstream_read_bits n) (word_bits n v) (take_bit n v)"
  using reads_read_bits_loop[of "word_bits n v" "0 :: u32"] by (simp add: exi_bitstream_read_bits_def)

lemma reads_read_octet [rd_rules]:
  "reads exi_bitstream_read_octet (word_bits 8 v) v"
  using reads_read_bits_loop[of "word_bits 8 v" "0 :: byte"]
  by (simp add: exi_bitstream_read_octet_def take_bit_word_eq_self)

lemma safe_read_bits_loop [safe_rules]: "safe_reader (exi_bitstream_read_bits_loop n v)"
  by (induction n arbitrary: v) (simp_all add: safe_rules)

lemma safe_read_bits [safe_rules]: "safe_reader (exi_bitstream_read_bits n)"
  by (simp add: exi_bitstream_read_bits_def safe_rules)

lemma safe_read_octet [safe_rules]: "safe_reader exi_bitstream_read_octet"
  by (simp add: exi_bitstream_read_octet_def safe_rules)

section \<open>Encoded length\<close>

lemma get_length_init:
  assumes "init_called s" "flag_byte_pos s \<le> byte_pos s" "byte_pos s < size_t_modulus - 1"
  shows "exi_bitstream_get_length s =
    byte_pos s - flag_byte_pos s + (if bit_count s > 0 then 1 else 0)"
proof -
  have "(byte_pos s + size_t_modulus - flag_byte_pos s) mod size_t_modulus = byte_pos s - flag_byte_pos s"
    using assms by (simp add: le_mod_geq)
  with assms show ?thesis
    by (simp add: exi_bitstream_get_length_def Let_def Suc_diff_le)
qed

text \<open>
  The stream as it is after encoding is read back by rewinding the cursor; the bits written
  since then come first.
\<close>

definition rewind :: "exi_bitstream_t \<Rightarrow> exi_bitstream_t \<Rightarrow> exi_bitstream_t" where
  "rewind s s' = s'\<lparr>byte_pos := byte_pos s, bit_count := bit_count s\<rparr>"

lemma written_suffix:
  "written s' = written s @ bs \<Longrightarrow> map (stream_bit s') [stream_pos s..<stream_pos s'] = bs"
  by (metis append_eq_conv_conj drop_map drop_upt length_written plus_nat.add_0 written_def)

lemma rewind_unread:
  assumes "stream_wf s" "stream_wf s'" "write_frame s s'" "written s' = written s @ bs"
  shows "stream_wf (rewind s s')" "prefix bs (unread (rewind s s'))"
proof -
  show "stream_wf (rewind s s')"
    using assms by (auto simp: rewind_def stream_wf_def write_frame_def)
  have pos: "stream_pos s' = stream_pos s + length bs"
    by (rule writes_room(1)[OF assms(3,4)])
  have "stream_pos s' \<le> 8 * data_size s'"
    using assms(2) by (auto simp: stream_wf_def stream_pos_def)
  then have "prefix bs (map (stream_bit s') [stream_pos s..<8 * data_size s'])"
    using prefix_map_upt written_suffix[OF assms(4)] pos by metis
  moreover have "unread (rewind s s') = map (stream_bit s') [stream_pos s..<8 * data_size s']"
    by (simp add: rewind_def unread_def stream_pos_def stream_bit_def)
  ultimately show "prefix bs (unread (rewind s s'))" by simp
qed

lemma prefix_init_take:
  assumes "written s' = written s @ bs" "stream_pos s = 8 * off"
    and "stream_pos s' \<le> 8 * len" "len \<le> length (data s')"
  shows "prefix bs (unread (exi_bitstream_init (take len (data s')) len off))"
proof -
  have "prefix bs (map (stream_bit s') [8 * off..<8 * len])"
    using prefix_map_upt[OF assms(3)] written_suffix[OF assms(1)] assms(2) by metis
  moreover have "unread (exi_bitstream_init (take len (data s')) len off) =
      map (stream_bit s') [8 * off..<8 * len]"
    by (auto simp: exi_bitstream_init_def unread_def stream_pos_def stream_bit_def less_mult_imp_div_less
        mult.commute)
  ultimately show ?thesis by simp
qed

text \<open>An encoder stays between the cursor and the end of the stream, whatever the outcome.\<close>

definition stays_inside :: "exi_bitstream_t \<Rightarrow> exi_bitstream_t \<Rightarrow> bool" where
  "stays_inside s s' \<longleftrightarrow> length (data s') = length (data s) \<and> data_size s' = data_size s \<and>
     take (byte_pos s) (data s') = take (byte_pos s) (data s) \<and>
     drop (data_size s) (data s') = drop (data_size s) (data s) \<and> stream_pos s' \<le> 8 * data_size s"

lemma writes_stays_inside:
  assumes "writes m bs" "stream_writable s"
  shows "\<exists>r s'. m s = (r, s') \<and> stays_inside s s' \<and>
    r = (if length bs \<le> room s then Inr () else Inl BITSTREAM_OVERFLOW)"
proof -
  obtain r s' where s': "m s = (r, s')" "stream_writable s'" "write_frame s s'"
      "r = (if length bs \<le> room s then Inr () else Inl BITSTREAM_OVERFLOW)"
    using assms unfolding writes_def by (metis (no_types, lifting))
  have end': "stream_pos s' \<le> 8 * data_size s" "data_size s' = data_size s" "length (data s') = length (data s)"
    using s'(2,3) by (auto simp: stream_writable_def stream_wf_def stream_pos_def write_frame_def)
  have "take (byte_pos s) (data s') = take (byte_pos s) (data s)"
    using s'(3) by (auto simp: write_frame_def stream_pos_def list_eq_iff_nth_eq)
  moreover have "drop (data_size s) (data s') = drop (data_size s) (data s)"
    using s'(3) end' by (auto simp: write_frame_def list_eq_iff_nth_eq)
  ultimately show ?thesis using s' end' by (auto simp: stays_inside_def)
qed

section \<open>The contract between an encoder and its decoder\<close>

text \<open>
  \<open>code x\<close> is the bit string EXI prescribes for the value \<open>x\<close>, \<open>valid\<close> the values the C type
  and the schema allow. The encoder appends the code or reports an overflow, the decoder
  recovers the value from the code up to the relation \<open>rel\<close> (the parts of a C structure that
  carry the message), and the decoder is memory safe on arbitrary input and returns.
\<close>

locale exi_message =
  fixes enc :: "'a \<Rightarrow> unit exi"
    and dec :: "'b exi"
    and code :: "'a \<Rightarrow> bool list"
    and valid :: "'a \<Rightarrow> bool"
    and rel :: "'a \<Rightarrow> 'b \<Rightarrow> bool"
  assumes enc_writes: "valid x \<Longrightarrow> writes (enc x) (code x)"
    and dec_reads: "valid x \<Longrightarrow> \<exists>y. rel x y \<and> reads dec (code x) y"
    and dec_safe: "safe_reader dec"
begin

lemma decodes:
  assumes "valid x" "stream_wf s" "prefix (code x) (unread s)"
  shows "\<exists>y s'. rel x y \<and> dec s = (Inr y, s') \<and> stream_pos s' = stream_pos s + length (code x)"
proof -
  obtain y where "rel x y" "reads dec (code x) y" using dec_reads[OF assms(1)] by blast
  with readsE[OF this(2) assms(2,3)] show ?thesis by metis
qed

lemma roundtrip:
  assumes "valid x" "stream_writable s" "length (code x) \<le> room s"
  shows "\<exists>s' y s''. enc x s = (Inr (), s') \<and> rel x y \<and> dec (rewind s s') = (Inr y, s'') \<and>
    stream_pos s'' = stream_pos s'"
proof -
  obtain s' where s': "enc x s = (Inr (), s')" "stream_writable s'" "write_frame s s'"
      "written s' = written s @ code x"
    using writes_fits[OF enc_writes] assms by metis
  have wf: "stream_wf s" "stream_wf s'"
    using assms(2) s'(2) by (simp_all add: stream_writable_def)
  obtain y s'' where "rel x y" "dec (rewind s s') = (Inr y, s'')"
      "stream_pos s'' = stream_pos (rewind s s') + length (code x)"
    using decodes[OF assms(1) rewind_unread[OF wf s'(3,4)]] by metis
  moreover have "stream_pos (rewind s s') = stream_pos s"
    by (simp add: rewind_def stream_pos_def)
  ultimately show ?thesis
    using s'(1) writes_room(1)[OF s'(3,4)] by auto
qed

lemma overflow_reported:
  assumes "valid x" "stream_writable s" "length (code x) > room s"
  shows "fst (enc x s) = Inl BITSTREAM_OVERFLOW"
  using writes_overflow[OF enc_writes[OF assms(1)] assms(2,3)] by (metis fst_conv)

text \<open>
  What a receiver sees: the bytes that \<^const>\<open>exi_bitstream_get_length\<close> counts, and nothing
  after them. They are enough to decode the message.
\<close>

lemma transmit:
  assumes "valid x" "off \<le> n" "n \<le> length buf" "n < size_t_modulus - 1"
    and "length (code x) \<le> 8 * (n - off)"
    and s': "enc x (exi_bitstream_init buf n off) = (r, s')"
    and len: "len = off + exi_bitstream_get_length s'"
  shows "r = Inr ()" "len \<le> n"
    "\<exists>y s''. rel x y \<and> dec (exi_bitstream_init (take len (data s')) len off) = (Inr y, s'')"
proof -
  let ?s = "exi_bitstream_init buf n off"
  have w: "stream_writable ?s" and room: "room ?s = 8 * (n - off)"
    using assms(2,3) by (simp add: init_writable, simp add: room_def stream_pos_def exi_bitstream_init_def)
  obtain t where t: "enc x ?s = (Inr (), t)" "stream_writable t" "write_frame ?s t"
      "written t = written ?s @ code x"
    using writes_fits[OF enc_writes[OF assms(1)] w] assms(5) room by metis
  with s' have eq: "s' = t" and r: "r = Inr ()" by auto
  show "r = Inr ()" by (rule r)
  have pos: "stream_pos s' = 8 * off + length (code x)"
    using writes_room(1)[OF t(3,4)] eq by (simp add: stream_pos_def exi_bitstream_init_def)
  have fr: "data_size s' = n" "flag_byte_pos s' = off" "init_called s'" "length (data s') = length buf"
    using t(3) eq by (simp_all add: write_frame_def exi_bitstream_init_def)
  have wf: "stream_wf s'" using t(2) eq by (simp add: stream_writable_def)
  have len_eq: "len = byte_pos s' + (if bit_count s' > 0 then 1 else 0)"
  proof -
    have "off \<le> byte_pos s'"
      using t(3) eq by (simp add: write_frame_def exi_bitstream_init_def)
    moreover have "byte_pos s' < size_t_modulus - 1"
      using wf fr(1) assms(4) by (simp add: stream_wf_def)
    ultimately show ?thesis
      using get_length_init[of s'] fr len by simp
  qed
  show le: "len \<le> n"
    using wf fr(1) by (auto simp: len_eq stream_wf_def)
  have "stream_pos s' \<le> 8 * len"
    using wf by (auto simp: len_eq stream_pos_def stream_wf_def)
  moreover have "stream_pos ?s = 8 * off" "len \<le> length (data s')"
    using le assms(3) fr(4) by (auto simp: stream_pos_def exi_bitstream_init_def)
  ultimately have "prefix (code x) (unread (exi_bitstream_init (take len (data s')) len off))"
    using prefix_init_take[OF t(4)] eq by blast
  moreover have "stream_wf (exi_bitstream_init (take len (data s')) len off)"
    using le fr(4) assms(3) pos wf
    by (auto simp: stream_wf_def exi_bitstream_init_def len_eq stream_pos_def)
  ultimately show "\<exists>y s''. rel x y \<and> dec (exi_bitstream_init (take len (data s')) len off) = (Inr y, s'')"
    using decodes[OF assms(1)] by metis
qed

text \<open>No code is a prefix of another: a receiver cannot mistake one value for another.\<close>

lemma unique_decoding:
  assumes "valid x" "valid y" "prefix (code x) (code y)"
  shows "\<exists>z. rel x z \<and> rel y z"
proof -
  let ?n = "length (code y)"
  let ?s = "exi_bitstream_init (replicate ?n 0) ?n 0"
  have w: "stream_writable ?s" "length (code y) \<le> room ?s"
    by (simp_all add: init_writable room_def stream_pos_def) (simp add: exi_bitstream_init_def)
  obtain t where t: "stream_writable t" "write_frame ?s t" "written t = written ?s @ code y"
    using writes_fits[OF enc_writes[OF assms(2)] w] by metis
  have wf: "stream_wf ?s" "stream_wf t"
    using w(1) t(1) by (simp_all add: stream_writable_def)
  note rw = rewind_unread[OF wf t(2,3)]
  have "prefix (code x) (unread (rewind ?s t))"
    using assms(3) rw(2) by (rule prefix_order.trans)
  then obtain u v a b where "rel x u" "rel y v" "dec (rewind ?s t) = (Inr u, a)" "dec (rewind ?s t) = (Inr v, b)"
    using decodes[OF assms(1) rw(1)] decodes[OF assms(2) rw] by metis
  then show ?thesis by auto
qed

end

text \<open>The special case of a decoder that recovers the value itself.\<close>

locale exi_codec =
  fixes enc :: "'a \<Rightarrow> unit exi"
    and dec :: "'a exi"
    and code :: "'a \<Rightarrow> bool list"
    and valid :: "'a \<Rightarrow> bool"
  assumes writes_code: "valid x \<Longrightarrow> writes (enc x) (code x)"
    and reads_code: "valid x \<Longrightarrow> reads dec (code x) x"
    and safe_code: "safe_reader dec"

sublocale exi_codec \<subseteq> msg: exi_message enc dec code valid "(=)"
  by unfold_locales (auto intro: writes_code reads_code safe_code)

context exi_codec
begin

lemma roundtrip:
  assumes "valid x" "stream_writable s" "length (code x) \<le> room s"
  shows "\<exists>s' s''. enc x s = (Inr (), s') \<and> dec (rewind s s') = (Inr x, s'') \<and>
    stream_pos s'' = stream_pos s'"
  using msg.roundtrip[OF assms] by blast

lemma prefix_free: "valid x \<Longrightarrow> valid y \<Longrightarrow> prefix (code x) (code y) \<Longrightarrow> x = y"
  using msg.unique_decoding by blast

end

end
