(* ===== verification/Exi_Basetypes.thy ===== *)
theory Exi_Basetypes
  imports Exi_Bitstream
begin

text \<open>
  The integer representations of libcbv2g
  (\<^verbatim>\<open>lib/everest/cbv2g/lib/cbv2g/common/exi_basetypes.c\<close>): the API structure
  \<^verbatim>\<open>exi_unsigned_t\<close> with its fixed array of 29 octets, the conversions between it and C
  integers, and the conversions between big-endian bytes and the EXI wire form (seven value
  bits per octet, least significant group first, the top bit set on all octets but the last).
  Accesses outside an array are \<^const>\<open>UNDEFINED_BEHAVIOUR\<close>.
\<close>

section \<open>Data\<close>

definition EXI_BASETYPES_MAX_OCTETS_SUPPORTED :: nat where
  "EXI_BASETYPES_MAX_OCTETS_SUPPORTED = 29"

abbreviation (input) EXI_BASETYPES_OCTET_SEQ_FLAG_MASK :: byte where
  "EXI_BASETYPES_OCTET_SEQ_FLAG_MASK \<equiv> 0x80"

abbreviation (input) EXI_BASETYPES_OCTET_SEQ_VALUE_MASK :: byte where
  "EXI_BASETYPES_OCTET_SEQ_VALUE_MASK \<equiv> 0x7F"

abbreviation (input) EXI_BASETYPES_UINT8_MAX_OCTETS :: nat where
  "EXI_BASETYPES_UINT8_MAX_OCTETS \<equiv> 2"

abbreviation (input) EXI_BASETYPES_UINT16_MAX_OCTETS :: nat where
  "EXI_BASETYPES_UINT16_MAX_OCTETS \<equiv> 3"

abbreviation (input) EXI_BASETYPES_UINT32_MAX_OCTETS :: nat where
  "EXI_BASETYPES_UINT32_MAX_OCTETS \<equiv> 5"

abbreviation (input) EXI_BASETYPES_UINT64_MAX_OCTETS :: nat where
  "EXI_BASETYPES_UINT64_MAX_OCTETS \<equiv> 10"

record exi_unsigned_t =
  octets :: "byte list"
  octets_count :: nat

record exi_signed_t =
  sdata :: exi_unsigned_t
  is_negative :: bool

definition unsigned_wf :: "exi_unsigned_t \<Rightarrow> bool" where
  "unsigned_wf u \<longleftrightarrow> length (octets u) = EXI_BASETYPES_MAX_OCTETS_SUPPORTED \<and>
     octets_count u \<le> EXI_BASETYPES_MAX_OCTETS_SUPPORTED"

section \<open>Magnitudes\<close>

text \<open>\<^verbatim>\<open>while ((magnitude >>= 7u) != 0) count++\<close>\<close>

function exi_basetypes_magnitude_octets_loop :: "nat \<Rightarrow> u64 \<Rightarrow> nat" where
  "exi_basetypes_magnitude_octets_loop count magnitude =
     (if drop_bit 7 magnitude \<noteq> 0
      then exi_basetypes_magnitude_octets_loop (count + 1) (drop_bit 7 magnitude) else count)"
  by pat_completeness auto
termination
  by (relation "measure (\<lambda>(count, magnitude). unat magnitude)") (auto intro: unat_drop_bit_less)

declare exi_basetypes_magnitude_octets_loop.simps [simp del]

definition exi_basetypes_magnitude_octets :: "u64 \<Rightarrow> nat" where
  "exi_basetypes_magnitude_octets magnitude = exi_basetypes_magnitude_octets_loop 1 magnitude"

text \<open>\<^verbatim>\<open>for (remaining = magnitude; remaining != 0; remaining >>= 8u) octets_count++\<close>\<close>

function exi_basetypes_count_bytes :: "nat \<Rightarrow> u64 \<Rightarrow> nat" where
  "exi_basetypes_count_bytes count remaining =
     (if remaining \<noteq> 0 then exi_basetypes_count_bytes (count + 1) (drop_bit 8 remaining)
      else count)"
  by pat_completeness auto
termination
  by (relation "measure (\<lambda>(count, remaining). unat remaining)") (auto intro: unat_drop_bit_less)

declare exi_basetypes_count_bytes.simps [simp del]

text \<open>\<^verbatim>\<open>for (n = octets_count; n > 0; n--) { octets[n - 1] = magnitude; magnitude >>= 8; }\<close>\<close>

fun exi_basetypes_fill_bytes :: "nat \<Rightarrow> u64 \<Rightarrow> byte list \<Rightarrow> byte list" where
  "exi_basetypes_fill_bytes 0 magnitude os = os"
| "exi_basetypes_fill_bytes (Suc n) magnitude os =
     exi_basetypes_fill_bytes n (drop_bit 8 magnitude) (os[n := ucast magnitude])"

definition exi_basetypes_write_magnitude :: "u64 \<Rightarrow> (exi_unsigned_t, exi_error, unit) se" where
  "exi_basetypes_write_magnitude magnitude u =
     (let n = exi_basetypes_count_bytes 0 magnitude
      in if n \<le> length (octets u)
         then (Inr (), u\<lparr>octets := exi_basetypes_fill_bytes n magnitude (octets u), octets_count := n\<rparr>)
         else (Inl UNDEFINED_BEHAVIOUR, u))"

text \<open>\<^verbatim>\<open>while (first < octets_count && octets[first] == 0) first++\<close>\<close>

fun exi_basetypes_skip_zeros :: "byte list \<Rightarrow> nat" where
  "exi_basetypes_skip_zeros [] = 0"
| "exi_basetypes_skip_zeros (b # bs) = (if b = 0 then 1 + exi_basetypes_skip_zeros bs else 0)"

definition unsigned_bytes :: "exi_unsigned_t \<Rightarrow> byte list" where
  "unsigned_bytes u = take (octets_count u) (octets u)"

definition exi_basetypes_read_magnitude :: "exi_unsigned_t \<Rightarrow> u64" where
  "exi_basetypes_read_magnitude u =
     (let first = exi_basetypes_skip_zeros (unsigned_bytes u)
      in if octets_count u - first > 8 then - 1
         else foldl (\<lambda>magnitude b. push_bit 8 magnitude OR ucast b) 0 (drop first (unsigned_bytes u)))"

section \<open>Conversions between C integers and the structures\<close>

definition exi_basetypes_convert_to_unsigned ::
    "u32 \<Rightarrow> nat \<Rightarrow> (exi_unsigned_t, exi_error, unit) se" where
  "exi_basetypes_convert_to_unsigned v max_octets =
     seq (exi_basetypes_write_magnitude (ucast v))
         (if exi_basetypes_magnitude_octets (ucast v) \<le> max_octets then ret ()
          else throw OCTET_COUNT_LARGER_THAN_TYPE_SUPPORTS)"

definition exi_basetypes_convert_64_to_unsigned ::
    "u64 \<Rightarrow> (exi_unsigned_t, exi_error, unit) se" where
  "exi_basetypes_convert_64_to_unsigned v = exi_basetypes_write_magnitude v"

definition exi_basetypes_convert_64_from_unsigned :: "exi_unsigned_t \<Rightarrow> exi_error + u64" where
  "exi_basetypes_convert_64_from_unsigned u =
     (let first = exi_basetypes_skip_zeros (unsigned_bytes u)
      in if octets_count u > length (octets u) then Inl UNDEFINED_BEHAVIOUR
         else if octets_count u - first > 8 then Inl ENCODED_INTEGER_SIZE_LARGER_THAN_DESTINATION
         else Inr (exi_basetypes_read_magnitude u))"

definition exi_basetypes_convert_from_unsigned ::
    "exi_unsigned_t \<Rightarrow> nat \<Rightarrow> exi_error + u32" where
  "exi_basetypes_convert_from_unsigned u max_octets =
     (case exi_basetypes_convert_64_from_unsigned u of
        Inl e \<Rightarrow> Inl e
      | Inr magnitude \<Rightarrow>
          if exi_basetypes_magnitude_octets magnitude > max_octets
          then Inl OCTET_COUNT_LARGER_THAN_TYPE_SUPPORTS
          else if magnitude > 0xFFFFFFFF then Inl ENCODED_INTEGER_SIZE_LARGER_THAN_DESTINATION
          else Inr (ucast magnitude))"

definition exi_basetypes_signed_magnitude :: "'a::len word \<Rightarrow> u64" where
  "exi_basetypes_signed_magnitude v = (if sint v < 0 then scast (- (v + 1)) else scast v)"

definition exi_basetypes_write_signed :: "'a::len word \<Rightarrow> (exi_signed_t, exi_error, unit) se" where
  "exi_basetypes_write_signed v s =
     (case exi_basetypes_write_magnitude (exi_basetypes_signed_magnitude v) (sdata s) of
        (r, u) \<Rightarrow> (r, \<lparr>sdata = u, is_negative = (sint v < 0)\<rparr>))"

definition exi_basetypes_convert_to_signed ::
    "32 word \<Rightarrow> nat \<Rightarrow> (exi_signed_t, exi_error, unit) se" where
  "exi_basetypes_convert_to_signed v max_octets =
     seq (exi_basetypes_write_signed v)
         (if exi_basetypes_magnitude_octets (exi_basetypes_signed_magnitude v) \<le> max_octets
          then ret () else throw OCTET_COUNT_LARGER_THAN_TYPE_SUPPORTS)"

definition exi_basetypes_convert_64_to_signed ::
    "64 word \<Rightarrow> (exi_signed_t, exi_error, unit) se" where
  "exi_basetypes_convert_64_to_signed v = exi_basetypes_write_signed v"

definition exi_basetypes_convert_from_signed ::
    "exi_signed_t \<Rightarrow> nat \<Rightarrow> exi_error + 32 word" where
  "exi_basetypes_convert_from_signed s max_octets =
     (let magnitude = exi_basetypes_read_magnitude (sdata s)
      in if octets_count (sdata s) > length (octets (sdata s)) then Inl UNDEFINED_BEHAVIOUR
         else if exi_basetypes_magnitude_octets magnitude > max_octets
         then Inl OCTET_COUNT_LARGER_THAN_TYPE_SUPPORTS
         else if magnitude > 0x7FFFFFFF then Inl ENCODED_INTEGER_SIZE_LARGER_THAN_DESTINATION
         else Inr (if is_negative s then - 1 - ucast magnitude else ucast magnitude))"

definition exi_basetypes_convert_64_from_signed :: "exi_signed_t \<Rightarrow> exi_error + 64 word" where
  "exi_basetypes_convert_64_from_signed s =
     (let magnitude = exi_basetypes_read_magnitude (sdata s)
      in if octets_count (sdata s) > length (octets (sdata s)) then Inl UNDEFINED_BEHAVIOUR
         else if magnitude > 0x7FFFFFFFFFFFFFFF then Inl ENCODED_INTEGER_SIZE_LARGER_THAN_DESTINATION
         else Inr (if is_negative s then - 1 - magnitude else magnitude))"

section \<open>Conversions between big-endian bytes and the wire form\<close>

text \<open>\<^verbatim>\<open>while (i < j) { swap data[i], data[j]; i++; j--; }\<close>\<close>

function reverse_array_loop :: "nat \<Rightarrow> nat \<Rightarrow> byte list \<Rightarrow> byte list" where
  "reverse_array_loop i j xs =
     (if i < j then reverse_array_loop (i + 1) (j - 1) (xs[i := xs ! j, j := xs ! i]) else xs)"
  by pat_completeness auto
termination
  by (relation "measure (\<lambda>(i, j, xs). j - i)") auto

declare reverse_array_loop.simps [simp del]

definition reverse_array :: "byte list \<Rightarrow> nat \<Rightarrow> byte list" where
  "reverse_array xs n = (if n = 0 then xs else reverse_array_loop 0 (n - 1) xs)"

text \<open>
  The loop of \<^verbatim>\<open>exi_basetypes_convert_bytes_from_unsigned\<close> over the wire octets: \<open>temp\<close> holds
  \<open>total_offset\<close> bits that have not been written yet.
\<close>

fun bytes_from_unsigned_loop ::
    "byte list \<Rightarrow> nat \<Rightarrow> u16 \<Rightarrow> nat \<Rightarrow> byte list \<Rightarrow> nat \<Rightarrow> exi_error + u16 \<times> nat \<times> byte list \<times> nat" where
  "bytes_from_unsigned_loop [] buf_size temp total_offset buf buf_len =
     Inr (temp, total_offset, buf, buf_len)"
| "bytes_from_unsigned_loop (current_octet # rest) buf_size temp total_offset buf buf_len =
     (let temp = temp + push_bit total_offset
            (ucast (current_octet AND EXI_BASETYPES_OCTET_SEQ_VALUE_MASK));
          total_offset = total_offset + 7
      in if total_offset \<ge> 8 then
           (if buf_len \<ge> buf_size then Inl ENCODED_INTEGER_SIZE_LARGER_THAN_DESTINATION
            else if buf_len \<ge> length buf then Inl UNDEFINED_BEHAVIOUR
            else bytes_from_unsigned_loop rest buf_size (drop_bit 8 temp) (total_offset - 8)
                   (buf[buf_len := ucast (temp AND 0xFF)]) (buf_len + 1))
         else bytes_from_unsigned_loop rest buf_size temp total_offset buf buf_len)"

definition exi_basetypes_convert_bytes_from_unsigned ::
    "exi_unsigned_t \<Rightarrow> byte list \<Rightarrow> nat \<Rightarrow> exi_error + byte list \<times> nat" where
  "exi_basetypes_convert_bytes_from_unsigned u buf buf_size =
     (if octets_count u > length (octets u) then Inl UNDEFINED_BEHAVIOUR
      else case bytes_from_unsigned_loop (unsigned_bytes u) buf_size 0 0 buf 0 of
        Inl e \<Rightarrow> Inl e
      | Inr (temp, total_offset, buf, buf_len) \<Rightarrow>
          if total_offset \<noteq> 0 \<and> temp AND 0xFF \<noteq> 0 then
            (if buf_len \<ge> buf_size then Inl ENCODED_INTEGER_SIZE_LARGER_THAN_DESTINATION
             else if buf_len \<ge> length buf then Inl UNDEFINED_BEHAVIOUR
             else Inr (reverse_array (buf[buf_len := ucast (temp AND 0xFF)]) (buf_len + 1),
                       buf_len + 1))
          else Inr (reverse_array buf buf_len, buf_len))"

text \<open>\<^verbatim>\<open>while (byte) { bits_in_byte++; byte >>= 1; }\<close>\<close>

function bits_in_byte :: "byte \<Rightarrow> nat" where
  "bits_in_byte b = (if b = 0 then 0 else 1 + bits_in_byte (drop_bit 1 b))"
  by pat_completeness auto
termination
  by (relation "measure unat") (auto intro: unat_drop_bit_less)

declare bits_in_byte.simps [simp del]

text \<open>
  The loop of \<^verbatim>\<open>exi_basetypes_convert_bytes_to_unsigned\<close>; \<open>left\<close> is
  \<^verbatim>\<open>exi_expected_octets_count - outcount\<close>. \<open>dummy\<close> holds \<open>dummy_count\<close> bits that have been
  fetched from the end of the byte array and not been written yet. The fetch reads
  \<^verbatim>\<open>data[data_len - incount - 1]\<close>, which is outside the array once \<open>incount\<close> has reached
  \<^verbatim>\<open>data_len\<close>.
\<close>

fun bytes_to_unsigned_loop ::
    "nat \<Rightarrow> byte list \<Rightarrow> u16 \<Rightarrow> nat \<Rightarrow> nat \<Rightarrow> exi_unsigned_t \<Rightarrow> (exi_error + unit) \<times> exi_unsigned_t" where
  "bytes_to_unsigned_loop 0 bytes dummy dummy_count incount u = (Inr (), u)"
| "bytes_to_unsigned_loop (Suc left) bytes dummy dummy_count incount u =
     (if dummy_count < 7 \<and> incount \<ge> length bytes then (Inl UNDEFINED_BEHAVIOUR, u)
      else if octets_count u \<ge> length (octets u) then (Inl UNDEFINED_BEHAVIOUR, u)
      else
        let fetch = dummy_count < 7;
            dummy = (if fetch then dummy OR push_bit dummy_count
                       (ucast (bytes ! (length bytes - incount - 1))) else dummy);
            dummy_count = (if fetch then dummy_count + 8 else dummy_count);
            incount = (if fetch then incount + 1 else incount);
            octet = ucast dummy AND EXI_BASETYPES_OCTET_SEQ_VALUE_MASK;
            n = octets_count u
        in if left > 0
           then bytes_to_unsigned_loop left bytes (drop_bit 7 dummy) (dummy_count - 7) incount
                  (u\<lparr>octets := (octets u)[n := octet OR EXI_BASETYPES_OCTET_SEQ_FLAG_MASK],
                     octets_count := n + 1\<rparr>)
           else (Inr (), u\<lparr>octets := (octets u)[n := octet], octets_count := n + 1\<rparr>))"

definition relevant_input_bits :: "byte list \<Rightarrow> nat" where
  "relevant_input_bits bytes =
     (let bytenum = exi_basetypes_skip_zeros bytes
      in (length bytes - bytenum - 1) * 8 + bits_in_byte (bytes ! bytenum))"

definition exi_basetypes_convert_bytes_to_unsigned ::
    "byte list \<Rightarrow> (exi_unsigned_t, exi_error, unit) se" where
  "exi_basetypes_convert_bytes_to_unsigned bytes u =
     (if exi_basetypes_skip_zeros bytes = length bytes then
        (if length (octets u) = 0 then (Inl UNDEFINED_BEHAVIOUR, u)
         else (Inr (), u\<lparr>octets := (octets u)[0 := 0], octets_count := 1\<rparr>))
      else bytes_to_unsigned_loop ((relevant_input_bits bytes + 6) div 7) bytes 0 0 0
             (u\<lparr>octets_count := 0\<rparr>))"

section \<open>Values of byte strings\<close>

definition be_val :: "byte list \<Rightarrow> nat" where
  "be_val bs = foldl (\<lambda>v b. 256 * v + unat b) 0 bs"

fun wire_val :: "byte list \<Rightarrow> nat" where
  "wire_val [] = 0"
| "wire_val (b # bs) = unat b mod 128 + 128 * wire_val bs"

definition minimal_bytes :: "byte list \<Rightarrow> bool" where
  "minimal_bytes bs \<longleftrightarrow> bs = [] \<or> hd bs \<noteq> 0"

lemma foldl_be: "foldl (\<lambda>v b. 256 * v + unat b) v bs = v * 256 ^ length bs + be_val bs"
proof (induction bs arbitrary: v)
  case (Cons b bs)
  have "be_val (b # bs) = unat b * 256 ^ length bs + be_val bs"
    using Cons.IH[of "unat b"] by (simp add: be_val_def)
  moreover have "foldl (\<lambda>v b. 256 * v + unat b) v (b # bs) =
      (256 * v + unat b) * 256 ^ length bs + be_val bs"
    by (simp add: Cons.IH)
  ultimately show ?case
    by (simp add: distrib_right)
qed (simp add: be_val_def)

lemma be_val_simps [simp]:
  "be_val [] = 0"
  "be_val (b # bs) = unat b * 256 ^ length bs + be_val bs"
  "be_val (bs @ [b]) = 256 * be_val bs + unat b"
  using foldl_be[of "unat b" bs] by (simp_all add: be_val_def)

lemma byte_less [simp]: "unat (b :: byte) < 256"
  using unsigned_less[of b, where ?'a = nat] by simp

lemma byte_le: "unat (b :: byte) \<le> 255"
  using byte_less[of b] by linarith

lemma be_val_less: "be_val bs < 256 ^ length bs"
proof (induction bs rule: rev_induct)
  case (snoc b bs)
  then have "256 * be_val bs + 256 \<le> 256 * 256 ^ length bs"
    by simp
  with byte_less[of b] have "256 * be_val bs + unat b < 256 * 256 ^ length bs" by linarith
  then show ?case by simp
qed simp

lemma be_val_ge: "bs \<noteq> [] \<Longrightarrow> hd bs \<noteq> 0 \<Longrightarrow> 256 ^ (length bs - 1) \<le> be_val bs"
proof (cases bs)
  case (Cons b cs)
  moreover assume "hd bs \<noteq> 0"
  ultimately have "1 * 256 ^ length cs \<le> unat b * 256 ^ length cs"
    by (intro mult_le_mono1) (simp add: Suc_le_eq unat_gt_0)
  then have "256 ^ length cs \<le> be_val (b # cs)"
    unfolding be_val_simps by linarith
  with Cons show ?thesis by simp
qed simp

lemma skip_zeros_le: "exi_basetypes_skip_zeros bs \<le> length bs"
  by (induction bs) auto

lemma skip_zeros_drop:
  "drop (exi_basetypes_skip_zeros bs) bs = dropWhile (\<lambda>b. b = 0) bs"
  by (induction bs) auto

lemma skip_zeros_length:
  "length bs - exi_basetypes_skip_zeros bs = length (dropWhile (\<lambda>b. b = 0) bs)"
  by (metis length_drop skip_zeros_drop)

lemma be_val_dropWhile: "be_val (dropWhile (\<lambda>b. b = 0) bs) = be_val bs"
  by (induction bs) auto

lemma minimal_dropWhile: "minimal_bytes (dropWhile (\<lambda>b. b = 0) bs)"
  using hd_dropWhile[of "\<lambda>b. b = 0" bs] by (auto simp: minimal_bytes_def)

text \<open>At most \<open>k\<close> significant bytes, exactly when the value is below \<open>256 ^ k\<close>.\<close>

lemma significant_bytes_le:
  "length (dropWhile (\<lambda>b. b = 0) bs) \<le> k \<longleftrightarrow> be_val bs < 256 ^ k"
proof -
  let ?d = "dropWhile (\<lambda>b. b = 0) bs"
  have m: "minimal_bytes ?d" by (rule minimal_dropWhile)
  show ?thesis
  proof
    assume "length ?d \<le> k"
    then have "(256 :: nat) ^ length ?d \<le> 256 ^ k"
      by (simp add: power_increasing)
    with be_val_less[of ?d] be_val_dropWhile[of bs] show "be_val bs < 256 ^ k" by linarith
  next
    assume less: "be_val bs < 256 ^ k"
    show "length ?d \<le> k"
    proof (rule ccontr)
      assume "\<not> length ?d \<le> k"
      then have "k \<le> length ?d - 1" "?d \<noteq> []"
        by (linarith, metis le0 list.size(3))
      then have "256 ^ (length ?d - 1) \<le> be_val ?d" "(256 :: nat) ^ k \<le> 256 ^ (length ?d - 1)"
        using be_val_ge[of ?d] m by (auto simp: minimal_bytes_def intro: power_increasing)
      with less be_val_dropWhile[of bs] show False by linarith
    qed
  qed
qed

lemma minimal_bytes_unique:
  assumes "minimal_bytes as" "minimal_bytes bs" "be_val as = be_val bs"
  shows "as = bs"
proof -
  have id: "dropWhile (\<lambda>b. b = 0) cs = cs" if "minimal_bytes cs" for cs
    using that by (cases cs) (auto simp: minimal_bytes_def)
  have len: "length as \<le> k \<longleftrightarrow> length bs \<le> k" for k
    using significant_bytes_le[of as k] significant_bytes_le[of bs k] assms(3)
    by (simp add: id[OF assms(1)] id[OF assms(2)])
  then have "length as = length bs" by (metis le_antisym le_refl)
  then show ?thesis using assms(3)
  proof (induction as bs rule: rev_induct2)
    case (4 a as b bs)
    then have "256 * be_val as + unat a = 256 * be_val bs + unat b" by simp
    moreover from this have "be_val as = be_val bs"
      using byte_less[of a] byte_less[of b] by linarith
    ultimately show ?case using 4 by (auto intro: word_unat_eq_iff[THEN iffD2])
  qed auto
qed

section \<open>Magnitudes are the value of their bytes\<close>

lemma count_bytes_add: "exi_basetypes_count_bytes c m = c + exi_basetypes_count_bytes 0 m"
proof (induction "unat m" arbitrary: c m rule: less_induct)
  case less
  show ?case
  proof (cases "m = 0")
    case False
    then have IH: "exi_basetypes_count_bytes c (drop_bit 8 m) =
        c + exi_basetypes_count_bytes 0 (drop_bit 8 m)" for c
      by (intro less.hyps unat_drop_bit_less) auto
    show ?thesis
      by (subst (1 2) exi_basetypes_count_bytes.simps) (use False IH[of "c + 1"] IH[of 1] in simp)
  qed (simp add: exi_basetypes_count_bytes.simps)
qed

lemma count_bytes_le: "exi_basetypes_count_bytes 0 m \<le> k \<longleftrightarrow> unat m < 256 ^ k"
proof (induction k arbitrary: m)
  case 0
  show ?case
    by (subst exi_basetypes_count_bytes.simps, subst count_bytes_add) (auto simp: unat_eq_zero)
next
  case (Suc k)
  show ?case
  proof (cases "m = 0")
    case False
    have "unat m < 256 ^ Suc k \<longleftrightarrow> unat (drop_bit 8 m) < 256 ^ k"
      by (subst unat_drop_bit_div) (simp add: less_mult_imp_div_less div_less_iff_less_mult mult.commute)
    with False Suc.IH show ?thesis
      by (subst exi_basetypes_count_bytes.simps, subst count_bytes_add) simp
  qed (simp add: exi_basetypes_count_bytes.simps)
qed

fun be_bytes :: "nat \<Rightarrow> u64 \<Rightarrow> byte list" where
  "be_bytes 0 m = []"
| "be_bytes (Suc n) m = be_bytes n (drop_bit 8 m) @ [ucast m]"

lemma length_be_bytes [simp]: "length (be_bytes n m) = n"
  by (induction n arbitrary: m) auto

lemma fill_bytes_eq:
  "n \<le> length os \<Longrightarrow> exi_basetypes_fill_bytes n m os = be_bytes n m @ drop n os"
proof (induction n arbitrary: m os)
  case (Suc n)
  then have "exi_basetypes_fill_bytes (Suc n) m os = be_bytes n (drop_bit 8 m) @ drop n (os[n := ucast m])"
    by simp
  also have "drop n (os[n := ucast m]) = ucast m # drop (Suc n) os"
    using Suc.prems by (simp add: drop_update_swap Cons_nth_drop_Suc[symmetric])
  finally show ?case by simp
qed simp

lemma be_val_be_bytes: "be_val (be_bytes n m) = unat m mod 256 ^ n"
proof (induction n arbitrary: m)
  case (Suc n)
  have "be_val (be_bytes (Suc n) m) = 256 * (unat m div 256 mod 256 ^ n) + unat m mod 256"
    by (simp add: Suc.IH) (simp add: unat_drop_bit_div unat_ucast_mod)
  then show ?case
    by (simp add: mod_mult2_eq)
qed simp

lemma minimal_bytes_iff: "minimal_bytes bs \<longleftrightarrow> bs = [] \<or> 256 ^ (length bs - 1) \<le> be_val bs"
proof (cases bs)
  case (Cons b cs)
  have "b = 0 \<Longrightarrow> be_val bs < 256 ^ length cs"
    using be_val_less[of cs] Cons by simp
  with Cons be_val_ge[of bs] show ?thesis
    by (auto simp: minimal_bytes_def simp del: be_val_simps)
qed (simp add: minimal_bytes_def)

lemma write_magnitude_spec:
  assumes "unsigned_wf u"
  obtains u' where "exi_basetypes_write_magnitude m u = (Inr (), u')" "unsigned_wf u'"
    "be_val (unsigned_bytes u') = unat m" "minimal_bytes (unsigned_bytes u')" "octets_count u' \<le> 8"
proof
  let ?n = "exi_basetypes_count_bytes 0 m"
  let ?u = "u\<lparr>octets := exi_basetypes_fill_bytes ?n m (octets u), octets_count := ?n\<rparr>"
  have n8: "?n \<le> 8"
    using unsigned_less[of m, where ?'a = nat] by (simp add: count_bytes_le)
  have len: "length (octets u) = 29" "?n \<le> length (octets u)"
    using assms n8 by (auto simp: unsigned_wf_def EXI_BASETYPES_MAX_OCTETS_SUPPORTED_def)
  show "exi_basetypes_write_magnitude m u = (Inr (), ?u)"
    using len by (simp add: exi_basetypes_write_magnitude_def Let_def)
  show "unsigned_wf ?u"
    using len n8 by (simp add: unsigned_wf_def fill_bytes_eq EXI_BASETYPES_MAX_OCTETS_SUPPORTED_def)
  have bytes: "unsigned_bytes ?u = be_bytes ?n m"
    using len by (simp add: unsigned_bytes_def fill_bytes_eq)
  have less: "unat m < 256 ^ ?n" using count_bytes_le by blast
  then show val: "be_val (unsigned_bytes ?u) = unat m"
    by (simp add: bytes be_val_be_bytes)
  show "minimal_bytes (unsigned_bytes ?u)"
  proof (cases "?n = 0")
    case False
    then have "\<not> unat m < 256 ^ (?n - 1)"
      unfolding count_bytes_le[symmetric] by simp
    then show ?thesis
      using val by (simp add: minimal_bytes_iff bytes)
  qed (simp add: minimal_bytes_def unsigned_bytes_def)
  show "octets_count ?u \<le> 8" using n8 by simp
qed

lemma length_unsigned_bytes: "unsigned_wf u \<Longrightarrow> length (unsigned_bytes u) = octets_count u"
  by (simp add: unsigned_wf_def unsigned_bytes_def)

lemma unat_fold_bytes:
  assumes "unat v * 256 ^ length bs + be_val bs < 2 ^ 64"
  shows "unat (foldl (\<lambda>magnitude b. push_bit 8 magnitude OR ucast (b :: byte)) (v :: u64) bs) =
    unat v * 256 ^ length bs + be_val bs"
  using assms
proof (induction bs arbitrary: v)
  case (Cons b bs)
  have "(unat v * 256 + unat b) * 256 ^ length bs \<le> unat v * 256 ^ length (b # bs) + be_val (b # bs)"
    by (simp add: distrib_right)
  moreover have "unat v * 256 + unat b \<le> (unat v * 256 + unat b) * 256 ^ length bs"
    by simp
  ultimately have "unat v * 256 + unat b < 2 ^ 64"
    using Cons.prems by linarith
  then have "unat v * 2 ^ 8 + unat (ucast b :: u64) < 2 ^ LENGTH(64)"
      "unat (ucast b :: u64) < 2 ^ 8"
    using byte_less[of b] by (simp_all add: unat_ucast_up)
  then have step: "unat (push_bit 8 v OR ucast b) = unat v * 256 + unat b"
    using unat_or_push_bit[of "ucast b :: u64" 8 v] by (simp add: unat_ucast_up)
  show ?case
    using Cons.IH[of "push_bit 8 v OR ucast b"] Cons.prems
    unfolding foldl_Cons step by (simp add: distrib_right)
qed simp

lemma read_magnitude_spec:
  assumes "unsigned_wf u"
  shows "unat (exi_basetypes_read_magnitude u) = min (be_val (unsigned_bytes u)) (2 ^ 64 - 1)"
proof -
  let ?bs = "unsigned_bytes u"
  let ?d = "dropWhile (\<lambda>b. b = 0) ?bs"
  have len: "octets_count u - exi_basetypes_skip_zeros ?bs = length ?d"
    using skip_zeros_length[of ?bs] length_unsigned_bytes[OF assms] by simp
  have iff: "length ?d \<le> 8 \<longleftrightarrow> be_val ?bs < 2 ^ 64"
    using significant_bytes_le[of ?bs 8] by simp
  show ?thesis
  proof (cases "be_val ?bs < 2 ^ 64")
    case True
    with iff len unat_fold_bytes[of 0 ?d] show ?thesis
      by (simp add: exi_basetypes_read_magnitude_def Let_def skip_zeros_drop be_val_dropWhile)
  next
    case False
    with iff len show ?thesis
      by (simp add: exi_basetypes_read_magnitude_def Let_def unsigned_minus_1_eq_mask mask_eq_exp_minus_1)
  qed
qed

lemma convert_64_from_unsigned_spec:
  assumes "unsigned_wf u"
  shows "exi_basetypes_convert_64_from_unsigned u =
    (if be_val (unsigned_bytes u) < 2 ^ 64 then Inr (of_nat (be_val (unsigned_bytes u)))
     else Inl ENCODED_INTEGER_SIZE_LARGER_THAN_DESTINATION)"
proof -
  let ?bs = "unsigned_bytes u"
  have len: "octets_count u - exi_basetypes_skip_zeros ?bs = length (dropWhile (\<lambda>b. b = 0) ?bs)"
    using skip_zeros_length[of ?bs] length_unsigned_bytes[OF assms] by simp
  have "exi_basetypes_read_magnitude u = of_nat (be_val ?bs)" if "be_val ?bs < 2 ^ 64"
  proof -
    have "unat (exi_basetypes_read_magnitude u) = be_val ?bs"
      using read_magnitude_spec[OF assms] that by simp
    then show ?thesis by (metis of_nat_unat ucast_id)
  qed
  with len significant_bytes_le[of ?bs 8] assms show ?thesis
    by (auto simp: exi_basetypes_convert_64_from_unsigned_def Let_def unsigned_wf_def)
qed

text \<open>Number of wire octets of a magnitude: the smallest positive \<open>k\<close> with \<open>m < 128 ^ k\<close>.\<close>

lemma magnitude_octets_loop_add:
  "exi_basetypes_magnitude_octets_loop c m = c + exi_basetypes_magnitude_octets_loop 0 m"
proof (induction "unat m" arbitrary: c m rule: less_induct)
  case less
  show ?case
  proof (cases "drop_bit 7 m = 0")
    case False
    then have "m \<noteq> 0" by auto
    then have IH: "exi_basetypes_magnitude_octets_loop c (drop_bit 7 m) =
        c + exi_basetypes_magnitude_octets_loop 0 (drop_bit 7 m)" for c
      by (intro less.hyps unat_drop_bit_less) auto
    show ?thesis
      by (subst (1 2) exi_basetypes_magnitude_octets_loop.simps)
        (use False IH[of "c + 1"] IH[of 1] in simp)
  qed (simp add: exi_basetypes_magnitude_octets_loop.simps)
qed

lemma magnitude_octets_le:
  "exi_basetypes_magnitude_octets m \<le> Suc k \<longleftrightarrow> unat m < 128 ^ Suc k"
proof -
  have "exi_basetypes_magnitude_octets_loop 0 m \<le> k \<longleftrightarrow> unat m < 128 ^ Suc k"
  proof (induction k arbitrary: m)
    case 0
    have "drop_bit 7 m = 0 \<longleftrightarrow> unat m < 128"
      using unat_drop_bit_div[of 7 m] unsigned_eq_0_iff[of "drop_bit 7 m", where ?'a = nat]
      by (simp add: div_eq_0_iff)
    then show ?case
      by (subst exi_basetypes_magnitude_octets_loop.simps, subst magnitude_octets_loop_add) simp
  next
    case (Suc k)
    have eq: "unat m < 128 ^ Suc (Suc k) \<longleftrightarrow> unat (drop_bit 7 m) < 128 ^ Suc k"
      by (subst unat_drop_bit_div) (simp add: div_less_iff_less_mult mult.commute)
    show ?case
    proof (cases "drop_bit 7 m = 0")
      case True
      with eq show ?thesis
        by (subst exi_basetypes_magnitude_octets_loop.simps) simp
    next
      case False
      with eq Suc.IH[of "drop_bit 7 m"] show ?thesis
        by (subst exi_basetypes_magnitude_octets_loop.simps, subst magnitude_octets_loop_add) simp
    qed
  qed
  then show ?thesis
    by (simp add: exi_basetypes_magnitude_octets_def magnitude_octets_loop_add[of "Suc 0"])
qed

section \<open>Round trips of the conversions\<close>

definition signed_wf :: "exi_signed_t \<Rightarrow> bool" where
  "signed_wf s \<longleftrightarrow> unsigned_wf (sdata s)"

lemma minus_suc_not: "- (v + 1) = NOT (v :: 'a::len word)"
  by (simp add: not_eq_complement)

lemma sint_not: "sint (NOT v) = - sint v - 1"
proof -
  have "sint (NOT v) = NOT (sint v)"
    by (rule bit_eqI) (auto simp: bit_sint_iff bit_simps not_le dest: bit_imp_le_length)
  then show ?thesis by (simp add: not_int_def)
qed

lemma signed_magnitude_val:
  fixes v :: "'a::len word"
  assumes "LENGTH('a) \<le> 64"
  shows "uint (exi_basetypes_signed_magnitude v) = (if sint v < 0 then - sint v - 1 else sint v)"
proof -
  have nonneg: "uint (scast w :: u64) = sint w" if "0 \<le> sint w" for w :: "'a word"
  proof -
    have "sint w < 2 ^ (LENGTH('a) - 1)" by (rule sint_lt)
    also have "(2 :: int) ^ (LENGTH('a) - 1) \<le> 2 ^ 64"
      using assms by (intro power_increasing) auto
    finally show ?thesis
      using that unfolding scast_eq uint_word_of_int_eq by (intro take_bit_int_eq_self) auto
  qed
  show ?thesis
    using nonneg[of "NOT v"] nonneg[of v]
    unfolding exi_basetypes_signed_magnitude_def minus_suc_not sint_not by auto
qed

lemma read_magnitude_eqI:
  "unsigned_wf u \<Longrightarrow> be_val (unsigned_bytes u) = unat m \<Longrightarrow> exi_basetypes_read_magnitude u = m"
  using read_magnitude_spec[of u] unsigned_less[of m, where ?'a = nat]
  by (intro word_unat_eq_iff[THEN iffD2]) simp

lemma write_signed_spec:
  assumes "signed_wf s"
  obtains s' where "exi_basetypes_write_signed v s = (Inr (), s')" "signed_wf s'"
    "is_negative s' = (sint v < 0)" "minimal_bytes (unsigned_bytes (sdata s'))"
    "exi_basetypes_read_magnitude (sdata s') = exi_basetypes_signed_magnitude v"
proof -
  obtain u where u: "exi_basetypes_write_magnitude (exi_basetypes_signed_magnitude v) (sdata s) = (Inr (), u)"
      "unsigned_wf u" "be_val (unsigned_bytes u) = unat (exi_basetypes_signed_magnitude v)"
      "minimal_bytes (unsigned_bytes u)"
    using write_magnitude_spec[of "sdata s"] assms by (metis signed_wf_def)
  with that[of "\<lparr>sdata = u, is_negative = (sint v < 0)\<rparr>"] show thesis
    by (simp add: exi_basetypes_write_signed_def signed_wf_def read_magnitude_eqI)
qed

section \<open>The wire form\<close>

text \<open>
  The EXI representation of an unsigned integer: groups of seven bits, least significant
  first, with the top bit set on every octet but the last.
\<close>

fun wire_code :: "nat \<Rightarrow> byte list" where
  "wire_code v = (if v < 128 then [of_nat v] else of_nat (v mod 128 + 128) # wire_code (v div 128))"

declare wire_code.simps [simp del]

lemma wire_code_nonempty [simp]: "wire_code v \<noteq> []"
  by (subst wire_code.simps) simp

lemma unat_of_nat_byte: "n < 256 \<Longrightarrow> unat (of_nat n :: byte) = n"
  by (simp add: unat_of_nat)

lemma wire_val_wire_code [simp]: "wire_val (wire_code v) = v"
proof (induction v rule: wire_code.induct)
  case (1 v)
  show ?case
  proof (cases "v < 128")
    case True
    then show ?thesis by (subst wire_code.simps) (simp add: unat_of_nat)
  next
    case False
    have "unat (of_nat (v mod 128 + 128) :: byte) mod 128 = v mod 128"
      by (subst unat_of_nat_byte) (auto simp: mod_add_self2)
    with False 1 show ?thesis
      by (subst wire_code.simps) (simp only: if_False wire_val.simps, simp)
  qed
qed

lemma wire_code_length_le: "length (wire_code v) \<le> Suc k \<longleftrightarrow> v < 128 ^ Suc k"
proof (induction k arbitrary: v)
  case 0
  show ?case by (subst wire_code.simps) auto
next
  case (Suc k)
  show ?case
  proof (cases "v < 128")
    case True
    moreover have "(128 :: nat) \<le> 128 ^ Suc (Suc k)" by simp
    ultimately have "v < 128 ^ Suc (Suc k)" by linarith
    with True show ?thesis by (subst wire_code.simps) simp
  next
    case False
    have "v < 128 ^ Suc (Suc k) \<longleftrightarrow> v div 128 < 128 ^ Suc k"
      by (simp add: div_less_iff_less_mult mult.commute)
    with False Suc.IH[of "v div 128"] show ?thesis by (subst wire_code.simps) simp
  qed
qed

text \<open>The continuation flag: every octet but the last has it.\<close>

lemma wire_code_flags:
  "\<forall>b \<in> set (butlast (wire_code v)). b AND 0x80 \<noteq> 0" "last (wire_code v) AND 0x80 = 0"
proof -
  have flag: "b AND 0x80 \<noteq> 0 \<longleftrightarrow> 128 \<le> unat b" for b :: byte
  proof -
    have "b AND 0x80 \<noteq> 0 \<longleftrightarrow> bit b 7"
      using and_exp_gt_zero[of 7 b] by (simp add: word_gt_0)
    also have "\<dots> \<longleftrightarrow> odd (unat b div 128)"
      using bit_unsigned_iff[of b 7, where ?'a = nat] by (simp add: bit_iff_odd)
    also have "\<dots> \<longleftrightarrow> 128 \<le> unat b"
    proof -
      have "unat b div 128 = (if 128 \<le> unat b then 1 else 0)"
        using byte_less[of b] by (auto intro: div_nat_eqI)
      then show ?thesis by simp
    qed
    finally show ?thesis .
  qed
  have "(\<forall>b \<in> set (butlast (wire_code v)). b AND 0x80 \<noteq> 0) \<and> last (wire_code v) AND 0x80 = 0"
  proof (induction v rule: wire_code.induct)
    case (1 v)
    show ?case
    proof (cases "v < 128")
      case True
      with flag[of "of_nat v"] show ?thesis
        by (subst (1 2) wire_code.simps) (simp add: unat_of_nat)
    next
      case False
      have "(of_nat (v mod 128 + 128) :: byte) AND 0x80 \<noteq> 0"
        unfolding flag by (subst unat_of_nat_byte) auto
      with False 1 show ?thesis
        by (subst (1 2) wire_code.simps) simp
    qed
  qed
  then show "\<forall>b \<in> set (butlast (wire_code v)). b AND 0x80 \<noteq> 0" "last (wire_code v) AND 0x80 = 0"
    by blast+
qed

section \<open>From the wire to bytes\<close>

lemma reverse_array_loop_nth:
  assumes "j < length xs" "k < length xs"
  shows "reverse_array_loop i j xs ! k = (if i \<le> k \<and> k \<le> j then xs ! (i + j - k) else xs ! k)"
  using assms
proof (induction i j xs rule: reverse_array_loop.induct)
  case (1 i j xs)
  show ?case
  proof (cases "i < j")
    case True
    let ?ys = "xs[i := xs ! j, j := xs ! i]"
    have "reverse_array_loop i j xs ! k = reverse_array_loop (i + 1) (j - 1) ?ys ! k"
      using True by (subst reverse_array_loop.simps) simp
    also have "\<dots> = (if i + 1 \<le> k \<and> k \<le> j - 1 then ?ys ! (i + j - k) else ?ys ! k)"
      using 1 True by simp
    finally show ?thesis
      using True "1.prems" by (auto simp: nth_list_update)
  next
    case False
    then have "i \<le> k \<and> k \<le> j \<Longrightarrow> i + j - k = k" by linarith
    with False show ?thesis by (subst reverse_array_loop.simps) simp
  qed
qed

lemma length_reverse_array_loop [simp]: "length (reverse_array_loop i j xs) = length xs"
  by (induction i j xs rule: reverse_array_loop.induct) (subst reverse_array_loop.simps, simp)

lemma reverse_array_eq:
  assumes "n \<le> length xs"
  shows "reverse_array xs n = rev (take n xs) @ drop n xs"
proof (cases n)
  case (Suc m)
  show ?thesis
  proof (rule nth_equalityI)
    fix k assume "k < length (reverse_array xs n)"
    then show "reverse_array xs n ! k = (rev (take n xs) @ drop n xs) ! k"
      using assms Suc
      by (auto simp: reverse_array_def reverse_array_loop_nth nth_append rev_nth split: if_splits)
  qed (use assms Suc in \<open>simp add: reverse_array_def\<close>)
qed (simp add: reverse_array_def)

lemma unat_value_mask: "unat (b AND 0x7F :: byte) = unat b mod 128"
proof -
  have "b AND 0x7F = take_bit 7 b"
    by (simp add: take_bit_eq_mask mask_eq_exp_minus_1)
  then show ?thesis by (simp only: unsigned_take_bit_eq) (simp add: take_bit_eq_mod)
qed

lemma unat_and_ff: "unat (w AND 0xFF :: u16) = unat w mod 256"
proof -
  have "w AND 0xFF = take_bit 8 w"
    by (simp add: take_bit_eq_mask mask_eq_exp_minus_1)
  then show ?thesis by (simp only: unsigned_take_bit_eq) (simp add: take_bit_eq_mod)
qed

lemma unat_accumulate:
  assumes "unat (temp :: u16) < 2 ^ off" "off \<le> 7"
  shows "unat (temp + push_bit off (ucast (b AND 0x7F :: byte))) = unat temp + 2 ^ off * (unat b mod 128)"
proof -
  have "(2 :: nat) ^ off \<le> 2 ^ 7" using assms(2) by (intro power_increasing) auto
  then have "2 ^ off * (unat b mod 128) \<le> 128 * 127"
    by (intro mult_mono) auto
  moreover have "unat temp < 128" using assms(1) \<open>2 ^ off \<le> 2 ^ 7\<close> by simp
  moreover have "unat (push_bit off (ucast (b AND 0x7F :: byte) :: u16)) = 2 ^ off * (unat b mod 128)"
  proof -
    have "unat (push_bit off (ucast (b AND 0x7F :: byte) :: u16)) =
        (2 ^ off * (unat b mod 128)) mod 2 ^ 16"
      by (subst unsigned_push_bit_eq)
        (simp add: push_bit_eq_mult take_bit_eq_mod unat_ucast_up unat_value_mask mult.commute)
    with calculation(1) show ?thesis by simp
  qed
  ultimately show ?thesis by (simp add: unat_word_ariths)
qed

text \<open>
  Loop invariant: the bytes already written (in reverse order) and the pending bits together
  are the value of the octets consumed so far.
\<close>

definition from_wire_post ::
    "nat \<Rightarrow> nat \<Rightarrow> nat \<Rightarrow> nat \<Rightarrow> exi_error + u16 \<times> nat \<times> byte list \<times> nat \<Rightarrow> bool" where
  "from_wire_post n nbits buf_length v res \<longleftrightarrow> (case res of
      Inl e \<Rightarrow> e = ENCODED_INTEGER_SIZE_LARGER_THAN_DESTINATION \<and> 8 * n < nbits
    | Inr (temp, off, buf, len) \<Rightarrow>
        off \<le> 7 \<and> unat temp < 2 ^ off \<and> length buf = buf_length \<and> len \<le> n \<and>
        8 * len + off = nbits \<and> be_val (rev (take len buf)) + 256 ^ len * unat temp = v)"

lemma flush_byte:
  assumes "len < length buf"
  shows "be_val (rev (take (len + 1) (buf[len := ucast (t AND 0xFF :: u16)]))) + 256 ^ (len + 1) * unat (drop_bit 8 t) =
    be_val (rev (take len buf)) + 256 ^ len * unat t"
proof -
  have "take (len + 1) (buf[len := ucast (t AND 0xFF)]) = take len buf @ [ucast (t AND 0xFF)]"
    using assms by (simp add: take_Suc_conv_app_nth)
  moreover have "unat (ucast (t AND 0xFF) :: byte) = unat t mod 256"
    by (simp add: unat_ucast_mod unat_and_ff)
  moreover have "unat (drop_bit 8 t) = unat t div 256"
    by (simp only: unat_drop_bit_div) simp
  moreover have "unat t mod 256 * 256 ^ len + 256 ^ (len + 1) * (unat t div 256) = 256 ^ len * unat t"
  proof -
    have "256 ^ len * unat t = 256 ^ len * (unat t mod 256 + 256 * (unat t div 256))"
      by simp
    then show ?thesis
      unfolding distrib_left by (simp add: ac_simps)
  qed
  ultimately show ?thesis
    using assms by simp
qed

lemma bytes_from_unsigned_loop_spec:
  assumes "off \<le> 7" "unat temp < 2 ^ off" "n \<le> length buf" "len \<le> n"
  shows "from_wire_post n (8 * len + off + 7 * length os) (length buf)
    (be_val (rev (take len buf)) + 256 ^ len * (unat temp + 2 ^ off * wire_val os))
    (bytes_from_unsigned_loop os n temp off buf len)"
  using assms
proof (induction os arbitrary: temp off buf len)
  case Nil
  then show ?case by (simp add: from_wire_post_def)
next
  case (Cons b os)
  define t where "t = temp + push_bit off (ucast (b AND 0x7F))"
  have t: "unat t = unat temp + 2 ^ off * (unat b mod 128)"
    unfolding t_def by (rule unat_accumulate) (use Cons.prems in auto)
  have "unat temp + 2 ^ off * (unat b mod 128) < 2 ^ off + 2 ^ off * 127"
    using Cons.prems(2) by (intro add_less_le_mono mult_le_mono2) auto
  then have less: "unat t < 2 ^ (off + 7)"
    by (simp add: t power_add)
  have val: "unat temp + 2 ^ off * wire_val (b # os) = unat t + 2 ^ (off + 7) * wire_val os"
    by (simp add: t power_add distrib_left)
  have unroll: "bytes_from_unsigned_loop (b # os) n temp off buf len =
      (if off + 7 \<ge> 8 then
         (if len \<ge> n then Inl ENCODED_INTEGER_SIZE_LARGER_THAN_DESTINATION
          else if len \<ge> length buf then Inl UNDEFINED_BEHAVIOUR
          else bytes_from_unsigned_loop os n (drop_bit 8 t) (off + 7 - 8)
                 (buf[len := ucast (t AND 0xFF)]) (len + 1))
       else bytes_from_unsigned_loop os n t (off + 7) buf len)"
    by (simp add: t_def Let_def)
  consider "off = 0" | "off \<noteq> 0" "n \<le> len" | "off \<noteq> 0" "len < n" by linarith
  then show ?case
  proof cases
    case 1
    with Cons.IH[of 7 t buf len] Cons.prems less show ?thesis
      unfolding unroll val by (simp add: add.assoc)
  next
    case 2
    with Cons.prems show ?thesis
      unfolding unroll by (simp add: from_wire_post_def)
  next
    case 3
    define k where "k = off - 1"
    have k: "off + 7 = 8 + k" "k \<le> 6"
      using 3 Cons.prems(1) by (simp_all add: k_def)
    have q: "unat (drop_bit 8 t) < 2 ^ k"
      using less unfolding k(1) unat_drop_bit_div
      by (simp add: power_add div_less_iff_less_mult mult.commute)
    have pow: "(2 :: nat) ^ (off + 7) = 256 * 2 ^ k"
      unfolding k(1) by (simp add: power_add)
    have v: "be_val (rev (take len buf)) + 256 ^ len * (unat t + 2 ^ (off + 7) * wire_val os) =
        be_val (rev (take (len + 1) (buf[len := ucast (t AND 0xFF)]))) +
        256 ^ (len + 1) * (unat (drop_bit 8 t) + 2 ^ k * wire_val os)"
      using flush_byte[of len buf t] 3 Cons.prems unfolding pow by (simp add: algebra_simps)
    show ?thesis
      using Cons.IH[of k "drop_bit 8 t" "buf[len := ucast (t AND 0xFF)]" "len + 1"] q k 3 Cons.prems
      unfolding unroll val v by (simp add: add.assoc)
  qed
qed

text \<open>A wire form with no superfluous groups yields bytes with no leading zeros.\<close>

definition wire_minimal :: "byte list \<Rightarrow> bool" where
  "wire_minimal os \<longleftrightarrow> length os \<le> 1 \<or> 128 ^ (length os - 1) \<le> wire_val os"

lemma wire_minimal_bytes:
  assumes "wire_minimal os" "8 * len + off = 7 * length os" "off \<le> 7"
  shows "len = 0 \<or> 256 ^ (len - 1) \<le> wire_val os"
proof (cases "length os \<le> 1 \<or> len = 0")
  case True
  then show ?thesis using assms(2) by auto
next
  case False
  then have "8 * (len - 1) \<le> 7 * (length os - 1)" using assms(2,3) by linarith
  then have "(2 :: nat) ^ (8 * (len - 1)) \<le> 2 ^ (7 * (length os - 1))"
    by (intro power_increasing) auto
  with False assms(1) show ?thesis
    by (simp add: power_mult wire_minimal_def)
qed

lemma convert_bytes_from_unsigned_spec:
  assumes "unsigned_wf u" "length buf = EXI_BASETYPES_MAX_OCTETS_SUPPORTED"
  shows "\<exists>buf' len. exi_basetypes_convert_bytes_from_unsigned u buf (length buf) = Inr (buf', len) \<and>
    length buf' = length buf \<and> len \<le> 26 \<and> be_val (take len buf') = wire_val (unsigned_bytes u) \<and>
    (wire_minimal (unsigned_bytes u) \<longrightarrow> minimal_bytes (take len buf'))"
proof -
  let ?os = "unsigned_bytes u"
  have os: "length ?os \<le> 29" "\<not> octets_count u > length (octets u)"
    using assms(1) by (auto simp: unsigned_wf_def unsigned_bytes_def EXI_BASETYPES_MAX_OCTETS_SUPPORTED_def)
  have buf: "length buf = 29" using assms(2) by (simp add: EXI_BASETYPES_MAX_OCTETS_SUPPORTED_def)
  have post: "from_wire_post (length buf) (7 * length ?os) (length buf) (wire_val ?os)
      (bytes_from_unsigned_loop ?os (length buf) 0 0 buf 0)"
    using bytes_from_unsigned_loop_spec[of 0 0 "length buf" buf 0 ?os] by simp
  then obtain temp off b len where r: "bytes_from_unsigned_loop ?os (length buf) 0 0 buf 0 =
        Inr (temp, off, b, len)" "off \<le> 7" "unat temp < 2 ^ off" "length b = length buf"
      "8 * len + off = 7 * length ?os" "be_val (rev (take len b)) + 256 ^ len * unat temp = wire_val ?os"
    using os buf by (auto simp: from_wire_post_def split: sum.splits)
  have len: "len \<le> 25" using r(2,5) os(1) by linarith
  have "(2 :: nat) ^ off \<le> 2 ^ 7" using r(2) by (intro power_increasing) auto
  then have small: "unat temp < 128" using r(3) by simp
  then have ff: "temp AND 0xFF = temp"
    by (intro word_unat_eq_iff[THEN iffD2]) (simp add: unat_and_ff)
  show ?thesis
  proof (cases "off \<noteq> 0 \<and> temp \<noteq> 0")
    case True
    have "take (len + 1) (b[len := ucast temp]) = take len b @ [ucast temp]"
      using len r(4) buf by (simp add: take_Suc_conv_app_nth)
    moreover have "unat (ucast temp :: byte) = unat temp"
      using small by (simp add: unat_ucast_mod)
    moreover have "(ucast temp :: byte) \<noteq> 0"
      using True calculation(2) by (metis unat_eq_zero)
    ultimately show ?thesis
      using True r len buf os(2) ff
      by (auto simp: exi_basetypes_convert_bytes_from_unsigned_def reverse_array_eq mult.commute
          minimal_bytes_def simp del: take_update_swap)
  next
    case False
    with r(3) have z: "temp = 0" by (auto simp: unat_eq_zero)
    have "minimal_bytes (rev (take len b))" if "wire_minimal ?os"
      using wire_minimal_bytes[OF that r(5,2)] r(6) z len r(4) buf
      by (auto simp: minimal_bytes_iff min_def)
    with z False r len buf os(2) ff show ?thesis
      by (auto simp: exi_basetypes_convert_bytes_from_unsigned_def reverse_array_eq)
  qed
qed

lemma wire_minimal_wire_code [simp]: "wire_minimal (wire_code v)"
proof (cases "length (wire_code v) \<le> 1")
  case False
  then obtain k where "length (wire_code v) = Suc (Suc k)"
    by (cases "length (wire_code v)"; cases "length (wire_code v) - 1") auto
  with wire_code_length_le[of v k] show ?thesis
    by (simp add: wire_minimal_def)
qed (simp add: wire_minimal_def)

section \<open>From bytes to the wire\<close>

lemma bits_in_byte_le: "bits_in_byte b \<le> k \<longleftrightarrow> unat b < 2 ^ k"
proof (induction k arbitrary: b)
  case 0
  show ?case by (subst bits_in_byte.simps) (auto simp: unat_eq_zero)
next
  case (Suc k)
  have "unat b < 2 ^ Suc k \<longleftrightarrow> unat (drop_bit 1 b) < 2 ^ k"
    by (subst unat_drop_bit_div) (auto simp: div_less_iff_less_mult mult.commute)
  with Suc.IH[of "drop_bit 1 b"] show ?case
    by (subst bits_in_byte.simps) auto
qed

lemma be_val_Cons_less_iff:
  "be_val (b # bs) < 256 ^ length bs * m \<longleftrightarrow> unat b < m"
proof
  assume "be_val (b # bs) < 256 ^ length bs * m"
  moreover have "256 ^ length bs * unat b \<le> be_val (b # bs)"
    by (simp add: mult.commute)
  ultimately have "256 ^ length bs * unat b < 256 ^ length bs * m"
    by linarith
  then show "unat b < m" by simp
next
  assume "unat b < m"
  then have "unat b + 1 \<le> m" by simp
  then have "256 ^ length bs * (unat b + 1) \<le> 256 ^ length bs * m"
    by (rule mult_le_mono2)
  moreover have "be_val (b # bs) < 256 ^ length bs * (unat b + 1)"
    using be_val_less[of bs] by (simp add: mult.commute)
  ultimately show "be_val (b # bs) < 256 ^ length bs * m" by linarith
qed

lemma relevant_input_bits_le:
  assumes "be_val bytes \<noteq> 0"
  shows "relevant_input_bits bytes \<le> k \<longleftrightarrow> be_val bytes < 2 ^ k"
proof -
  let ?z = "exi_basetypes_skip_zeros bytes"
  have "minimal_bytes (drop ?z bytes)" and v: "be_val (drop ?z bytes) = be_val bytes"
    unfolding skip_zeros_drop by (rule minimal_dropWhile be_val_dropWhile)+
  with assms obtain b bs where d: "drop ?z bytes = b # bs" and b: "b \<noteq> 0"
    by (cases "drop ?z bytes") (auto simp: minimal_bytes_def)
  have nth: "bytes ! ?z = b"
    using d by (metis hd_drop_conv_nth list.sel(1) drop_all linorder_not_less list.distinct(1))
  have len: "length bytes - ?z - 1 = length bs"
    using arg_cong[OF d, of length] by simp
  have rel: "relevant_input_bits bytes = 8 * length bs + bits_in_byte b"
    using nth len by (simp add: relevant_input_bits_def Let_def)
  have val: "be_val bytes = be_val (b # bs)"
    using v d by simp
  show ?thesis
  proof (cases "8 * length bs \<le> k")
    case True
    then obtain j where j: "k = 8 * length bs + j" using le_Suc_ex by blast
    have "(2 :: nat) ^ k = 256 ^ length bs * 2 ^ j"
      by (simp add: j power_add power_mult)
    then show ?thesis
      using be_val_Cons_less_iff[of b bs "2 ^ j"] by (simp only: rel val j add_le_cancel_left bits_in_byte_le)
  next
    case False
    then have "(2 :: nat) ^ k < 2 ^ (8 * length bs)" by simp
    moreover have "(2 :: nat) ^ (8 * length bs) \<le> be_val (b # bs)"
      using be_val_ge[of "b # bs"] b by (simp add: power_mult)
    ultimately have "\<not> be_val (b # bs) < 2 ^ k" by linarith
    with False show ?thesis
      by (simp add: rel val del: be_val_simps)
  qed
qed

lemma expected_octets_count:
  assumes "be_val bytes \<noteq> 0"
  shows "(relevant_input_bits bytes + 6) div 7 = length (wire_code (be_val bytes))"
proof -
  have "(relevant_input_bits bytes + 6) div 7 \<le> Suc k \<longleftrightarrow> length (wire_code (be_val bytes)) \<le> Suc k" for k
  proof -
    have "(relevant_input_bits bytes + 6) div 7 \<le> Suc k \<longleftrightarrow> relevant_input_bits bytes \<le> 7 * Suc k"
      by (rule ceil_div_7_le)
    also have "\<dots> \<longleftrightarrow> be_val bytes < 2 ^ (7 * Suc k)"
      by (rule relevant_input_bits_le[OF assms])
    also have "(2 :: nat) ^ (7 * Suc k) = 128 ^ Suc k"
      by (subst power_mult) simp
    finally show ?thesis by (simp only: wire_code_length_le)
  qed
  moreover have "0 < (relevant_input_bits bytes + 6) div 7"
    using relevant_input_bits_le[OF assms, of 0] assms by (simp add: div_greater_zero_iff)
  moreover have "0 < length (wire_code (be_val bytes))" by simp
  ultimately show ?thesis
    by (metis Suc_pred' antisym order_refl)
qed

text \<open>
  The pending bits, followed by the bytes that have not been fetched, are the value that is
  still to be written.
\<close>

definition pending :: "byte list \<Rightarrow> u16 \<Rightarrow> nat \<Rightarrow> nat \<Rightarrow> nat" where
  "pending bytes dummy dummy_count incount =
     unat dummy + 2 ^ dummy_count * be_val (take (length bytes - incount) bytes)"

lemma pending_fetch:
  assumes "dc < 7" "unat dummy < 2 ^ dc" "ic < length bytes"
  defines "dummy' \<equiv> dummy OR push_bit dc (ucast (bytes ! (length bytes - ic - 1)))"
  shows "unat dummy' < 2 ^ (dc + 8)"
    "pending bytes dummy' (dc + 8) (ic + 1) = pending bytes dummy dc ic"
proof -
  let ?b = "bytes ! (length bytes - ic - 1)"
  have pow: "(2 :: nat) ^ dc \<le> 64"
    using power_increasing[of dc 6 "2 :: nat"] assms(1) by simp
  have "unat ?b * 2 ^ dc \<le> 255 * 2 ^ dc"
    by (rule mult_le_mono1[OF byte_le])
  with pow assms(2) have "unat ?b * 2 ^ dc + unat dummy < 65536" by linarith
  then have "unat (ucast ?b :: u16) * 2 ^ dc + unat dummy < 2 ^ LENGTH(16)"
    by (simp add: unat_ucast_up)
  then have d: "unat dummy' = unat dummy + unat ?b * 2 ^ dc"
    unfolding dummy'_def using unat_or_push_bit'[OF assms(2)] by (simp add: unat_ucast_up)
  with \<open>unat ?b * 2 ^ dc \<le> 255 * 2 ^ dc\<close> assms(2) have "unat dummy' < 256 * 2 ^ dc" by linarith
  then show "unat dummy' < 2 ^ (dc + 8)" by (simp add: power_add)
  have "take (length bytes - ic) bytes = take (length bytes - (ic + 1)) bytes @ [?b]"
    using assms(3) take_Suc_conv_app_nth[of "length bytes - ic - 1" bytes]
    by (simp add: Suc_diff_Suc)
  then show "pending bytes dummy' (dc + 8) (ic + 1) = pending bytes dummy dc ic"
    by (simp add: pending_def d power_add distrib_left)
qed

lemma pending_emit:
  assumes "7 \<le> dc" "unat dummy < 2 ^ dc"
  shows "unat (drop_bit 7 dummy) < 2 ^ (dc - 7)"
    "pending bytes (drop_bit 7 dummy) (dc - 7) ic = pending bytes dummy dc ic div 128"
    "unat (ucast dummy AND 0x7F :: byte) = pending bytes dummy dc ic mod 128"
proof -
  obtain k where k: "dc = 7 + k" using assms(1) le_Suc_ex by blast
  have u: "unat (drop_bit 7 dummy) = unat dummy div 128" by (simp only: unat_drop_bit_div) simp
  show "unat (drop_bit 7 dummy) < 2 ^ (dc - 7)"
    using assms(2) by (simp only: u) (simp add: k power_add div_less_iff_less_mult mult.commute)
  have "pending bytes dummy dc ic = unat dummy + 128 * (2 ^ k * be_val (take (length bytes - ic) bytes))"
    by (simp add: pending_def k power_add)
  then show "pending bytes (drop_bit 7 dummy) (dc - 7) ic = pending bytes dummy dc ic div 128"
      "unat (ucast dummy AND 0x7F :: byte) = pending bytes dummy dc ic mod 128"
    by (simp_all only: unat_value_mask unat_ucast_mod)
      (simp_all add: pending_def u k mod_mod_cancel)
qed

lemma wire_code_one: "length (wire_code v) = 1 \<Longrightarrow> v < 128 \<and> wire_code v = [of_nat v]"
  by (cases "v < 128") (simp_all add: wire_code.simps[of v])

lemma wire_code_many:
  assumes "length (wire_code v) = Suc (Suc n)"
  shows "wire_code v = of_nat (v mod 128 + 128) # wire_code (v div 128)" "length (wire_code (v div 128)) = Suc n"
  using assms wire_code.simps[of v] by (cases "v < 128"; simp)+

lemma flag_octet:
  "unat (b :: byte) = v mod 128 \<Longrightarrow> b OR 0x80 = of_nat (v mod 128 + 128)"
proof (rule word_unat_eq_iff[THEN iffD2])
  assume b: "unat b = v mod 128"
  then have "unat (b OR push_bit 7 1) = unat b + unat (1 :: byte) * 2 ^ 7"
    by (intro unat_or_push_bit') simp_all
  with b show "unat (b OR 0x80) = unat (of_nat (v mod 128 + 128) :: byte)"
    by (subst unat_of_nat_byte) simp_all
qed

lemma bytes_to_unsigned_loop_spec:
  assumes "dc \<le> 7" "unat dummy < 2 ^ dc" "ic \<le> length bytes"
    and "length (wire_code (pending bytes dummy dc ic)) = left"
  shows "if 7 * left \<le> dc + 8 * (length bytes - ic) \<and> octets_count u + left \<le> length (octets u)
    then bytes_to_unsigned_loop left bytes dummy dc ic u = (Inr (), u\<lparr>octets :=
        take (octets_count u) (octets u) @ wire_code (pending bytes dummy dc ic) @
        drop (octets_count u + left) (octets u), octets_count := octets_count u + left\<rparr>)
    else fst (bytes_to_unsigned_loop left bytes dummy dc ic u) = Inl UNDEFINED_BEHAVIOUR"
  using assms
proof (induction left arbitrary: dummy dc ic u)
  case 0
  then show ?case by simp
next
  case (Suc left)
  let ?v = "pending bytes dummy dc ic"
  let ?n = "octets_count u"
  consider "dc < 7" "ic = length bytes" | "?n \<ge> length (octets u)"
    | "dc = 7 \<or> ic < length bytes" "?n < length (octets u)"
    using Suc.prems by linarith
  then show ?case
  proof cases
    case 1
    then show ?thesis by simp
  next
    case 2
    then show ?thesis by simp
  next
    case 3
    define fetch where "fetch \<longleftrightarrow> dc < 7"
    define d where "d = (if fetch then dummy OR push_bit dc (ucast (bytes ! (length bytes - ic - 1))) else dummy)"
    define c where "c = (if fetch then dc + 8 else dc)"
    define i where "i = (if fetch then ic + 1 else ic)"
    have d: "unat d < 2 ^ c" "pending bytes d c i = ?v" "7 \<le> c" "i \<le> length bytes"
        "c + 8 * (length bytes - i) = dc + 8 * (length bytes - ic)" "c - 7 \<le> 7"
      using 3 Suc.prems pending_fetch[of dc dummy ic bytes]
      by (auto simp: fetch_def d_def c_def i_def)
    have emit: "unat (drop_bit 7 d) < 2 ^ (c - 7)"
        "pending bytes (drop_bit 7 d) (c - 7) i = ?v div 128"
        "unat (ucast d AND 0x7F :: byte) = ?v mod 128"
      using pending_emit[OF d(3,1)] d(2) by metis+
    define o' where "o' = (ucast d AND 0x7F :: byte)"
    have unroll: "bytes_to_unsigned_loop (Suc left) bytes dummy dc ic u =
        (if left > 0 then bytes_to_unsigned_loop left bytes (drop_bit 7 d) (c - 7) i
             (u\<lparr>octets := (octets u)[?n := o' OR 0x80], octets_count := ?n + 1\<rparr>)
         else (Inr (), u\<lparr>octets := (octets u)[?n := o'], octets_count := ?n + 1\<rparr>))"
      using 3 Suc.prems(1) by (auto simp: Let_def d_def c_def i_def o'_def fetch_def)
    have upd: "(octets u)[?n := x] = take ?n (octets u) @ x # drop (?n + 1) (octets u)" for x
      using 3 by (simp add: upd_conv_take_nth_drop)
    show ?thesis
    proof (cases "left = 0")
      case True
      with wire_code_one[of ?v] Suc.prems(4) have w: "?v < 128" "wire_code ?v = [of_nat ?v]" by auto
      have "o' = of_nat ?v"
        using emit(3) w(1) by (intro word_unat_eq_iff[THEN iffD2]) (simp add: o'_def unat_of_nat)
      moreover have "7 \<le> dc + 8 * (length bytes - ic)" using d(3,5) by linarith
      ultimately show ?thesis
        using True w 3(2) unfolding unroll by (simp add: upd)
    next
      case False
      then obtain m where m: "left = Suc m" by (cases left) auto
      note w = wire_code_many[OF Suc.prems(4)[unfolded m]]
      let ?u = "u\<lparr>octets := (octets u)[?n := o' OR 0x80], octets_count := ?n + 1\<rparr>"
      have "length (wire_code (pending bytes (drop_bit 7 d) (c - 7) i)) = left"
        using w(2) emit(2) m by simp
      note IH = Suc.IH[OF d(6) emit(1) d(4) this, of ?u]
      have "o' OR 0x80 = of_nat (?v mod 128 + 128)"
        by (rule flag_octet) (use emit(3) in \<open>simp add: o'_def\<close>)
      then have oct: "octets ?u = take ?n (octets u) @ of_nat (?v mod 128 + 128) # drop (?n + 1) (octets u)"
        by (simp add: upd)
      have cond: "7 * left \<le> c - 7 + 8 * (length bytes - i) \<and> octets_count ?u + left \<le> length (octets ?u)
          \<longleftrightarrow> 7 * Suc left \<le> dc + 8 * (length bytes - ic) \<and> ?n + Suc left \<le> length (octets u)"
        using d(3) by (auto simp: d(5)[symmetric])
      have parts: "take (octets_count ?u) (octets ?u) = take ?n (octets u) @ [of_nat (?v mod 128 + 128)]"
          "drop (octets_count ?u + left) (octets ?u) = drop (?n + Suc left) (octets u)"
        unfolding oct using 3(2) by (simp_all add: add.commute)
      have "left > 0" using False by simp
      note step = unroll[unfolded if_P[OF this]]
      have final: "?u\<lparr>octets := (take ?n (octets u) @ [x]) @ ys @ zs, octets_count := octets_count ?u + left\<rparr> =
          u\<lparr>octets := take ?n (octets u) @ (x # ys) @ zs, octets_count := ?n + Suc left\<rparr>" for x ys zs
        by simp
      show ?thesis
        using IH unfolding cond step parts emit(2) w(1) final .
    qed
  qed
qed

text \<open>
  The conversion is right exactly when the wire form fits into the 29 octets of the result
  and its last octet does not need bits beyond the first input byte; otherwise it reads or
  writes outside its arrays.
\<close>

lemma convert_bytes_to_unsigned_spec:
  fixes bytes :: "byte list"
  assumes "unsigned_wf u"
  defines "w \<equiv> wire_code (be_val bytes)"
  shows "if be_val bytes = 0 \<or>
        7 * length w \<le> 8 * length bytes \<and> length w \<le> EXI_BASETYPES_MAX_OCTETS_SUPPORTED
    then \<exists>u'. exi_basetypes_convert_bytes_to_unsigned bytes u = (Inr (), u') \<and> unsigned_wf u' \<and>
           unsigned_bytes u' = w
    else fst (exi_basetypes_convert_bytes_to_unsigned bytes u) = Inl UNDEFINED_BEHAVIOUR"
proof -
  have zero: "exi_basetypes_skip_zeros bytes = length bytes \<longleftrightarrow> be_val bytes = 0"
  proof -
    have "exi_basetypes_skip_zeros bytes = length bytes \<longleftrightarrow>
        length bytes - exi_basetypes_skip_zeros bytes \<le> 0"
      using skip_zeros_le[of bytes] by auto
    also have "\<dots> \<longleftrightarrow> be_val bytes < 256 ^ 0"
      unfolding skip_zeros_length by (rule significant_bytes_le)
    finally show ?thesis by simp
  qed
  have len: "length (octets u) = 29"
    using assms(1) by (simp add: unsigned_wf_def EXI_BASETYPES_MAX_OCTETS_SUPPORTED_def)
  show ?thesis
  proof (cases "be_val bytes = 0")
    case True
    moreover have "wire_code 0 = [0]" by (simp add: wire_code.simps)
    ultimately show ?thesis
      using zero len
      by (cases "octets u") (auto simp: exi_basetypes_convert_bytes_to_unsigned_def unsigned_wf_def
          unsigned_bytes_def w_def EXI_BASETYPES_MAX_OCTETS_SUPPORTED_def)
  next
    case False
    have p: "pending bytes 0 0 0 = be_val bytes" by (simp add: pending_def)
    have e: "exi_basetypes_convert_bytes_to_unsigned bytes u =
        bytes_to_unsigned_loop (length w) bytes 0 0 0 (u\<lparr>octets_count := 0\<rparr>)"
      using False zero by (simp add: exi_basetypes_convert_bytes_to_unsigned_def expected_octets_count w_def)
    show ?thesis
      using False bytes_to_unsigned_loop_spec[of 0 0 0 bytes "length w" "u\<lparr>octets_count := 0\<rparr>"] len
      unfolding e p
      by (auto simp: w_def[symmetric] unsigned_wf_def unsigned_bytes_def
          EXI_BASETYPES_MAX_OCTETS_SUPPORTED_def split: if_splits)
  qed
qed

section \<open>Properties of the conversions\<close>

text \<open>
  an unsigned integer converted into \<^verbatim>\<open>exi_unsigned_t\<close> is stored as minimal big-endian
  bytes and converts back to itself.
\<close>

theorem convert_64_unsigned_roundtrip:
  assumes "unsigned_wf u"
  shows "\<exists>u'. exi_basetypes_convert_64_to_unsigned v u = (Inr (), u') \<and> unsigned_wf u' \<and>
    minimal_bytes (unsigned_bytes u') \<and> exi_basetypes_convert_64_from_unsigned u' = Inr v"
proof -
  obtain u' where u': "exi_basetypes_write_magnitude v u = (Inr (), u')" "unsigned_wf u'"
      "be_val (unsigned_bytes u') = unat v" "minimal_bytes (unsigned_bytes u')"
    using write_magnitude_spec[OF assms] by metis
  moreover have "exi_basetypes_convert_64_from_unsigned u' = Inr v"
    using convert_64_from_unsigned_spec[OF u'(2)] u'(3) unsigned_less[of v, where ?'a = nat]
    by (simp add: of_nat_unat)
  ultimately show ?thesis
    by (simp add: exi_basetypes_convert_64_to_unsigned_def)
qed

theorem convert_64_unsigned_roundtrip_witness:
  "unsigned_wf \<lparr>octets = replicate 29 0xFF, octets_count = 3\<rparr> \<and>
   (\<exists>u'. exi_basetypes_convert_64_to_unsigned 300 \<lparr>octets = replicate 29 0xFF, octets_count = 3\<rparr> = (Inr (), u') \<and>
     unsigned_wf u' \<and> minimal_bytes (unsigned_bytes u') \<and> exi_basetypes_convert_64_from_unsigned u' = Inr 300)"
proof -
  have wf: "unsigned_wf \<lparr>octets = replicate 29 0xFF, octets_count = 3\<rparr>"
    by (simp add: unsigned_wf_def EXI_BASETYPES_MAX_OCTETS_SUPPORTED_def)
  from convert_64_unsigned_roundtrip[OF this, of 300] wf show ?thesis by blast
qed

text \<open>
  a signed integer, the most negative one included, converted into \<^verbatim>\<open>exi_signed_t\<close>
  converts back to itself.
\<close>

theorem convert_64_signed_roundtrip:
  assumes "signed_wf s"
  shows "\<exists>s'. exi_basetypes_convert_64_to_signed v s = (Inr (), s') \<and>
    exi_basetypes_convert_64_from_signed s' = Inr v"
proof -
  obtain s' where s': "exi_basetypes_write_signed v s = (Inr (), s')" "signed_wf s'"
      "is_negative s' = (sint v < 0)"
      "exi_basetypes_read_magnitude (sdata s') = exi_basetypes_signed_magnitude v"
    using write_signed_spec[OF assms] by metis
  have "uint (exi_basetypes_signed_magnitude v) < 2 ^ 63"
    using signed_magnitude_val[of v] sint_ge[of v] sint_lt[of v] by (simp split: if_splits)
  then have le: "\<not> exi_basetypes_signed_magnitude v > 0x7FFFFFFFFFFFFFFF"
    by (simp add: word_less_def)
  have "(if sint v < 0 then - 1 - exi_basetypes_signed_magnitude v
      else exi_basetypes_signed_magnitude v) = v"
    by (simp add: exi_basetypes_signed_magnitude_def)
  with s' le show ?thesis
    by (auto simp: exi_basetypes_convert_64_to_signed_def exi_basetypes_convert_64_from_signed_def
        signed_wf_def unsigned_wf_def)
qed

theorem convert_64_signed_roundtrip_witness:
  "signed_wf \<lparr>sdata = \<lparr>octets = replicate 29 0, octets_count = 0\<rparr>, is_negative = False\<rparr> \<and>
   (\<exists>s'. exi_basetypes_convert_64_to_signed (- 0x8000000000000000)
       \<lparr>sdata = \<lparr>octets = replicate 29 0, octets_count = 0\<rparr>, is_negative = False\<rparr> = (Inr (), s') \<and>
     exi_basetypes_convert_64_from_signed s' = Inr (- 0x8000000000000000))"
proof -
  have wf: "signed_wf \<lparr>sdata = \<lparr>octets = replicate 29 0, octets_count = 0\<rparr>, is_negative = False\<rparr>"
    by (simp add: signed_wf_def unsigned_wf_def EXI_BASETYPES_MAX_OCTETS_SUPPORTED_def)
  from convert_64_signed_roundtrip[OF this, of "- 0x8000000000000000"] wf show ?thesis by blast
qed

text \<open>
  minimal big-endian bytes turned into the wire form and back are the same bytes, whenever
  the wire form has at most 29 octets and needs no bits beyond the first byte.
\<close>

theorem convert_bytes_roundtrip:
  assumes "unsigned_wf u" "length buf = EXI_BASETYPES_MAX_OCTETS_SUPPORTED"
    and "minimal_bytes bytes" "bytes \<noteq> []"
    and "7 * length (wire_code (be_val bytes)) \<le> 8 * length bytes"
    and "length (wire_code (be_val bytes)) \<le> EXI_BASETYPES_MAX_OCTETS_SUPPORTED"
  shows "\<exists>u' buf' len. exi_basetypes_convert_bytes_to_unsigned bytes u = (Inr (), u') \<and>
    exi_basetypes_convert_bytes_from_unsigned u' buf (length buf) = Inr (buf', len) \<and> take len buf' = bytes"
proof -
  obtain u' where u': "exi_basetypes_convert_bytes_to_unsigned bytes u = (Inr (), u')" "unsigned_wf u'"
      "unsigned_bytes u' = wire_code (be_val bytes)"
    using convert_bytes_to_unsigned_spec[OF assms(1), of bytes] assms(5,6) by auto
  obtain buf' len where b: "exi_basetypes_convert_bytes_from_unsigned u' buf (length buf) = Inr (buf', len)"
      "be_val (take len buf') = be_val bytes" "minimal_bytes (take len buf')"
    using convert_bytes_from_unsigned_spec[OF u'(2) assms(2)] u'(3) by auto
  have "take len buf' = bytes" using minimal_bytes_unique b(2,3) assms(3) by metis
  with u'(1) b(1) show ?thesis by blast
qed

theorem convert_bytes_roundtrip_witness:
  "\<exists>u' buf' len. exi_basetypes_convert_bytes_to_unsigned [1, 44] \<lparr>octets = replicate 29 0, octets_count = 0\<rparr> = (Inr (), u') \<and>
    exi_basetypes_convert_bytes_from_unsigned u' (replicate 29 0) (length (replicate 29 (0 :: byte))) = Inr (buf', len) \<and>
    take len buf' = [1, 44]"
  by (rule convert_bytes_roundtrip)
    (simp_all add: unsigned_wf_def EXI_BASETYPES_MAX_OCTETS_SUPPORTED_def minimal_bytes_def wire_code.simps)



end
