(* ===== verification/Exi_Basetypes_Codec.thy ===== *)
theory Exi_Basetypes_Codec
  imports Exi_Basetypes
begin

text \<open>
  The encoders and decoders of the EXI built-in types
  (\<^verbatim>\<open>exi_basetypes_encoder.c\<close>, \<^verbatim>\<open>exi_basetypes_decoder.c\<close>, \<^verbatim>\<open>exi_types_decoder.c\<close> and
  \<^verbatim>\<open>exi_header.c\<close> in \<^verbatim>\<open>lib/everest/cbv2g/lib/cbv2g/common\<close>): booleans, n-bit integers,
  octet sequences, unsigned and signed integers of every width, strings, and the EXI header.
  For each pair the locale \<open>exi_codec\<close> is interpreted on the two C routines; its facts give
  the round trip, the overflow report and memory safety.

  A decoder that fills a caller's buffer takes the buffer's old content as an argument, since
  the bytes it does not overwrite stay as they were. What a failed decoder leaves in the
  buffer is not modelled.
\<close>

section \<open>Encoders\<close>

text \<open>
  A local \<^verbatim>\<open>exi_unsigned_t\<close> starts with indeterminate content in C. It is zero here; the
  lemmas on the routines that fill it hold for any content.
\<close>

definition exi_unsigned_local :: exi_unsigned_t where
  "exi_unsigned_local =
     \<lparr>octets = replicate EXI_BASETYPES_MAX_OCTETS_SUPPORTED 0, octets_count = 0\<rparr>"

fun raw_unsigned_loop :: "nat \<Rightarrow> u64 \<Rightarrow> exi_unsigned_t \<Rightarrow> exi_unsigned_t" where
  "raw_unsigned_loop 0 dummy raw = raw"
| "raw_unsigned_loop (Suc left) dummy raw =
     (let n = octets_count raw;
          octet = ucast (dummy AND 0x7F);
          dummy = drop_bit 7 dummy
      in if dummy = 0 then raw\<lparr>octets := (octets raw)[n := octet], octets_count := n + 1\<rparr>
         else raw_unsigned_loop left dummy
                (raw\<lparr>octets := (octets raw)[n := octet OR EXI_BASETYPES_OCTET_SEQ_FLAG_MASK],
                     octets_count := n + 1\<rparr>))"

definition exi_basetypes_encoder_raw_unsigned :: "u64 \<Rightarrow> exi_unsigned_t \<Rightarrow> exi_unsigned_t" where
  "exi_basetypes_encoder_raw_unsigned v raw =
     raw_unsigned_loop EXI_BASETYPES_UINT64_MAX_OCTETS v (raw\<lparr>octets_count := 0\<rparr>)"

fun write_octets :: "byte list \<Rightarrow> unit exi" where
  "write_octets [] = ret ()"
| "write_octets (b # bs) = seq (exi_bitstream_write_octet b) (write_octets bs)"

definition exi_basetypes_encoder_write_unsigned :: "exi_unsigned_t \<Rightarrow> unit exi" where
  "exi_basetypes_encoder_write_unsigned u =
     seq (write_octets (unsigned_bytes u))
         (if octets_count u > length (octets u) then throw UNDEFINED_BEHAVIOUR else ret ())"

definition exi_basetypes_encoder_bool :: "bool \<Rightarrow> unit exi" where
  "exi_basetypes_encoder_bool v = exi_bitstream_write_bits 1 (if v then 1 else 0)"

definition exi_basetypes_encoder_bytes :: "nat \<Rightarrow> byte list \<Rightarrow> nat \<Rightarrow> unit exi" where
  "exi_basetypes_encoder_bytes bytes_len bytes bytes_size =
     (if bytes_len > bytes_size then throw BYTE_BUFFER_TOO_SMALL
      else seq (write_octets (take bytes_len bytes))
               (if bytes_len > length bytes then throw UNDEFINED_BEHAVIOUR else ret ()))"

definition exi_basetypes_encoder_nbit_uint :: "nat \<Rightarrow> u32 \<Rightarrow> unit exi" where
  "exi_basetypes_encoder_nbit_uint n v = exi_bitstream_write_bits n v"

definition exi_basetypes_encoder_uint_8 :: "byte \<Rightarrow> unit exi" where
  "exi_basetypes_encoder_uint_8 v =
     exi_basetypes_encoder_write_unsigned (exi_basetypes_encoder_raw_unsigned (ucast v) exi_unsigned_local)"

definition exi_basetypes_encoder_uint_16 :: "u16 \<Rightarrow> unit exi" where
  "exi_basetypes_encoder_uint_16 v =
     exi_basetypes_encoder_write_unsigned (exi_basetypes_encoder_raw_unsigned (ucast v) exi_unsigned_local)"

definition exi_basetypes_encoder_uint_32 :: "u32 \<Rightarrow> unit exi" where
  "exi_basetypes_encoder_uint_32 v =
     exi_basetypes_encoder_write_unsigned (exi_basetypes_encoder_raw_unsigned (ucast v) exi_unsigned_local)"

definition exi_basetypes_encoder_uint_64 :: "u64 \<Rightarrow> unit exi" where
  "exi_basetypes_encoder_uint_64 v =
     exi_basetypes_encoder_write_unsigned (exi_basetypes_encoder_raw_unsigned v exi_unsigned_local)"

definition exi_basetypes_encoder_unsigned :: "exi_unsigned_t \<Rightarrow> unit exi" where
  "exi_basetypes_encoder_unsigned v =
     (if octets_count v > length (octets v) then throw UNDEFINED_BEHAVIOUR
      else case exi_basetypes_convert_bytes_to_unsigned (unsigned_bytes v) exi_unsigned_local of
        (Inl e, _) \<Rightarrow> throw e
      | (Inr _, raw) \<Rightarrow> exi_basetypes_encoder_write_unsigned raw)"

text \<open>
  Signed values are sent as a sign bit and a magnitude, \<open>- v - 1\<close> for negative \<open>v\<close>. At 8 and
  16 bits C computes the magnitude in \<^verbatim>\<open>int\<close> and truncates it; at 32 and 64 bits it is
  \<^verbatim>\<open>-(value + 1)\<close>, which cannot overflow.
\<close>

definition exi_basetypes_encoder_integer_8 :: "8 word \<Rightarrow> unit exi" where
  "exi_basetypes_encoder_integer_8 v =
     seq (exi_basetypes_encoder_bool (sint v < 0))
         (exi_basetypes_encoder_uint_8 (if sint v < 0 then - v - 1 else v))"

definition exi_basetypes_encoder_integer_16 :: "16 word \<Rightarrow> unit exi" where
  "exi_basetypes_encoder_integer_16 v =
     seq (exi_basetypes_encoder_bool (sint v < 0))
         (exi_basetypes_encoder_uint_16 (if sint v < 0 then - v - 1 else v))"

definition exi_basetypes_encoder_integer_32 :: "32 word \<Rightarrow> unit exi" where
  "exi_basetypes_encoder_integer_32 v =
     seq (exi_basetypes_encoder_bool (sint v < 0))
         (exi_basetypes_encoder_uint_32 (if sint v < 0 then - (v + 1) else v))"

definition exi_basetypes_encoder_integer_64 :: "64 word \<Rightarrow> unit exi" where
  "exi_basetypes_encoder_integer_64 v =
     seq (exi_basetypes_encoder_bool (sint v < 0))
         (exi_basetypes_encoder_uint_64 (if sint v < 0 then - (v + 1) else v))"

definition exi_basetypes_encoder_signed :: "exi_signed_t \<Rightarrow> unit exi" where
  "exi_basetypes_encoder_signed v =
     seq (exi_basetypes_encoder_bool (is_negative v)) (exi_basetypes_encoder_unsigned (sdata v))"

fun write_characters :: "byte list \<Rightarrow> unit exi" where
  "write_characters [] = ret ()"
| "write_characters (c # cs) =
     (if c > 127 then throw UNSUPPORTED_CHARACTER_VALUE
      else seq (exi_bitstream_write_octet c) (write_characters cs))"

definition exi_basetypes_encoder_characters :: "nat \<Rightarrow> byte list \<Rightarrow> nat \<Rightarrow> unit exi" where
  "exi_basetypes_encoder_characters characters_len characters characters_size =
     (if characters_len > characters_size then throw CHARACTER_BUFFER_TOO_SMALL
      else seq (write_characters (take characters_len characters))
               (if characters_len > length characters then throw UNDEFINED_BEHAVIOUR else ret ()))"

section \<open>Decoders\<close>

text \<open>
  \<^verbatim>\<open>while (octets_count < EXI_BASETYPES_MAX_OCTETS_SUPPORTED)\<close>: the loop runs on the number
  of octets that are still allowed.
\<close>

fun read_unsigned_loop :: "nat \<Rightarrow> exi_unsigned_t \<Rightarrow> exi_unsigned_t exi" where
  "read_unsigned_loop 0 u = throw SUPPORTED_MAX_OCTETS_OVERRUN"
| "read_unsigned_loop (Suc left) u =
     bind exi_bitstream_read_octet (\<lambda>octet.
       let u' = u\<lparr>octets := (octets u)[octets_count u := octet], octets_count := octets_count u + 1\<rparr>
       in if octet AND 0x80 = 0 then ret u' else read_unsigned_loop left u')"

definition exi_basetypes_decoder_read_unsigned :: "exi_unsigned_t \<Rightarrow> exi_unsigned_t exi" where
  "exi_basetypes_decoder_read_unsigned u =
     read_unsigned_loop EXI_BASETYPES_MAX_OCTETS_SUPPORTED (u\<lparr>octets_count := 0\<rparr>)"

fun fold_unsigned_loop :: "nat \<Rightarrow> byte list \<Rightarrow> u64 \<Rightarrow> u64" where
  "fold_unsigned_loop n [] result = result"
| "fold_unsigned_loop n (octet # rest) result =
     fold_unsigned_loop (n + 1) rest
       (result OR push_bit (n * 7) (ucast (octet AND EXI_BASETYPES_OCTET_SEQ_VALUE_MASK)))"

definition exi_basetypes_decoder_fold_unsigned :: "exi_unsigned_t \<Rightarrow> nat \<Rightarrow> u64 \<Rightarrow> exi_error + u64" where
  "exi_basetypes_decoder_fold_unsigned raw max_octets max_value =
     (if octets_count raw > max_octets then Inl OCTET_COUNT_LARGER_THAN_TYPE_SUPPORTS
      else if octets_count raw = EXI_BASETYPES_UINT64_MAX_OCTETS \<and>
          (octets raw ! (EXI_BASETYPES_UINT64_MAX_OCTETS - 1)) AND EXI_BASETYPES_OCTET_SEQ_VALUE_MASK > 0x01
      then Inl ENCODED_INTEGER_SIZE_LARGER_THAN_DESTINATION
      else let result = fold_unsigned_loop 0 (unsigned_bytes raw) 0
           in if result > max_value then Inl ENCODED_INTEGER_SIZE_LARGER_THAN_DESTINATION
              else Inr result)"

definition exi_basetypes_decoder_read_magnitude :: "nat \<Rightarrow> u64 \<Rightarrow> u64 exi" where
  "exi_basetypes_decoder_read_magnitude max_octets max_magnitude =
     bind (exi_basetypes_decoder_read_unsigned exi_unsigned_local) (\<lambda>u.
       if octets_count u > max_octets then throw OCTET_COUNT_LARGER_THAN_TYPE_SUPPORTS
       else if octets_count u = EXI_BASETYPES_UINT64_MAX_OCTETS \<and>
           (octets u ! (EXI_BASETYPES_UINT64_MAX_OCTETS - 1)) AND EXI_BASETYPES_OCTET_SEQ_VALUE_MASK \<noteq> 0
       then throw ENCODED_INTEGER_SIZE_LARGER_THAN_DESTINATION
       else lift_result (exi_basetypes_decoder_fold_unsigned u max_octets max_magnitude))"

definition exi_basetypes_decoder_bool :: "bool exi" where
  "exi_basetypes_decoder_bool = bind (exi_bitstream_read_bits 1) (\<lambda>b. ret (b \<noteq> 0))"

text \<open>Octets stored one after the other from index \<open>n\<close> on.\<close>

fun read_octets :: "nat \<Rightarrow> nat \<Rightarrow> byte list \<Rightarrow> byte list exi" where
  "read_octets 0 n bytes = ret bytes"
| "read_octets (Suc left) n bytes =
     (if n < length bytes
      then bind exi_bitstream_read_octet (\<lambda>b. read_octets left (n + 1) (bytes[n := b]))
      else throw UNDEFINED_BEHAVIOUR)"

definition exi_basetypes_decoder_bytes :: "nat \<Rightarrow> byte list \<Rightarrow> nat \<Rightarrow> byte list exi" where
  "exi_basetypes_decoder_bytes bytes_len bytes bytes_size =
     (if bytes_len > bytes_size then throw BYTE_BUFFER_TOO_SMALL
      else read_octets bytes_len 0 bytes)"

definition exi_basetypes_decoder_nbit_uint :: "nat \<Rightarrow> u32 exi" where
  "exi_basetypes_decoder_nbit_uint n = exi_bitstream_read_bits n"

definition exi_basetypes_decoder_uint_8 :: "byte exi" where
  "exi_basetypes_decoder_uint_8 =
     bind (exi_basetypes_decoder_read_unsigned exi_unsigned_local) (\<lambda>u.
     bind (lift_result (exi_basetypes_decoder_fold_unsigned u EXI_BASETYPES_UINT8_MAX_OCTETS 0xFF))
       (\<lambda>result. ret (ucast result)))"

definition exi_basetypes_decoder_uint_16 :: "u16 exi" where
  "exi_basetypes_decoder_uint_16 =
     bind (exi_basetypes_decoder_read_unsigned exi_unsigned_local) (\<lambda>u.
     bind (lift_result (exi_basetypes_decoder_fold_unsigned u EXI_BASETYPES_UINT16_MAX_OCTETS 0xFFFF))
       (\<lambda>result. ret (ucast result)))"

definition exi_basetypes_decoder_uint_32 :: "u32 exi" where
  "exi_basetypes_decoder_uint_32 =
     bind (exi_basetypes_decoder_read_unsigned exi_unsigned_local) (\<lambda>u.
     bind (lift_result (exi_basetypes_decoder_fold_unsigned u EXI_BASETYPES_UINT32_MAX_OCTETS 0xFFFFFFFF))
       (\<lambda>result. ret (ucast result)))"

definition exi_basetypes_decoder_uint_64 :: "u64 exi" where
  "exi_basetypes_decoder_uint_64 =
     bind (exi_basetypes_decoder_read_unsigned exi_unsigned_local) (\<lambda>u.
       lift_result (exi_basetypes_decoder_fold_unsigned u EXI_BASETYPES_UINT64_MAX_OCTETS
         0xFFFFFFFFFFFFFFFF))"

text \<open>\<^verbatim>\<open>for (n = 0; n < octets_count; n++) octets[n] = octets[first + n]\<close>\<close>

fun shift_down :: "nat \<Rightarrow> nat \<Rightarrow> nat \<Rightarrow> byte list \<Rightarrow> byte list" where
  "shift_down first 0 n os = os"
| "shift_down first (Suc left) n os = shift_down first left (n + 1) (os[n := os ! (first + n)])"

definition exi_basetypes_decoder_unsigned :: "exi_unsigned_t \<Rightarrow> exi_unsigned_t exi" where
  "exi_basetypes_decoder_unsigned v =
     bind (exi_basetypes_decoder_read_unsigned exi_unsigned_local) (\<lambda>raw.
     bind (lift_result (exi_basetypes_convert_bytes_from_unsigned raw (octets v) (length (octets v))))
       (\<lambda>(buf, len).
          let first = exi_basetypes_skip_zeros (take len buf)
          in ret \<lparr>octets = shift_down first (len - first) 0 buf, octets_count = len - first\<rparr>))"

definition exi_basetypes_decoder_integer_8 :: "8 word exi" where
  "exi_basetypes_decoder_integer_8 =
     bind exi_basetypes_decoder_bool (\<lambda>sign.
     bind (exi_basetypes_decoder_read_magnitude EXI_BASETYPES_UINT8_MAX_OCTETS 0x7F)
       (\<lambda>magnitude. ret (if sign then - ucast magnitude - 1 else ucast magnitude)))"

definition exi_basetypes_decoder_integer_16 :: "16 word exi" where
  "exi_basetypes_decoder_integer_16 =
     bind exi_basetypes_decoder_bool (\<lambda>sign.
     bind (exi_basetypes_decoder_read_magnitude EXI_BASETYPES_UINT16_MAX_OCTETS 0x7FFF)
       (\<lambda>magnitude. ret (if sign then - ucast magnitude - 1 else ucast magnitude)))"

definition exi_basetypes_decoder_integer_32 :: "32 word exi" where
  "exi_basetypes_decoder_integer_32 =
     bind exi_basetypes_decoder_bool (\<lambda>sign.
     bind (exi_basetypes_decoder_read_magnitude EXI_BASETYPES_UINT32_MAX_OCTETS 0x7FFFFFFF)
       (\<lambda>magnitude. ret (if sign then - ucast magnitude - 1 else ucast magnitude)))"

definition exi_basetypes_decoder_integer_64 :: "64 word exi" where
  "exi_basetypes_decoder_integer_64 =
     bind exi_basetypes_decoder_bool (\<lambda>sign.
     bind (exi_basetypes_decoder_read_magnitude EXI_BASETYPES_UINT64_MAX_OCTETS 0x7FFFFFFFFFFFFFFF)
       (\<lambda>magnitude. ret (if sign then - magnitude - 1 else magnitude)))"

definition exi_basetypes_decoder_signed :: "exi_signed_t \<Rightarrow> exi_signed_t exi" where
  "exi_basetypes_decoder_signed v =
     bind exi_basetypes_decoder_bool (\<lambda>sign.
     bind (exi_basetypes_decoder_read_unsigned exi_unsigned_local) (\<lambda>raw.
     bind (lift_result (exi_basetypes_convert_bytes_from_unsigned raw (octets (sdata v))
             (length (octets raw))))
       (\<lambda>(buf, len). ret \<lparr>sdata = \<lparr>octets = buf, octets_count = len\<rparr>, is_negative = sign\<rparr>)))"

fun read_characters :: "nat \<Rightarrow> nat \<Rightarrow> byte list \<Rightarrow> byte list exi" where
  "read_characters 0 n characters =
     (if n < length characters then ret (characters[n := 0]) else throw UNDEFINED_BEHAVIOUR)"
| "read_characters (Suc left) n characters =
     (if n < length characters
      then bind exi_bitstream_read_octet (\<lambda>c.
        if c > 127 then throw UNSUPPORTED_CHARACTER_VALUE
        else read_characters left (n + 1) (characters[n := c]))
      else throw UNDEFINED_BEHAVIOUR)"

text \<open>\<^verbatim>\<open>characters_len + EXTRA_CHAR\<close> is computed in \<^verbatim>\<open>size_t\<close> and wraps around.\<close>

definition exi_basetypes_decoder_characters :: "nat \<Rightarrow> byte list \<Rightarrow> nat \<Rightarrow> byte list exi" where
  "exi_basetypes_decoder_characters characters_len characters characters_size =
     (if (characters_len + 1) mod size_t_modulus > characters_size then throw CHARACTER_BUFFER_TOO_SMALL
      else read_characters characters_len 0 characters)"

section \<open>Simple elements and the header\<close>

text \<open>
  The body shared by the functions of \<^verbatim>\<open>exi_types_decoder.c\<close>: one bit announces the content,
  one bit ends the element.
\<close>

definition simple_element :: "'a exi \<Rightarrow> 'a exi" where
  "simple_element content =
     bind (exi_basetypes_decoder_nbit_uint 1) (\<lambda>eventCode.
       if eventCode = 0 then
         bind content (\<lambda>v.
         bind (exi_basetypes_decoder_nbit_uint 1) (\<lambda>eventCode.
           if eventCode \<noteq> 0 then throw DEVIANTS_NOT_SUPPORTED else ret v))
       else throw UNSUPPORTED_SUB_EVENT)"

definition decode_exi_type_hex_binary :: "byte list \<Rightarrow> nat \<Rightarrow> (u16 \<times> byte list) exi" where
  "decode_exi_type_hex_binary value_buffer value_buffer_size =
     simple_element (bind exi_basetypes_decoder_uint_16 (\<lambda>value_len.
       bind (exi_basetypes_decoder_bytes (unat value_len) value_buffer value_buffer_size) (\<lambda>buf.
         ret (value_len, buf))))"

definition decode_exi_type_integer8 :: "8 word exi" where
  "decode_exi_type_integer8 = simple_element exi_basetypes_decoder_integer_8"

definition decode_exi_type_integer16 :: "16 word exi" where
  "decode_exi_type_integer16 = simple_element exi_basetypes_decoder_integer_16"

definition decode_exi_type_integer32 :: "32 word exi" where
  "decode_exi_type_integer32 = simple_element exi_basetypes_decoder_integer_32"

definition decode_exi_type_integer64 :: "64 word exi" where
  "decode_exi_type_integer64 = simple_element exi_basetypes_decoder_integer_64"

definition decode_exi_type_uint8 :: "byte exi" where
  "decode_exi_type_uint8 = simple_element exi_basetypes_decoder_uint_8"

definition decode_exi_type_uint16 :: "u16 exi" where
  "decode_exi_type_uint16 = simple_element exi_basetypes_decoder_uint_16"

definition decode_exi_type_uint32 :: "u32 exi" where
  "decode_exi_type_uint32 = simple_element exi_basetypes_decoder_uint_32"

definition decode_exi_type_uint64 :: "u64 exi" where
  "decode_exi_type_uint64 = simple_element exi_basetypes_decoder_uint_64"

abbreviation (input) EXI_SIMPLE_HEADER_VALUE :: u32 where
  "EXI_SIMPLE_HEADER_VALUE \<equiv> 0x80"

abbreviation (input) EXI_SIMPLE_HEADER_BIT_SIZE :: nat where
  "EXI_SIMPLE_HEADER_BIT_SIZE \<equiv> 8"

definition exi_header_write :: "unit exi" where
  "exi_header_write = exi_bitstream_write_bits EXI_SIMPLE_HEADER_BIT_SIZE EXI_SIMPLE_HEADER_VALUE"

definition exi_header_read :: "u32 exi" where
  "exi_header_read = exi_bitstream_read_bits EXI_SIMPLE_HEADER_BIT_SIZE"

definition exi_header_read_and_check :: "unit exi" where
  "exi_header_read_and_check =
     bind exi_header_read (\<lambda>header.
       if header \<noteq> EXI_SIMPLE_HEADER_VALUE then throw HEADER_INCORRECT else ret ())"

section \<open>Octet sequences\<close>

definition octets_code :: "byte list \<Rightarrow> bool list" where
  "octets_code bs = concat (map (word_bits 8) bs)"

lemma octets_code_simps [simp]:
  "octets_code [] = []"
  "octets_code (b # bs) = word_bits 8 b @ octets_code bs"
  "octets_code (bs @ cs) = octets_code bs @ octets_code cs"
  by (simp_all add: octets_code_def)

lemma length_octets_code [simp]: "length (octets_code bs) = 8 * length bs"
  by (induction bs) auto

lemma writes_write_octets [wr_rules]: "writes (write_octets bs) (octets_code bs)"
  by (induction bs) (auto intro: wr_rules)

lemma local_wf [simp]: "unsigned_wf exi_unsigned_local"
  by (simp add: unsigned_wf_def exi_unsigned_local_def)

lemma writes_write_unsigned [wr_rules]:
  "unsigned_wf u \<Longrightarrow> writes (exi_basetypes_encoder_write_unsigned u) (octets_code (unsigned_bytes u))"
  using writes_seq[OF writes_write_octets[of "unsigned_bytes u"] writes_ret]
  by (simp add: exi_basetypes_encoder_write_unsigned_def unsigned_wf_def)

text \<open>The encoder's loop produces the wire form.\<close>

lemma raw_unsigned_loop_spec:
  assumes "length (wire_code (unat d)) \<le> left" "octets_count u + left \<le> length (octets u)"
  shows "raw_unsigned_loop left d u =
    u\<lparr>octets := take (octets_count u) (octets u) @ wire_code (unat d) @
        drop (octets_count u + length (wire_code (unat d))) (octets u),
      octets_count := octets_count u + length (wire_code (unat d))\<rparr>"
  using assms
proof (induction left arbitrary: d u)
  case 0
  then show ?case by simp
next
  case (Suc left)
  let ?n = "octets_count u"
  let ?v = "unat d"
  have upd: "(octets u)[?n := x] = take ?n (octets u) @ x # drop (?n + 1) (octets u)" for x
    using Suc.prems by (simp add: upd_conv_take_nth_drop)
  have dv: "unat (drop_bit 7 d) = ?v div 128" by (simp only: unat_drop_bit_div) simp
  have "d AND 0x7F = take_bit 7 d" by (simp add: take_bit_eq_mask mask_eq_exp_minus_1)
  then have "unat (d AND 0x7F) = ?v mod 128"
    by (simp only: unsigned_take_bit_eq) (simp add: take_bit_eq_mod)
  then have o: "unat (ucast (d AND 0x7F) :: byte) = ?v mod 128" by (simp add: unat_ucast_mod)
  show ?case
  proof (cases "drop_bit 7 d = 0")
    case True
    then have "?v < 128" using dv by (simp add: unat_eq_zero[symmetric] div_eq_0_iff del: unat_eq_zero)
    moreover from this o have "(ucast (d AND 0x7F) :: byte) = of_nat ?v"
      by (intro word_unat_eq_iff[THEN iffD2], subst unat_of_nat_byte) simp_all
    ultimately show ?thesis
      using True by (simp add: wire_code.simps[of ?v] upd Let_def)
  next
    case False
    then have "\<not> ?v < 128" using dv by (metis div_less unat_eq_zero)
    then have w: "wire_code ?v = of_nat (?v mod 128 + 128) # wire_code (unat (drop_bit 7 d))"
      by (simp add: wire_code.simps[of ?v] dv)
    let ?u = "u\<lparr>octets := (octets u)[?n := of_nat (?v mod 128 + 128)], octets_count := ?n + 1\<rparr>"
    have "raw_unsigned_loop (Suc left) d u = raw_unsigned_loop left (drop_bit 7 d) ?u"
      using False by (simp add: Let_def flag_octet[OF o])
    also have "\<dots> = ?u\<lparr>octets := take (octets_count ?u) (octets ?u) @ wire_code (unat (drop_bit 7 d)) @
          drop (octets_count ?u + length (wire_code (unat (drop_bit 7 d)))) (octets ?u),
        octets_count := octets_count ?u + length (wire_code (unat (drop_bit 7 d)))\<rparr>"
      by (rule Suc.IH) (use Suc.prems w in simp_all)
    finally show ?thesis
      unfolding w using Suc.prems(2) by (simp add: upd add.commute)
  qed
qed

lemma wire_code_length_bound:
  "v < 128 ^ k \<Longrightarrow> k > 0 \<Longrightarrow> length (wire_code v) \<le> k"
  using wire_code_length_le[of v "k - 1"] by simp

lemma u64_wire_length: "length (wire_code (unat (v :: u64))) \<le> 10"
  using unsigned_less[of v, where ?'a = nat] by (intro wire_code_length_bound) auto

lemma raw_unsigned_spec:
  assumes "unsigned_wf u"
  shows "unsigned_wf (exi_basetypes_encoder_raw_unsigned v u)"
    "unsigned_bytes (exi_basetypes_encoder_raw_unsigned v u) = wire_code (unat v)"
  using assms u64_wire_length[of v]
    raw_unsigned_loop_spec[of v EXI_BASETYPES_UINT64_MAX_OCTETS "u\<lparr>octets_count := 0\<rparr>"]
  by (auto simp: exi_basetypes_encoder_raw_unsigned_def unsigned_wf_def unsigned_bytes_def
      EXI_BASETYPES_MAX_OCTETS_SUPPORTED_def)

lemma writes_raw_unsigned:
  "writes (exi_basetypes_encoder_write_unsigned (exi_basetypes_encoder_raw_unsigned v exi_unsigned_local))
     (octets_code (wire_code (unat v)))"
  using writes_write_unsigned raw_unsigned_spec[OF local_wf] by metis

lemma writes_uint [wr_rules]:
  "writes (exi_basetypes_encoder_uint_8 v8) (octets_code (wire_code (unat v8)))"
  "writes (exi_basetypes_encoder_uint_16 v16) (octets_code (wire_code (unat v16)))"
  "writes (exi_basetypes_encoder_uint_32 v32) (octets_code (wire_code (unat v32)))"
  "writes (exi_basetypes_encoder_uint_64 v64) (octets_code (wire_code (unat v64)))"
  using writes_raw_unsigned[of "ucast v8"] writes_raw_unsigned[of "ucast v16"]
    writes_raw_unsigned[of "ucast v32"] writes_raw_unsigned[of v64]
  by (simp_all add: unat_ucast_up exi_basetypes_encoder_uint_8_def exi_basetypes_encoder_uint_16_def
      exi_basetypes_encoder_uint_32_def exi_basetypes_encoder_uint_64_def)

lemma writes_nbit_uint [wr_rules]:
  "n \<le> 32 \<Longrightarrow> writes (exi_basetypes_encoder_nbit_uint n v) (word_bits n v)"
  by (simp add: exi_basetypes_encoder_nbit_uint_def wr_rules)

lemma writes_bool [wr_rules]: "writes (exi_basetypes_encoder_bool b) [b]"
proof -
  have "word_bits 1 (if b then 1 else 0 :: u32) = [b]"
    by (simp add: word_bits_def)
  then show ?thesis
    using writes_write_bits[of 1 "if b then 1 else 0"] by (simp add: exi_basetypes_encoder_bool_def)
qed

lemma writes_bytes [wr_rules]:
  "n \<le> length bs \<Longrightarrow> n \<le> sz \<Longrightarrow>
    writes (exi_basetypes_encoder_bytes n bs sz) (octets_code (take n bs))"
  using writes_seq[OF writes_write_octets[of "take n bs"] writes_ret]
  by (simp add: exi_basetypes_encoder_bytes_def)

lemma writes_write_characters:
  "(\<forall>c \<in> set cs. c \<le> 127) \<Longrightarrow> writes (write_characters cs) (octets_code cs)"
  by (induction cs) (auto intro: wr_rules simp: not_less[symmetric])

lemma writes_characters [wr_rules]:
  "n \<le> length cs \<Longrightarrow> n \<le> sz \<Longrightarrow> \<forall>c \<in> set (take n cs). c \<le> 127 \<Longrightarrow>
    writes (exi_basetypes_encoder_characters n cs sz) (octets_code (take n cs))"
  using writes_seq[OF writes_write_characters[of "take n cs"] writes_ret]
  by (simp add: exi_basetypes_encoder_characters_def)

section \<open>Reading the wire form\<close>

definition wire_form :: "byte list \<Rightarrow> bool" where
  "wire_form bs \<longleftrightarrow> bs \<noteq> [] \<and> (\<forall>b \<in> set (butlast bs). b AND 0x80 \<noteq> 0) \<and> last bs AND 0x80 = 0"

lemma wire_form_wire_code [simp]: "wire_form (wire_code v)"
  using wire_code_flags by (auto simp: wire_form_def)

lemma reads_unsigned_loop:
  assumes "wire_form bs" "length bs \<le> left" "octets_count u + left \<le> length (octets u)"
  shows "reads (read_unsigned_loop left u) (octets_code bs)
    (u\<lparr>octets := take (octets_count u) (octets u) @ bs @ drop (octets_count u + length bs) (octets u),
       octets_count := octets_count u + length bs\<rparr>)"
  using assms
proof (induction bs arbitrary: left u)
  case Nil
  then show ?case by (simp add: wire_form_def)
next
  case (Cons b bs)
  then obtain k where k: "left = Suc k" by (cases left) auto
  let ?n = "octets_count u"
  let ?u = "u\<lparr>octets := (octets u)[?n := b], octets_count := ?n + 1\<rparr>"
  have upd: "(octets u)[?n := b] = take ?n (octets u) @ b # drop (?n + 1) (octets u)"
    using Cons.prems k by (simp add: upd_conv_take_nth_drop)
  show ?case
  proof (cases "bs = []")
    case True
    with Cons.prems have "b AND 0x80 = 0" by (simp add: wire_form_def)
    then have "reads (read_unsigned_loop (Suc k) u) (word_bits 8 b) ?u"
      by (simp add: Let_def reads_bind_ret[OF reads_read_octet])
    with True show ?thesis by (simp add: k upd)
  next
    case False
    with Cons.prems k have f: "b AND 0x80 \<noteq> 0" "wire_form bs" "length bs \<le> k"
      "octets_count ?u + k \<le> length (octets ?u)"
      by (auto simp: wire_form_def)
    have "u\<lparr>octets := take ?n (octets u) @ (b # bs) @ drop (?n + length (b # bs)) (octets u),
          octets_count := ?n + length (b # bs)\<rparr> =
        ?u\<lparr>octets := take (octets_count ?u) (octets ?u) @ bs @ drop (octets_count ?u + length bs) (octets ?u),
          octets_count := octets_count ?u + length bs\<rparr>"
      using Cons.prems k by (simp add: upd add.commute)
    with Cons.IH[OF f(2-4)] f(1) show ?thesis
      unfolding k read_unsigned_loop.simps octets_code_simps
      by (intro reads_bind[OF reads_read_octet]) (simp add: Let_def)
  qed
qed

definition filled :: "exi_unsigned_t \<Rightarrow> byte list \<Rightarrow> exi_unsigned_t" where
  "filled u bs = u\<lparr>octets := bs @ drop (length bs) (octets u), octets_count := length bs\<rparr>"

lemma reads_read_unsigned:
  assumes "wire_form bs" "length bs \<le> EXI_BASETYPES_MAX_OCTETS_SUPPORTED" "unsigned_wf u"
  shows "reads (exi_basetypes_decoder_read_unsigned u) (octets_code bs) (filled u bs)"
  using reads_unsigned_loop[OF assms(1,2), of "u\<lparr>octets_count := 0\<rparr>"] assms(3)
  by (simp add: exi_basetypes_decoder_read_unsigned_def filled_def unsigned_wf_def)

lemma filled_unsigned [simp]:
  "unsigned_bytes (filled u bs) = bs" "octets_count (filled u bs) = length bs"
  by (simp_all add: unsigned_bytes_def filled_def)

lemma filled_wf:
  "unsigned_wf u \<Longrightarrow> length bs \<le> EXI_BASETYPES_MAX_OCTETS_SUPPORTED \<Longrightarrow> unsigned_wf (filled u bs)"
  by (simp add: unsigned_wf_def filled_def)

lemma safe_unsigned_loop: "safe_reader (read_unsigned_loop left u)"
  by (induction left arbitrary: u) (auto simp: Let_def intro!: safe_rules)

lemma yields_unsigned_loop:
  "length (octets u) = EXI_BASETYPES_MAX_OCTETS_SUPPORTED \<Longrightarrow>
    octets_count u + left = EXI_BASETYPES_MAX_OCTETS_SUPPORTED \<Longrightarrow>
    yields (read_unsigned_loop left u) unsigned_wf"
  by (induction left arbitrary: u)
    (auto simp: Let_def unsigned_wf_def yields_throw intro!: yields_bind yields_ret safe_rules)

lemma safe_read_unsigned [safe_rules]: "safe_reader (exi_basetypes_decoder_read_unsigned u)"
  by (simp add: exi_basetypes_decoder_read_unsigned_def safe_unsigned_loop)

lemma yields_read_unsigned:
  "unsigned_wf u \<Longrightarrow> yields (exi_basetypes_decoder_read_unsigned u) unsigned_wf"
  by (simp add: exi_basetypes_decoder_read_unsigned_def yields_unsigned_loop unsigned_wf_def)

section \<open>Folding the wire form into an integer\<close>

lemma unat_fold_unsigned_loop:
  assumes "unat r < 2 ^ (n * 7)" "unat r + 2 ^ (n * 7) * wire_val bs < 2 ^ 64"
  shows "unat (fold_unsigned_loop n bs r) = unat r + 2 ^ (n * 7) * wire_val bs"
  using assms
proof (induction bs arbitrary: n r)
  case (Cons b bs)
  let ?r = "r OR push_bit (n * 7) (ucast (b AND 0x7F))"
  have b: "unat (ucast (b AND 0x7F) :: u64) = unat b mod 128"
    by (simp add: unat_ucast_up unat_value_mask)
  have split: "2 ^ (n * 7) * wire_val (b # bs) =
      2 ^ (n * 7) * (unat b mod 128) + 2 ^ ((n + 1) * 7) * wire_val bs"
    by (simp add: distrib_left power_add)
  have r: "unat ?r = unat r + (unat b mod 128) * 2 ^ (n * 7)"
    using Cons.prems b unfolding split by (subst unat_or_push_bit') (simp_all add: mult.commute)
  have "(unat b mod 128) * 2 ^ (n * 7) \<le> 127 * 2 ^ (n * 7)"
    by (intro mult_le_mono1) simp
  with Cons.prems(1) r have "unat ?r < 128 * 2 ^ (n * 7)" by linarith
  then have "unat ?r < 2 ^ ((n + 1) * 7)" by (simp add: power_add)
  moreover have "unat ?r + 2 ^ ((n + 1) * 7) * wire_val bs < 2 ^ 64"
    using Cons.prems(2) unfolding r split by (simp add: mult.commute)
  ultimately show ?case
    using Cons.IH[of ?r "n + 1"] r unfolding split by (simp add: mult.commute)
qed simp

lemma wire_val_less: "wire_val bs < 128 ^ length bs"
proof (induction bs)
  case (Cons b bs)
  have "unat b mod 128 < 128" by simp
  with Cons show ?case by simp
qed simp

lemma wire_val_append: "wire_val (bs @ cs) = wire_val bs + 128 ^ length bs * wire_val cs"
  by (induction bs) (simp_all add: distrib_left)

lemma wire_val_nth9:
  assumes "length bs = 10"
  shows "\<exists>low < 2 ^ 63. wire_val bs = low + 2 ^ 63 * unat (bs ! 9 AND 0x7F)"
proof (intro exI conjI)
  have "bs = take 9 bs @ [bs ! 9]"
    using assms take_Suc_conv_app_nth[of 9 bs] by simp
  then show "wire_val bs = wire_val (take 9 bs) + 2 ^ 63 * unat (bs ! 9 AND 0x7F)"
    using assms wire_val_append[of "take 9 bs" "[bs ! 9]"] by (simp add: unat_value_mask)
  show "wire_val (take 9 bs) < 2 ^ 63"
    using wire_val_less[of "take 9 bs"] assms by simp
qed

text \<open>
  The decoder's range checks amount to a comparison of the value on the wire, whatever its
  size, with the largest value of the destination.
\<close>

lemma wire_val_last_octet:
  assumes "length bs \<le> 10"
  shows "length bs = 10 \<and> (bs ! 9) AND 0x7F > 1 \<longleftrightarrow> 2 ^ 64 \<le> wire_val bs"
    "length bs = 10 \<and> (bs ! 9) AND 0x7F \<noteq> 0 \<longleftrightarrow> 2 ^ 63 \<le> wire_val bs"
proof -
  let ?b = "unat (bs ! 9 AND 0x7F)"
  have short: "wire_val bs < 2 ^ 63" if "length bs \<noteq> 10"
  proof -
    have "(128 :: nat) ^ length bs \<le> 128 ^ 9" using that assms by (intro power_increasing) auto
    with wire_val_less[of bs] show ?thesis by simp
  qed
  have "(bs ! 9) AND 0x7F > 1 \<longleftrightarrow> ?b > 1" "(bs ! 9) AND 0x7F \<noteq> 0 \<longleftrightarrow> ?b > 0"
    by (simp_all add: word_less_nat_alt unat_gt_0)
  then show "length bs = 10 \<and> (bs ! 9) AND 0x7F > 1 \<longleftrightarrow> 2 ^ 64 \<le> wire_val bs"
      "length bs = 10 \<and> (bs ! 9) AND 0x7F \<noteq> 0 \<longleftrightarrow> 2 ^ 63 \<le> wire_val bs"
    using short wire_val_nth9[of bs] by (cases "length bs = 10"; auto)+
qed

lemma unsigned_bytes_nth: "n < octets_count u \<Longrightarrow> unsigned_bytes u ! n = octets u ! n"
  by (simp add: unsigned_bytes_def)

lemma fold_unsigned_spec:
  assumes "unsigned_wf u" "max_octets \<le> 10"
  defines "bs \<equiv> unsigned_bytes u"
  shows "exi_basetypes_decoder_fold_unsigned u max_octets max_value =
    (if length bs > max_octets then Inl OCTET_COUNT_LARGER_THAN_TYPE_SUPPORTS
     else if wire_val bs > unat max_value then Inl ENCODED_INTEGER_SIZE_LARGER_THAN_DESTINATION
     else Inr (of_nat (wire_val bs)))"
proof (cases "length bs > max_octets")
  case True
  then show ?thesis
    by (simp add: exi_basetypes_decoder_fold_unsigned_def bs_def length_unsigned_bytes[OF assms(1)])
next
  case False
  have len: "octets_count u = length bs" by (simp add: bs_def length_unsigned_bytes[OF assms(1)])
  have last: "octets_count u = 10 \<and> (octets u ! (10 - 1)) AND 0x7F > 1 \<longleftrightarrow> 2 ^ 64 \<le> wire_val bs"
    using wire_val_last_octet(1)[of bs] False assms(2) len unsigned_bytes_nth[of 9 u, folded bs_def]
    by auto
  have "unat max_value < 2 ^ 64" using unsigned_less[of max_value, where ?'a = nat] by simp
  moreover have "unat (fold_unsigned_loop 0 bs 0) = wire_val bs" if "wire_val bs < 2 ^ 64"
    using unat_fold_unsigned_loop[of 0 0 bs] that by simp
  moreover from this have "fold_unsigned_loop 0 bs 0 = of_nat (wire_val bs)" if "wire_val bs < 2 ^ 64"
    using that by (metis of_nat_unat ucast_id)
  ultimately show ?thesis
    using False unfolding exi_basetypes_decoder_fold_unsigned_def last
    by (auto simp: len bs_def[symmetric] Let_def word_less_nat_alt not_le)
qed

lemma ucast_of_nat_less: "n < 2 ^ LENGTH('a) \<Longrightarrow> (ucast (of_nat n :: 'a::len word) :: 'b::len word) = of_nat n"
  by (intro word_unat_eq_iff[THEN iffD2]) (simp add: unat_ucast_mod unat_of_nat)

lemma reads_lift: "r = Inr x \<Longrightarrow> reads (lift_result r) [] x"
  by (simp add: reads_ret)

text \<open>Exactly what the decoders of unsigned integers do on a wire form.\<close>

definition uint_result :: "nat \<Rightarrow> nat \<Rightarrow> byte list \<Rightarrow> exi_error + 'a::len word" where
  "uint_result max_octets max_value bs =
     (if length bs > max_octets then Inl OCTET_COUNT_LARGER_THAN_TYPE_SUPPORTS
      else if wire_val bs > max_value then Inl ENCODED_INTEGER_SIZE_LARGER_THAN_DESTINATION
      else Inr (of_nat (wire_val bs)))"

definition read_uint :: "nat \<Rightarrow> u64 \<Rightarrow> 'a::len word exi" where
  "read_uint max_octets max_value =
     bind (exi_basetypes_decoder_read_unsigned exi_unsigned_local) (\<lambda>u.
       lift_result (map_sum id ucast (exi_basetypes_decoder_fold_unsigned u max_octets max_value)))"

lemma decoder_uint_eq:
  "exi_basetypes_decoder_uint_8 = read_uint EXI_BASETYPES_UINT8_MAX_OCTETS 0xFF"
  "exi_basetypes_decoder_uint_16 = read_uint EXI_BASETYPES_UINT16_MAX_OCTETS 0xFFFF"
  "exi_basetypes_decoder_uint_32 = read_uint EXI_BASETYPES_UINT32_MAX_OCTETS 0xFFFFFFFF"
  "exi_basetypes_decoder_uint_64 = read_uint EXI_BASETYPES_UINT64_MAX_OCTETS 0xFFFFFFFFFFFFFFFF"
proof -
  have eq: "bind (lift_result r) (\<lambda>x. ret (ucast x)) = lift_result (map_sum id ucast r)" for r
    by (cases r) simp_all
  show "exi_basetypes_decoder_uint_8 = read_uint EXI_BASETYPES_UINT8_MAX_OCTETS 0xFF"
    "exi_basetypes_decoder_uint_16 = read_uint EXI_BASETYPES_UINT16_MAX_OCTETS 0xFFFF"
    "exi_basetypes_decoder_uint_32 = read_uint EXI_BASETYPES_UINT32_MAX_OCTETS 0xFFFFFFFF"
    by (simp_all add: exi_basetypes_decoder_uint_8_def exi_basetypes_decoder_uint_16_def
        exi_basetypes_decoder_uint_32_def read_uint_def eq)
  have "map_sum id ucast r = r" for r :: "exi_error + u64" by (cases r) simp_all
  then show "exi_basetypes_decoder_uint_64 = read_uint EXI_BASETYPES_UINT64_MAX_OCTETS 0xFFFFFFFFFFFFFFFF"
    by (simp add: exi_basetypes_decoder_uint_64_def read_uint_def)
qed

lemma fold_uint_result:
  assumes "unsigned_wf u" "max_octets \<le> 10"
  shows "map_sum id ucast (exi_basetypes_decoder_fold_unsigned u max_octets max_value) =
    uint_result max_octets (unat max_value) (unsigned_bytes u)"
proof -
  have "unat max_value < 2 ^ 64" using unsigned_less[of max_value, where ?'a = nat] by simp
  then show ?thesis
    unfolding fold_unsigned_spec[OF assms] uint_result_def by (simp add: ucast_of_nat_less)
qed

lemma read_uint_result:
  assumes "wire_form bs" "length bs \<le> EXI_BASETYPES_MAX_OCTETS_SUPPORTED" "max_octets \<le> 10"
    and "stream_wf s" "prefix (octets_code bs) (unread s)"
  shows "fst (read_uint max_octets max_value s) = uint_result max_octets (unat max_value) bs"
proof -
  note wf = filled_wf[OF local_wf assms(2)]
  obtain s' where "exi_basetypes_decoder_read_unsigned exi_unsigned_local s =
      (Inr (filled exi_unsigned_local bs), s')"
    using readsE[OF reads_read_unsigned[OF assms(1,2) local_wf] assms(4,5)] by metis
  with fold_uint_result[OF wf assms(3), of max_value] show ?thesis
    by (simp add: read_uint_def bind_def lift_result_def)
qed

lemma reads_read_uint:
  assumes "wire_form bs" "length bs \<le> max_octets" "max_octets \<le> 10" "wire_val bs \<le> unat max_value"
  shows "reads (read_uint max_octets max_value) (octets_code bs) (of_nat (wire_val bs))"
proof -
  have "length bs \<le> EXI_BASETYPES_MAX_OCTETS_SUPPORTED"
    using assms(2,3) by (simp add: EXI_BASETYPES_MAX_OCTETS_SUPPORTED_def)
  note r = reads_read_unsigned[OF assms(1) this local_wf] and wf = filled_wf[OF local_wf this]
  show ?thesis
    unfolding read_uint_def
    by (rule reads_bind_pure[OF r], rule reads_lift)
      (use assms in \<open>simp add: fold_uint_result[OF wf assms(3)] uint_result_def\<close>)
qed

lemma safe_lift: "c_result r \<Longrightarrow> safe_reader (lift_result r)"
  by (cases r) (auto intro: safe_rules)

lemma safe_read_uint:
  "max_octets \<le> 10 \<Longrightarrow> safe_reader (read_uint max_octets max_value :: 'a::len word exi)"
  unfolding read_uint_def
  by (rule safe_bind_yields[OF safe_read_unsigned yields_read_unsigned[OF local_wf]], rule safe_lift)
    (simp add: fold_uint_result uint_result_def)

lemma reads_uint [rd_rules]:
  "reads exi_basetypes_decoder_uint_8 (octets_code (wire_code (unat v8))) v8"
  "reads exi_basetypes_decoder_uint_16 (octets_code (wire_code (unat v16))) v16"
  "reads exi_basetypes_decoder_uint_32 (octets_code (wire_code (unat v32))) v32"
  "reads exi_basetypes_decoder_uint_64 (octets_code (wire_code (unat v64))) v64"
proof -
  have *: "reads (read_uint k m) (octets_code (wire_code (unat v))) v"
    if "2 ^ LENGTH('a) \<le> (128 :: nat) ^ k" "0 < k" "k \<le> 10" "2 ^ LENGTH('a) \<le> Suc (unat m)"
    for v :: "'a::len word" and k m
  proof -
    have v: "unat v < 2 ^ LENGTH('a)" by (rule unsigned_less)
    have "length (wire_code (unat v)) \<le> k"
      by (rule wire_code_length_bound) (use v that in linarith)+
    with reads_read_uint[of "wire_code (unat v)" k m, where ?'a = 'a] v that show ?thesis
      by simp
  qed
  show "reads exi_basetypes_decoder_uint_8 (octets_code (wire_code (unat v8))) v8"
    "reads exi_basetypes_decoder_uint_16 (octets_code (wire_code (unat v16))) v16"
    "reads exi_basetypes_decoder_uint_32 (octets_code (wire_code (unat v32))) v32"
    "reads exi_basetypes_decoder_uint_64 (octets_code (wire_code (unat v64))) v64"
    unfolding decoder_uint_eq by (rule *; simp)+
qed

lemma safe_uint [safe_rules]:
  "safe_reader exi_basetypes_decoder_uint_8"
  "safe_reader exi_basetypes_decoder_uint_16"
  "safe_reader exi_basetypes_decoder_uint_32"
  "safe_reader exi_basetypes_decoder_uint_64"
  by (simp_all add: decoder_uint_eq safe_read_uint)

interpretation uint8: exi_codec exi_basetypes_encoder_uint_8 exi_basetypes_decoder_uint_8
  "\<lambda>v. octets_code (wire_code (unat v))" "\<lambda>_. True"
  by unfold_locales (simp_all add: wr_rules rd_rules safe_rules)

interpretation uint16: exi_codec exi_basetypes_encoder_uint_16 exi_basetypes_decoder_uint_16
  "\<lambda>v. octets_code (wire_code (unat v))" "\<lambda>_. True"
  by unfold_locales (simp_all add: wr_rules rd_rules safe_rules)

interpretation uint32: exi_codec exi_basetypes_encoder_uint_32 exi_basetypes_decoder_uint_32
  "\<lambda>v. octets_code (wire_code (unat v))" "\<lambda>_. True"
  by unfold_locales (simp_all add: wr_rules rd_rules safe_rules)

interpretation uint64: exi_codec exi_basetypes_encoder_uint_64 exi_basetypes_decoder_uint_64
  "\<lambda>v. octets_code (wire_code (unat v))" "\<lambda>_. True"
  by unfold_locales (simp_all add: wr_rules rd_rules safe_rules)

section \<open>Booleans, bit fields and octet sequences\<close>

lemma reads_bool [rd_rules]: "reads exi_basetypes_decoder_bool [b] b"
proof -
  have "word_bits 1 (of_bool b :: u32) = [b]" "take_bit 1 (of_bool b :: u32) \<noteq> 0 \<longleftrightarrow> b"
    by (simp_all add: word_bits_def)
  then show ?thesis
    using reads_bind_ret[OF reads_read_bits[of 1 "of_bool b"], of "\<lambda>x. ret (x \<noteq> 0)"]
    by (simp add: exi_basetypes_decoder_bool_def)
qed

lemma safe_bool [safe_rules]: "safe_reader exi_basetypes_decoder_bool"
  by (simp add: exi_basetypes_decoder_bool_def safe_rules)

lemma reads_nbit_uint [rd_rules]:
  "n \<le> 32 \<Longrightarrow> reads (exi_basetypes_decoder_nbit_uint n) (word_bits n v) (take_bit n v)"
  by (simp add: exi_basetypes_decoder_nbit_uint_def rd_rules)

lemma safe_nbit_uint [safe_rules]: "safe_reader (exi_basetypes_decoder_nbit_uint n)"
  by (simp add: exi_basetypes_decoder_nbit_uint_def safe_rules)

interpretation boolean: exi_codec exi_basetypes_encoder_bool exi_basetypes_decoder_bool
  "\<lambda>b. [b]" "\<lambda>_. True"
  by unfold_locales (simp_all add: wr_rules rd_rules safe_rules)

text \<open>A bit field carries the values below \<open>2 ^ n\<close>; a larger value would be cut off.\<close>

interpretation nbit: exi_codec "exi_basetypes_encoder_nbit_uint n" "exi_basetypes_decoder_nbit_uint n"
  "word_bits n" "\<lambda>v. n \<le> 32 \<and> take_bit n v = v" for n
proof unfold_locales
  fix v :: u32 assume "n \<le> 32 \<and> take_bit n v = v"
  then show "writes (exi_basetypes_encoder_nbit_uint n v) (word_bits n v)"
    "reads (exi_basetypes_decoder_nbit_uint n) (word_bits n v) v"
    using reads_nbit_uint[of n v] by (simp_all add: wr_rules)
qed (rule safe_nbit_uint)

lemma reads_octets:
  "n + length bs \<le> length buf \<Longrightarrow>
    reads (read_octets (length bs) n buf) (octets_code bs) (take n buf @ bs @ drop (n + length bs) buf)"
proof (induction bs arbitrary: n buf)
  case Nil
  then show ?case by (simp add: reads_ret)
next
  case (Cons b bs)
  have "take (n + 1) (buf[n := b]) @ bs @ drop (n + 1 + length bs) (buf[n := b]) =
      take n buf @ (b # bs) @ drop (n + length (b # bs)) buf"
    using Cons.prems by (simp add: take_Suc_conv_app_nth)
  with Cons.IH[of "n + 1" "buf[n := b]"] Cons.prems
  have "reads (read_octets (length bs) (n + 1) (buf[n := b])) (octets_code bs)
      (take n buf @ (b # bs) @ drop (n + length (b # bs)) buf)" by simp
  then have "reads (bind exi_bitstream_read_octet (\<lambda>b. read_octets (length bs) (n + 1) (buf[n := b])))
      (word_bits 8 b @ octets_code bs) (take n buf @ (b # bs) @ drop (n + length (b # bs)) buf)"
    by (rule reads_bind[OF reads_read_octet])
  with Cons.prems show ?case by simp
qed

lemma reads_bytes [rd_rules]:
  "length bs = n \<Longrightarrow> n \<le> length buf \<Longrightarrow> n \<le> sz \<Longrightarrow>
    reads (exi_basetypes_decoder_bytes n buf sz) (octets_code bs) (bs @ drop n buf)"
  using reads_octets[of 0 bs buf] by (auto simp: exi_basetypes_decoder_bytes_def)

lemma safe_octets: "n + left \<le> length buf \<Longrightarrow> safe_reader (read_octets left n buf)"
  by (induction left arbitrary: n buf) (auto intro!: safe_rules)

lemma safe_bytes [safe_rules]:
  "sz \<le> length buf \<Longrightarrow> safe_reader (exi_basetypes_decoder_bytes n buf sz)"
  by (auto simp: exi_basetypes_decoder_bytes_def intro!: safe_rules safe_octets)

lemma yields_octets: "n + left \<le> length buf \<Longrightarrow> yields (read_octets left n buf) (\<lambda>buf'. length buf' = length buf)"
proof (induction left arbitrary: n buf)
  case (Suc left)
  then have "yields (read_octets left (n + 1) (buf[n := b])) (\<lambda>buf'. length buf' = length buf)" for b
    using Suc.IH[of "n + 1" "buf[n := b]"] by simp
  with Suc.prems show ?case by (auto intro!: yields_bind safe_rules)
qed (simp add: yields_ret)

interpretation bytes: exi_codec "\<lambda>bs. exi_basetypes_encoder_bytes n bs n"
  "exi_basetypes_decoder_bytes n (replicate n 0) n" octets_code "\<lambda>bs. length bs = n" for n
proof unfold_locales
  fix bs :: "byte list" assume n: "length bs = n"
  then show "writes (exi_basetypes_encoder_bytes n bs n) (octets_code bs)"
    using writes_bytes[of n bs n] by simp
  from n show "reads (exi_basetypes_decoder_bytes n (replicate n 0) n) (octets_code bs) bs"
    using reads_bytes[of bs n "replicate n 0" n] by simp
qed (simp add: safe_rules)

lemma reads_read_characters:
  "n + length cs < length buf \<Longrightarrow> \<forall>c \<in> set cs. c \<le> 127 \<Longrightarrow>
    reads (read_characters (length cs) n buf) (octets_code cs)
      (take n buf @ cs @ 0 # drop (n + length cs + 1) buf)"
proof (induction cs arbitrary: n buf)
  case Nil
  then show ?case by (simp add: reads_ret upd_conv_take_nth_drop)
next
  case (Cons c cs)
  let ?r = "take n buf @ (c # cs) @ 0 # drop (n + length (c # cs) + 1) buf"
  have "take (n + 1) (buf[n := c]) @ cs @ 0 # drop (n + 1 + length cs + 1) (buf[n := c]) = ?r"
    using Cons.prems by (simp add: take_Suc_conv_app_nth)
  with Cons.IH[of "n + 1" "buf[n := c]"] Cons.prems
  have "reads (if c > 127 then throw UNSUPPORTED_CHARACTER_VALUE
      else read_characters (length cs) (n + 1) (buf[n := c])) (octets_code cs) ?r"
    by (auto simp: not_less)
  then have "reads (bind exi_bitstream_read_octet (\<lambda>c. if c > 127 then throw UNSUPPORTED_CHARACTER_VALUE
      else read_characters (length cs) (n + 1) (buf[n := c]))) (word_bits 8 c @ octets_code cs) ?r"
    by (rule reads_bind[OF reads_read_octet])
  with Cons.prems show ?case by simp
qed

lemma reads_characters [rd_rules]:
  assumes "length cs = n" "n < length buf" "n < sz" "sz < size_t_modulus" "\<forall>c \<in> set cs. c \<le> 127"
  shows "reads (exi_basetypes_decoder_characters n buf sz) (octets_code cs) (cs @ 0 # drop (n + 1) buf)"
  using reads_read_characters[of 0 cs buf] assms by (simp add: exi_basetypes_decoder_characters_def)

lemma safe_read_characters: "n + left < length buf \<Longrightarrow> safe_reader (read_characters left n buf)"
  by (induction left arbitrary: n buf) (auto intro!: safe_rules)

lemma safe_characters [safe_rules]:
  "sz \<le> length buf \<Longrightarrow> n + 1 < size_t_modulus \<Longrightarrow> safe_reader (exi_basetypes_decoder_characters n buf sz)"
  by (auto simp: exi_basetypes_decoder_characters_def intro!: safe_rules safe_read_characters)

lemma yields_read_characters:
  "n + left < length buf \<Longrightarrow> yields (read_characters left n buf) (\<lambda>buf'. length buf' = length buf)"
proof (induction left arbitrary: n buf)
  case (Suc left)
  then have "yields (read_characters left (n + 1) (buf[n := b])) (\<lambda>buf'. length buf' = length buf)" for b
    using Suc.IH[of "n + 1" "buf[n := b]"] by simp
  with Suc.prems show ?case by (auto intro!: yields_bind safe_rules yields_throw)
qed (simp add: yields_ret)

lemma yields_characters:
  "sz \<le> length buf \<Longrightarrow> n + 1 < size_t_modulus \<Longrightarrow>
    yields (exi_basetypes_decoder_characters n buf sz) (\<lambda>buf'. length buf' = length buf)"
  by (auto simp: exi_basetypes_decoder_characters_def intro!: yields_throw yields_read_characters)

section \<open>Signed integers\<close>

definition magnitude :: "'a::len word \<Rightarrow> 'a word" where
  "magnitude v = (if sint v < 0 then NOT v else v)"

definition integer_code :: "'a::len word \<Rightarrow> bool list" where
  "integer_code v = (sint v < 0) # octets_code (wire_code (unat (magnitude v)))"

lemma magnitude_less: "unat (magnitude (v :: 'a::len word)) < 2 ^ (LENGTH('a) - 1)"
proof -
  have nonneg: "0 \<le> sint (magnitude v)" by (simp add: magnitude_def sint_not)
  have "sint (magnitude v) < 2 ^ (LENGTH('a) - 1)" by (rule sint_lt)
  also have "(2 :: int) ^ (LENGTH('a) - 1) \<le> 2 ^ LENGTH('a)" by (intro power_increasing) auto
  finally have "uint (magnitude v) = sint (magnitude v)"
    using nonneg by (simp add: uint_sint take_bit_int_eq_self)
  with sint_lt[of "magnitude v"] have "uint (magnitude v) < 2 ^ (LENGTH('a) - 1)" by simp
  then show ?thesis
    by (metis nat_less_numeral_power_cancel_iff unat_eq_nat_uint)
qed

lemma magnitude_code:
  "(if sint v < 0 then - v - 1 else v) = magnitude v"
  "(if sint v < 0 then - (v + 1) else v) = magnitude v"
  by (simp_all add: magnitude_def not_eq_complement)

lemma magnitude_decode: "(if sint v < 0 then - magnitude v - 1 else magnitude v) = v"
  by (simp add: magnitude_def not_eq_complement)

lemma writes_integer [wr_rules]:
  "writes (exi_basetypes_encoder_integer_8 v8) (integer_code v8)"
  "writes (exi_basetypes_encoder_integer_16 v16) (integer_code v16)"
  "writes (exi_basetypes_encoder_integer_32 v32) (integer_code v32)"
  "writes (exi_basetypes_encoder_integer_64 v64) (integer_code v64)"
  using writes_seq[OF writes_bool writes_uint(1)] writes_seq[OF writes_bool writes_uint(2)]
    writes_seq[OF writes_bool writes_uint(3)] writes_seq[OF writes_bool writes_uint(4)]
  by (simp_all add: exi_basetypes_encoder_integer_8_def exi_basetypes_encoder_integer_16_def
      exi_basetypes_encoder_integer_32_def exi_basetypes_encoder_integer_64_def integer_code_def
      magnitude_code)

text \<open>
  For a magnitude below \<open>2 ^ 63\<close> the additional checks of
  \<^const>\<open>exi_basetypes_decoder_read_magnitude\<close> are implied by the range check.
\<close>

lemma read_magnitude_eq:
  assumes "unsigned_wf u" "max_octets \<le> 10" "unat max_magnitude < 2 ^ 63"
  shows "(if octets_count u > max_octets then throw OCTET_COUNT_LARGER_THAN_TYPE_SUPPORTS
       else if octets_count u = EXI_BASETYPES_UINT64_MAX_OCTETS \<and>
           (octets u ! (EXI_BASETYPES_UINT64_MAX_OCTETS - 1)) AND EXI_BASETYPES_OCTET_SEQ_VALUE_MASK \<noteq> 0
       then throw ENCODED_INTEGER_SIZE_LARGER_THAN_DESTINATION
       else lift_result (exi_basetypes_decoder_fold_unsigned u max_octets max_magnitude)) =
     lift_result (uint_result max_octets (unat max_magnitude) (unsigned_bytes u))"
proof -
  have len: "octets_count u = length (unsigned_bytes u)" by (simp add: length_unsigned_bytes[OF assms(1)])
  have "octets_count u = 10 \<and> (octets u ! (10 - 1)) AND 0x7F \<noteq> 0 \<longleftrightarrow> 2 ^ 63 \<le> wire_val (unsigned_bytes u)"
    if "octets_count u \<le> max_octets"
    using wire_val_last_octet(2)[of "unsigned_bytes u"] that assms(2) len unsigned_bytes_nth[of 9 u]
    by auto
  with assms(3) show ?thesis
    unfolding fold_unsigned_spec[OF assms(1,2)] uint_result_def
    by (auto simp: len not_less)
qed

lemma reads_read_magnitude:
  assumes "wire_form bs" "length bs \<le> max_octets" "max_octets \<le> 10" "wire_val bs \<le> unat max_magnitude"
    and "unat max_magnitude < 2 ^ 63"
  shows "reads (exi_basetypes_decoder_read_magnitude max_octets max_magnitude) (octets_code bs)
    (of_nat (wire_val bs))"
proof -
  have "length bs \<le> EXI_BASETYPES_MAX_OCTETS_SUPPORTED"
    using assms(2,3) by (simp add: EXI_BASETYPES_MAX_OCTETS_SUPPORTED_def)
  note r = reads_read_unsigned[OF assms(1) this local_wf] and wf = filled_wf[OF local_wf this]
  show ?thesis
    unfolding exi_basetypes_decoder_read_magnitude_def
    by (rule reads_bind_pure[OF r], subst read_magnitude_eq[OF wf assms(3,5)], rule reads_lift)
      (use assms in \<open>simp add: uint_result_def\<close>)
qed

lemma safe_read_magnitude:
  assumes "max_octets \<le> 10" "unat max_magnitude < 2 ^ 63"
  shows "safe_reader (exi_basetypes_decoder_read_magnitude max_octets max_magnitude)"
  unfolding exi_basetypes_decoder_read_magnitude_def
  by (rule safe_bind_yields[OF safe_read_unsigned yields_read_unsigned[OF local_wf]],
      subst read_magnitude_eq[OF _ assms], assumption, rule safe_lift)
    (simp add: uint_result_def)

lemma reads_sign_magnitude:
  fixes v :: "'a::len word"
  assumes "2 ^ (LENGTH('a) - 1) \<le> (128 :: nat) ^ k" "0 < k" "k \<le> 10"
    and "2 ^ (LENGTH('a) - 1) \<le> Suc (unat m)" "unat m < 2 ^ 63" "LENGTH('a) \<le> 64"
  shows "reads (bind exi_basetypes_decoder_bool (\<lambda>sign.
      bind (exi_basetypes_decoder_read_magnitude k m) (\<lambda>w.
        ret (if sign then - ucast w - 1 else ucast w)))) (integer_code v) v"
proof -
  have less: "unat (magnitude v) < 2 ^ (LENGTH('a) - 1)" by (rule magnitude_less)
  have "length (wire_code (unat (magnitude v))) \<le> k"
    by (rule wire_code_length_bound) (use less assms in linarith)+
  then have "reads (exi_basetypes_decoder_read_magnitude k m)
      (octets_code (wire_code (unat (magnitude v)))) (of_nat (unat (magnitude v)))"
    using reads_read_magnitude[of "wire_code (unat (magnitude v))" k m] less assms by simp
  moreover have "ucast (of_nat (unat (magnitude v)) :: u64) = magnitude v"
  proof -
    have "(2 :: nat) ^ (LENGTH('a) - 1) \<le> 2 ^ 64" using assms(6) by (intro power_increasing) auto
    with less have "unat (magnitude v) < 2 ^ LENGTH(64)" by simp
    then show ?thesis by (subst ucast_of_nat_less) simp_all
  qed
  ultimately have "reads (bind (exi_basetypes_decoder_read_magnitude k m) (\<lambda>w.
      ret (if sint v < 0 then - ucast w - 1 else ucast w)))
      (octets_code (wire_code (unat (magnitude v)))) v"
    using magnitude_decode[of v] by (intro reads_bind_ret) auto
  then have "reads (bind exi_basetypes_decoder_bool (\<lambda>sign.
      bind (exi_basetypes_decoder_read_magnitude k m) (\<lambda>w.
        ret (if sign then - ucast w - 1 else ucast w))))
      ([sint v < 0] @ octets_code (wire_code (unat (magnitude v)))) v"
    by (rule reads_bind[OF reads_bool])
  then show ?thesis by (simp add: integer_code_def)
qed

lemma reads_integer [rd_rules]:
  "reads exi_basetypes_decoder_integer_8 (integer_code v8) v8"
  "reads exi_basetypes_decoder_integer_16 (integer_code v16) v16"
  "reads exi_basetypes_decoder_integer_32 (integer_code v32) v32"
  "reads exi_basetypes_decoder_integer_64 (integer_code v64) v64"
  using reads_sign_magnitude[of 2 "0x7F" v8] reads_sign_magnitude[of 3 "0x7FFF" v16]
    reads_sign_magnitude[of 5 "0x7FFFFFFF" v32] reads_sign_magnitude[of 10 "0x7FFFFFFFFFFFFFFF" v64, unfolded ucast_id]
  by (simp_all add: exi_basetypes_decoder_integer_8_def exi_basetypes_decoder_integer_16_def
      exi_basetypes_decoder_integer_32_def exi_basetypes_decoder_integer_64_def)

lemma safe_integer [safe_rules]:
  "safe_reader exi_basetypes_decoder_integer_8"
  "safe_reader exi_basetypes_decoder_integer_16"
  "safe_reader exi_basetypes_decoder_integer_32"
  "safe_reader exi_basetypes_decoder_integer_64"
  unfolding exi_basetypes_decoder_integer_8_def exi_basetypes_decoder_integer_16_def
    exi_basetypes_decoder_integer_32_def exi_basetypes_decoder_integer_64_def
  by (intro safe_rules safe_read_magnitude; simp)+

interpretation int8: exi_codec exi_basetypes_encoder_integer_8 exi_basetypes_decoder_integer_8
  integer_code "\<lambda>_. True"
  by unfold_locales (simp_all add: wr_rules rd_rules safe_rules)

interpretation int16: exi_codec exi_basetypes_encoder_integer_16 exi_basetypes_decoder_integer_16
  integer_code "\<lambda>_. True"
  by unfold_locales (simp_all add: wr_rules rd_rules safe_rules)

interpretation int32: exi_codec exi_basetypes_encoder_integer_32 exi_basetypes_decoder_integer_32
  integer_code "\<lambda>_. True"
  by unfold_locales (simp_all add: wr_rules rd_rules safe_rules)

interpretation int64: exi_codec exi_basetypes_encoder_integer_64 exi_basetypes_decoder_integer_64
  integer_code "\<lambda>_. True"
  by unfold_locales (simp_all add: wr_rules rd_rules safe_rules)

section \<open>Integers of up to 29 octets\<close>

lemma shift_down_spec:
  "first + n + left \<le> length os \<Longrightarrow> length (shift_down first left n os) = length os \<and>
    take (n + left) (shift_down first left n os) = take n os @ take left (drop (first + n) os)"
proof (induction left arbitrary: n os)
  case (Suc left)
  let ?os = "os[n := os ! (first + n)]"
  have IH: "length (shift_down first left (n + 1) ?os) = length os"
      "take (n + Suc left) (shift_down first left (n + 1) ?os) =
        take (n + 1) ?os @ take left (drop (first + (n + 1)) ?os)"
    using Suc.IH[of "n + 1" ?os] Suc.prems by simp_all
  have "take (n + 1) ?os = take n os @ [os ! (first + n)]"
    using Suc.prems by (simp add: take_Suc_conv_app_nth)
  moreover have "drop (first + (n + 1)) ?os = drop (first + (n + 1)) os"
    by simp
  moreover have "take (Suc left) (drop (first + n) os) = os ! (first + n) # take left (drop (first + (n + 1)) os)"
    using Suc.prems by (simp add: Cons_nth_drop_Suc[symmetric])
  ultimately show ?case
    using IH by simp
qed simp

lemma decoder_unsigned_cont:
  assumes "unsigned_wf raw" "unsigned_wf v"
  shows "\<exists>u. bind (lift_result (exi_basetypes_convert_bytes_from_unsigned raw (octets v) (length (octets v))))
       (\<lambda>(buf, len).
          let first = exi_basetypes_skip_zeros (take len buf)
          in ret \<lparr>octets = shift_down first (len - first) 0 buf, octets_count = len - first\<rparr>) =
       (ret u :: exi_unsigned_t exi) \<and>
     unsigned_wf u \<and> minimal_bytes (unsigned_bytes u) \<and>
     be_val (unsigned_bytes u) = wire_val (unsigned_bytes raw)"
proof -
  have len29: "length (octets v) = EXI_BASETYPES_MAX_OCTETS_SUPPORTED"
    using assms(2) by (simp add: unsigned_wf_def)
  obtain buf len where r: "exi_basetypes_convert_bytes_from_unsigned raw (octets v) (length (octets v)) = Inr (buf, len)"
      "length buf = length (octets v)" "len \<le> 26" "be_val (take len buf) = wire_val (unsigned_bytes raw)"
    using convert_bytes_from_unsigned_spec[OF assms(1) len29] by metis
  define first where "first = exi_basetypes_skip_zeros (take len buf)"
  have len: "len \<le> length buf" using r(2,3) len29 by (simp add: EXI_BASETYPES_MAX_OCTETS_SUPPORTED_def)
  have f: "first \<le> len" using skip_zeros_le[of "take len buf"] len by (simp add: first_def)
  let ?u = "\<lparr>octets = shift_down first (len - first) 0 buf, octets_count = len - first\<rparr>"
  note sh = shift_down_spec[of first 0 "len - first" buf]
  have "unsigned_bytes ?u = drop first (take len buf)"
    using sh f len by (simp add: unsigned_bytes_def drop_take)
  also have "\<dots> = dropWhile (\<lambda>b. b = 0) (take len buf)"
    by (simp add: first_def skip_zeros_drop)
  finally have ub: "unsigned_bytes ?u = dropWhile (\<lambda>b. b = 0) (take len buf)" .
  have "unsigned_wf ?u"
    using sh f len r len29 by (simp add: unsigned_wf_def EXI_BASETYPES_MAX_OCTETS_SUPPORTED_def)
  moreover have "minimal_bytes (unsigned_bytes ?u)" "be_val (unsigned_bytes ?u) = wire_val (unsigned_bytes raw)"
    unfolding ub by (simp_all add: minimal_dropWhile be_val_dropWhile r(4))
  ultimately show ?thesis
    using r(1) by (intro exI[of _ ?u]) (simp add: Let_def first_def)
qed

text \<open>
  Whatever valid wire form arrives, minimal or padded, the decoder delivers its value as
  minimal big-endian bytes.
\<close>

lemma reads_unsigned:
  assumes "wire_form bs" "length bs \<le> EXI_BASETYPES_MAX_OCTETS_SUPPORTED" "unsigned_wf v"
  shows "\<exists>u. reads (exi_basetypes_decoder_unsigned v) (octets_code bs) u \<and> unsigned_wf u \<and>
    minimal_bytes (unsigned_bytes u) \<and> be_val (unsigned_bytes u) = wire_val bs"
proof -
  obtain u where u: "bind (lift_result (exi_basetypes_convert_bytes_from_unsigned
          (filled exi_unsigned_local bs) (octets v) (length (octets v))))
       (\<lambda>(buf, len).
          let first = exi_basetypes_skip_zeros (take len buf)
          in ret \<lparr>octets = shift_down first (len - first) 0 buf, octets_count = len - first\<rparr>) =
       (ret u :: exi_unsigned_t exi)"
      and ok: "unsigned_wf u" "minimal_bytes (unsigned_bytes u)" "be_val (unsigned_bytes u) = wire_val bs"
    using decoder_unsigned_cont[OF filled_wf[OF local_wf assms(2)] assms(3)] by auto
  have "reads (exi_basetypes_decoder_unsigned v) (octets_code bs) u"
    unfolding exi_basetypes_decoder_unsigned_def
    by (rule reads_bind_ret[OF reads_read_unsigned[OF assms(1,2) local_wf]]) (rule u)
  with ok show ?thesis by blast
qed

lemma safe_unsigned [safe_rules]:
  assumes "unsigned_wf v"
  shows "safe_reader (exi_basetypes_decoder_unsigned v)"
  unfolding exi_basetypes_decoder_unsigned_def
proof (rule safe_bind_yields[OF safe_read_unsigned yields_read_unsigned[OF local_wf]])
  fix u assume "unsigned_wf u"
  from decoder_unsigned_cont[OF this assms] show "safe_reader
      (bind (lift_result (exi_basetypes_convert_bytes_from_unsigned u (octets v) (length (octets v))))
       (\<lambda>(buf, len).
          let first = exi_basetypes_skip_zeros (take len buf)
          in ret \<lparr>octets = shift_down first (len - first) 0 buf, octets_count = len - first\<rparr>))"
    by (metis (no_types, lifting) safe_ret)
qed

text \<open>
  The values the encoder can handle: minimal bytes whose wire form needs neither more than 29
  octets nor bits beyond the first byte (\<open>convert_bytes_to_unsigned_spec\<close>).
\<close>

definition encodable :: "byte list \<Rightarrow> bool" where
  "encodable bs \<longleftrightarrow> minimal_bytes bs \<and> (bs \<noteq> [] \<longrightarrow>
     7 * length (wire_code (be_val bs)) \<le> 8 * length bs \<and>
     length (wire_code (be_val bs)) \<le> EXI_BASETYPES_MAX_OCTETS_SUPPORTED)"

lemma wire_code_encodable: "encodable bs \<Longrightarrow> length (wire_code (be_val bs)) \<le> EXI_BASETYPES_MAX_OCTETS_SUPPORTED"
  by (cases bs) (auto simp: encodable_def wire_code.simps[of 0] EXI_BASETYPES_MAX_OCTETS_SUPPORTED_def)

lemma writes_unsigned [wr_rules]:
  assumes "unsigned_wf v" "encodable (unsigned_bytes v)"
  shows "writes (exi_basetypes_encoder_unsigned v) (octets_code (wire_code (be_val (unsigned_bytes v))))"
proof -
  have "be_val (unsigned_bytes v) = 0 \<or>
      7 * length (wire_code (be_val (unsigned_bytes v))) \<le> 8 * length (unsigned_bytes v) \<and>
      length (wire_code (be_val (unsigned_bytes v))) \<le> EXI_BASETYPES_MAX_OCTETS_SUPPORTED"
    using assms(2) by (cases "unsigned_bytes v = []") (auto simp: encodable_def)
  then obtain u where "exi_basetypes_convert_bytes_to_unsigned (unsigned_bytes v) exi_unsigned_local = (Inr (), u)"
      "unsigned_wf u" "unsigned_bytes u = wire_code (be_val (unsigned_bytes v))"
    using convert_bytes_to_unsigned_spec[OF local_wf, of "unsigned_bytes v"] by auto
  with assms(1) writes_write_unsigned[of u] show ?thesis
    by (auto simp: exi_basetypes_encoder_unsigned_def unsigned_wf_def)
qed

text \<open>
  The pair as a codec on byte strings: \<open>unsigned_of_bytes\<close> is the structure an application
  fills in, \<^const>\<open>unsigned_bytes\<close> what it reads from a decoded one.
\<close>

definition unsigned_of_bytes :: "byte list \<Rightarrow> exi_unsigned_t" where
  "unsigned_of_bytes bs =
     \<lparr>octets = bs @ replicate (EXI_BASETYPES_MAX_OCTETS_SUPPORTED - length bs) 0, octets_count = length bs\<rparr>"

lemma unsigned_of_bytes_simps [simp]:
  "unsigned_bytes (unsigned_of_bytes bs) = bs"
  "length bs \<le> EXI_BASETYPES_MAX_OCTETS_SUPPORTED \<Longrightarrow> unsigned_wf (unsigned_of_bytes bs)"
  by (simp_all add: unsigned_of_bytes_def unsigned_bytes_def unsigned_wf_def)

lemma encodable_length: "encodable bs \<Longrightarrow> length bs \<le> EXI_BASETYPES_MAX_OCTETS_SUPPORTED"
proof -
  assume e: "encodable bs"
  have "be_val bs < 256 ^ 26"
  proof (cases "bs = []")
    case False
    have "length (wire_code (be_val bs)) \<le> Suc 28"
      using wire_code_encodable[OF e] by (simp add: EXI_BASETYPES_MAX_OCTETS_SUPPORTED_def)
    then have "be_val bs < 128 ^ Suc 28" by (simp only: wire_code_length_le)
    then show ?thesis by simp
  qed simp
  then have "length (dropWhile (\<lambda>b. b = 0) bs) \<le> 26" by (simp only: significant_bytes_le)
  moreover have "dropWhile (\<lambda>b. b = 0) bs = bs"
    using e by (cases bs) (auto simp: encodable_def minimal_bytes_def)
  ultimately show ?thesis by (simp add: EXI_BASETYPES_MAX_OCTETS_SUPPORTED_def)
qed

definition decode_unsigned_bytes :: "byte list exi" where
  "decode_unsigned_bytes =
     bind (exi_basetypes_decoder_unsigned exi_unsigned_local) (\<lambda>u. ret (unsigned_bytes u))"

interpretation unsigned: exi_codec "\<lambda>bs. exi_basetypes_encoder_unsigned (unsigned_of_bytes bs)"
  decode_unsigned_bytes "\<lambda>bs. octets_code (wire_code (be_val bs))" encodable
proof unfold_locales
  fix bs assume e: "encodable bs"
  then show "writes (exi_basetypes_encoder_unsigned (unsigned_of_bytes bs)) (octets_code (wire_code (be_val bs)))"
    using writes_unsigned[of "unsigned_of_bytes bs"] encodable_length by simp
  obtain u where u: "reads (exi_basetypes_decoder_unsigned exi_unsigned_local)
      (octets_code (wire_code (be_val bs))) u" "minimal_bytes (unsigned_bytes u)"
      "be_val (unsigned_bytes u) = be_val bs"
    using reads_unsigned[OF wire_form_wire_code wire_code_encodable[OF e] local_wf] by auto
  have "unsigned_bytes u = bs"
    using minimal_bytes_unique u(2,3) e by (metis encodable_def)
  with u(1) show "reads decode_unsigned_bytes (octets_code (wire_code (be_val bs))) bs"
    unfolding decode_unsigned_bytes_def by (auto intro: reads_bind_ret)
next
  show "safe_reader decode_unsigned_bytes"
    unfolding decode_unsigned_bytes_def by (intro safe_rules local_wf)
qed

lemma decoder_signed_cont:
  assumes "unsigned_wf raw" "signed_wf v"
  shows "\<exists>u. bind (lift_result (exi_basetypes_convert_bytes_from_unsigned raw (octets (sdata v)) (length (octets raw))))
       (\<lambda>(buf, len). ret \<lparr>sdata = \<lparr>octets = buf, octets_count = len\<rparr>, is_negative = sign\<rparr>) =
         (ret \<lparr>sdata = u, is_negative = sign\<rparr> :: exi_signed_t exi) \<and> unsigned_wf u \<and>
     (wire_minimal (unsigned_bytes raw) \<longrightarrow> minimal_bytes (unsigned_bytes u)) \<and>
     be_val (unsigned_bytes u) = wire_val (unsigned_bytes raw)"
proof -
  have len: "length (octets (sdata v)) = EXI_BASETYPES_MAX_OCTETS_SUPPORTED"
      "length (octets raw) = length (octets (sdata v))"
    using assms by (simp_all add: unsigned_wf_def signed_wf_def)
  obtain buf n where "exi_basetypes_convert_bytes_from_unsigned raw (octets (sdata v)) (length (octets raw)) = Inr (buf, n)"
      "length buf = length (octets (sdata v))" "n \<le> 26" "be_val (take n buf) = wire_val (unsigned_bytes raw)"
      "wire_minimal (unsigned_bytes raw) \<longrightarrow> minimal_bytes (take n buf)"
    using convert_bytes_from_unsigned_spec[OF assms(1) len(1)] len(2) by metis
  then show ?thesis
    using len by (intro exI[of _ "\<lparr>octets = buf, octets_count = n\<rparr>"])
      (simp add: unsigned_wf_def unsigned_bytes_def EXI_BASETYPES_MAX_OCTETS_SUPPORTED_def)
qed

definition signed_code :: "exi_signed_t \<Rightarrow> bool list" where
  "signed_code v = is_negative v # octets_code (wire_code (be_val (unsigned_bytes (sdata v))))"

lemma writes_signed [wr_rules]:
  "signed_wf v \<Longrightarrow> encodable (unsigned_bytes (sdata v)) \<Longrightarrow>
    writes (exi_basetypes_encoder_signed v) (signed_code v)"
  using writes_seq[OF writes_bool[of "is_negative v"] writes_unsigned[of "sdata v"]]
  by (simp add: exi_basetypes_encoder_signed_def signed_code_def signed_wf_def)

lemma safe_signed [safe_rules]:
  assumes "signed_wf v"
  shows "safe_reader (exi_basetypes_decoder_signed v)"
proof -
  have "safe_reader (bind (lift_result (exi_basetypes_convert_bytes_from_unsigned raw (octets (sdata v)) (length (octets raw))))
       (\<lambda>(buf, len). ret \<lparr>sdata = \<lparr>octets = buf, octets_count = len\<rparr>, is_negative = sign\<rparr>))"
    if "unsigned_wf raw" for raw sign
    using decoder_signed_cont[OF that assms, of sign] by (metis (no_types, lifting) safe_ret)
  note cont = this
  show ?thesis
    unfolding exi_basetypes_decoder_signed_def
    by (rule safe_bind[OF safe_bool],
        rule safe_bind_yields[OF safe_read_unsigned yields_read_unsigned[OF local_wf]], erule cont)
qed

text \<open>A signed structure survives encoding and decoding up to the unused octets of its array.\<close>

lemma reads_signed:
  assumes "signed_wf v" "encodable (unsigned_bytes (sdata x))"
  shows "\<exists>y. reads (exi_basetypes_decoder_signed v) (signed_code x) y \<and> signed_wf y \<and>
    is_negative y = is_negative x \<and> unsigned_bytes (sdata y) = unsigned_bytes (sdata x)"
proof -
  let ?w = "wire_code (be_val (unsigned_bytes (sdata x)))"
  note len = wire_code_encodable[OF assms(2)]
  obtain u where u: "bind (lift_result (exi_basetypes_convert_bytes_from_unsigned (filled exi_unsigned_local ?w)
          (octets (sdata v)) (length (octets (filled exi_unsigned_local ?w)))))
       (\<lambda>(buf, len). ret \<lparr>sdata = \<lparr>octets = buf, octets_count = len\<rparr>, is_negative = is_negative x\<rparr>) =
         (ret \<lparr>sdata = u, is_negative = is_negative x\<rparr> :: exi_signed_t exi)" "unsigned_wf u"
     "minimal_bytes (unsigned_bytes u)" "be_val (unsigned_bytes u) = be_val (unsigned_bytes (sdata x))"
    using decoder_signed_cont[OF filled_wf[OF local_wf len] assms(1), of "is_negative x"] by auto
  let ?y = "\<lparr>sdata = u, is_negative = is_negative x\<rparr>"
  have "reads (exi_basetypes_decoder_signed v) ([is_negative x] @ octets_code ?w) ?y"
    unfolding exi_basetypes_decoder_signed_def
    by (rule reads_bind[OF reads_bool], rule reads_bind_ret[OF reads_read_unsigned[OF _ len local_wf]])
      (rule wire_form_wire_code u(1))+
  moreover have "unsigned_bytes u = unsigned_bytes (sdata x)"
    using minimal_bytes_unique u(3,4) assms(2) by (metis encodable_def)
  ultimately show ?thesis
    using u(2) by (intro exI[of _ ?y]) (simp add: signed_code_def signed_wf_def)
qed

section \<open>Simple elements and the header\<close>

lemma nbit_zero: "reads (exi_basetypes_decoder_nbit_uint 1) [False] 0"
  using reads_nbit_uint[of 1 0] by (simp add: word_bits_def)

lemma reads_simple_element [rd_rules]:
  assumes "reads m bs x"
  shows "reads (simple_element m) ([False] @ bs @ [False]) x"
proof -
  have "reads (bind (exi_basetypes_decoder_nbit_uint 1) (\<lambda>eventCode.
      if eventCode \<noteq> 0 then throw DEVIANTS_NOT_SUPPORTED else ret x)) [False] x"
    by (rule reads_bind_ret[OF nbit_zero]) simp
  then have "reads (bind m (\<lambda>v. bind (exi_basetypes_decoder_nbit_uint 1) (\<lambda>eventCode.
      if eventCode \<noteq> 0 then throw DEVIANTS_NOT_SUPPORTED else ret v))) (bs @ [False]) x"
    by (rule reads_bind[OF assms])
  then show ?thesis
    unfolding simple_element_def by (intro reads_bind[OF nbit_zero]) simp
qed

lemma safe_simple_element [safe_rules]: "safe_reader m \<Longrightarrow> safe_reader (simple_element m)"
  unfolding simple_element_def by (intro safe_rules) simp_all

lemma writes_header [wr_rules]: "writes exi_header_write (word_bits 8 (0x80 :: byte))"
proof -
  have "word_bits 8 (0x80 :: u32) = word_bits 8 (0x80 :: byte)" by (simp add: word_bits_def)
  then show ?thesis
    using writes_write_bits[of 8 "0x80"] by (simp add: exi_header_write_def)
qed

lemma reads_header [rd_rules]: "reads exi_header_read_and_check (word_bits 8 (0x80 :: byte)) ()"
proof -
  have "word_bits 8 (0x80 :: byte) = word_bits 8 (0x80 :: u32)" by (simp add: word_bits_def)
  then show ?thesis
    unfolding exi_header_read_and_check_def exi_header_read_def
    by (simp only:) (rule reads_bind_ret[OF reads_read_bits[of 8 "0x80"]], simp_all)
qed

lemma safe_header [safe_rules]: "safe_reader exi_header_read_and_check"
  by (simp add: exi_header_read_and_check_def exi_header_read_def safe_rules)

section \<open>Properties of the basic codecs\<close>

abbreviation (input) empty_stream :: "nat \<Rightarrow> exi_bitstream_t" where
  "empty_stream n \<equiv> exi_bitstream_init (replicate n 0) n 0"

lemma empty_stream_room: "stream_writable (empty_stream n)" "room (empty_stream n) = 8 * n"
  by (simp_all add: init_writable room_def stream_pos_def) (simp add: exi_bitstream_init_def)

text \<open>
  C35: a signed 64-bit integer written at any position of a stream with enough room is read
  back unchanged, and the decoder consumes exactly the bits the encoder wrote.
\<close>

theorem integer_64_roundtrip:
  assumes "stream_writable s" "length (integer_code v) \<le> room s"
  shows "\<exists>s' s''. exi_basetypes_encoder_integer_64 v s = (Inr (), s') \<and>
    exi_basetypes_decoder_integer_64 (rewind s s') = (Inr v, s'') \<and> stream_pos s'' = stream_pos s'"
  using int64.roundtrip[OF TrueI assms] .

theorem integer_64_roundtrip_witness:
  "\<exists>s' s''. exi_basetypes_encoder_integer_64 (- 300) (empty_stream 4) = (Inr (), s') \<and>
    exi_basetypes_decoder_integer_64 (rewind (empty_stream 4) s') = (Inr (- 300), s'') \<and>
    stream_pos s'' = stream_pos s'"
  by (rule integer_64_roundtrip)
    (simp_all add: empty_stream_room integer_code_def magnitude_def not_eq_complement wire_code.simps)

text \<open>
  C34: what the decoders of 8-, 16- and 32-bit unsigned integers return on any octet sequence
  with correct continuation flags, padded or not: the value, or the error for too many octets,
  or the error for a value that the type cannot hold.
\<close>

theorem uint_decoders_exact:
  assumes "wire_form bs" "length bs \<le> EXI_BASETYPES_MAX_OCTETS_SUPPORTED"
    and "stream_wf s" "prefix (octets_code bs) (unread s)"
  shows "fst (exi_basetypes_decoder_uint_8 s) = uint_result 2 (2 ^ 8 - 1) bs \<and>
    fst (exi_basetypes_decoder_uint_16 s) = uint_result 3 (2 ^ 16 - 1) bs \<and>
    fst (exi_basetypes_decoder_uint_32 s) = uint_result 5 (2 ^ 32 - 1) bs"
  by (simp add: decoder_uint_eq read_uint_result[OF assms(1,2) _ assms(3,4)])

theorem uint_decoders_exact_witness:
  "fst (exi_basetypes_decoder_uint_8 (exi_bitstream_init [0xAC, 2] 2 0)) =
     Inl ENCODED_INTEGER_SIZE_LARGER_THAN_DESTINATION \<and>
   fst (exi_basetypes_decoder_uint_16 (exi_bitstream_init [0xAC, 2] 2 0)) = Inr 300"
proof -
  let ?s = "exi_bitstream_init [0xAC, 2] 2 0"
  have "wire_form [0xAC, 2]" by (simp add: wire_form_def)
  moreover have "prefix (octets_code [0xAC, 2]) (unread ?s)" "stream_wf ?s"
    by (simp_all add: unread_def exi_bitstream_init_def stream_pos_def stream_bit_def word_bits_def upt_rec
        stream_wf_def)
  ultimately show ?thesis
    using uint_decoders_exact[of "[0xAC, 2]" ?s]
    by (simp add: EXI_BASETYPES_MAX_OCTETS_SUPPORTED_def uint_result_def)
qed

text \<open>
  C36: the unsigned integer encoder never touches a byte before the cursor or at and after the
  end of the stream. It succeeds exactly when the code fits and reports an overflow otherwise.
\<close>

theorem uint_64_encoder_contained:
  assumes "stream_writable s"
  shows "\<exists>r s'. exi_basetypes_encoder_uint_64 v s = (r, s') \<and> stays_inside s s' \<and>
    r = (if 8 * length (wire_code (unat v)) \<le> room s then Inr () else Inl BITSTREAM_OVERFLOW)"
  using writes_stays_inside[OF writes_uint(4) assms] by simp

theorem uint_64_encoder_contained_witness:
  "\<exists>r s'. exi_basetypes_encoder_uint_64 (2 ^ 20) (empty_stream 2) = (r, s') \<and> stays_inside (empty_stream 2) s' \<and>
    r = Inl BITSTREAM_OVERFLOW"
  using uint_64_encoder_contained[OF empty_stream_room(1), of "2 ^ 20" 2]
  by (simp only: empty_stream_room) (simp add: wire_code.simps)

text \<open>
  C37: the decoder of arbitrary-size unsigned integers delivers the value of any octet sequence
  with correct continuation flags as minimal big-endian bytes, zero padding removed, and leaves
  the stream right after the sequence.
\<close>

theorem unsigned_decoder_normalises:
  assumes "wire_form bs" "length bs \<le> EXI_BASETYPES_MAX_OCTETS_SUPPORTED" "unsigned_wf v"
    and "stream_wf s" "prefix (octets_code bs) (unread s)"
  shows "\<exists>u s'. exi_basetypes_decoder_unsigned v s = (Inr u, s') \<and>
    be_val (unsigned_bytes u) = wire_val bs \<and> minimal_bytes (unsigned_bytes u) \<and>
    stream_pos s' = stream_pos s + 8 * length bs"
proof -
  obtain u where u: "reads (exi_basetypes_decoder_unsigned v) (octets_code bs) u"
      "minimal_bytes (unsigned_bytes u)" "be_val (unsigned_bytes u) = wire_val bs"
    using reads_unsigned[OF assms(1-3)] by blast
  with readsE[OF u(1) assms(4,5)] show ?thesis by (metis length_octets_code)
qed

theorem unsigned_decoder_normalises_witness:
  "\<exists>u s'. exi_basetypes_decoder_unsigned exi_unsigned_local (exi_bitstream_init [0x85, 0x80, 0] 3 0) = (Inr u, s') \<and>
    be_val (unsigned_bytes u) = 5 \<and> minimal_bytes (unsigned_bytes u) \<and> stream_pos s' = 24"
proof -
  let ?s = "exi_bitstream_init [0x85, 0x80, 0] 3 0"
  have "wire_form [0x85, 0x80, 0]" by (simp add: wire_form_def)
  moreover have "prefix (octets_code [0x85, 0x80, 0]) (unread ?s)" "stream_wf ?s" "stream_pos ?s = 0"
    by (simp_all add: unread_def exi_bitstream_init_def stream_pos_def stream_bit_def word_bits_def upt_rec
        stream_wf_def)
  ultimately show ?thesis
    using unsigned_decoder_normalises[of "[0x85, 0x80, 0]" exi_unsigned_local ?s]
    by (simp add: EXI_BASETYPES_MAX_OCTETS_SUPPORTED_def)
qed

end
