(* ===== verification/Exi_Grammar.thy ===== *)
theory Exi_Grammar
  imports Exi_Basetypes_Codec
begin

text \<open>
  The shape that all message encoders and decoders of libcbv2g share: a loop
  \<^verbatim>\<open>while (!done) switch (grammar_id)\<close> whose body handles one event of the EXI grammar, picks
  the next grammar and sets \<^verbatim>\<open>done\<close> at the end of the element or on an error. The body is a
  step function from the grammar id and the local state to the next grammar id, the flag and
  the new local state. The loop is bounded by \<open>fuel\<close>; running out of it is
  \<^const>\<open>LOOP_BOUND_REACHED\<close>, and a rank that every step decreases shows that this does not
  happen.
\<close>

type_synonym 'x grammar_step = "nat \<Rightarrow> 'x \<Rightarrow> (nat \<times> bool \<times> 'x) exi"

fun grammar_loop :: "nat \<Rightarrow> 'x grammar_step \<Rightarrow> nat \<Rightarrow> 'x \<Rightarrow> 'x exi" where
  "grammar_loop 0 step grammar_id x = throw LOOP_BOUND_REACHED"
| "grammar_loop (Suc fuel) step grammar_id x =
     bind (step grammar_id x) (\<lambda>(grammar_id', done', x').
       if done' then ret x' else grammar_loop fuel step grammar_id' x')"

lemma grammar_loop_numeral:
  "grammar_loop (numeral k) step g x =
     bind (step g x) (\<lambda>(g', done', x'). if done' then ret x' else grammar_loop (pred_numeral k) step g' x')"
  "grammar_loop 1 step g x =
     bind (step g x) (\<lambda>(g', done', x'). if done' then ret x' else grammar_loop 0 step g' x')"
  by (simp_all add: numeral_eq_Suc)

text \<open>\<^verbatim>\<open>switch (eventCode) { case 0: ...; default: error = EXI_ERROR__UNKNOWN_EVENT_CODE; }\<close>\<close>

definition single_event :: "'a exi \<Rightarrow> 'a exi" where
  "single_event m =
     bind (exi_basetypes_decoder_nbit_uint 1) (\<lambda>eventCode.
       if eventCode = 0 then m else throw UNKNOWN_EVENT_CODE)"

section \<open>Composition rules\<close>

lemma bind_if: "bind (if b then m else n) f = (if b then bind m f else bind n f)"
  by simp

lemma yields_if [safe_rules]:
  "(b \<Longrightarrow> yields m P) \<Longrightarrow> (\<not> b \<Longrightarrow> yields n P) \<Longrightarrow> yields (if b then m else n) P"
  by simp

lemma bind_single_event: "bind (single_event m) f = single_event (bind m f)"
  by (simp add: single_event_def bind_assoc bind_if cong: if_cong)

lemma reads_single_event [rd_rules]: "reads m bs x \<Longrightarrow> reads (single_event m) (False # bs) x"
  using reads_bind[OF nbit_zero, of "\<lambda>eventCode. if eventCode = 0 then m else throw UNKNOWN_EVENT_CODE" bs x]
  by (simp add: single_event_def)

lemma safe_single_event [safe_rules]: "safe_reader m \<Longrightarrow> safe_reader (single_event m)"
  unfolding single_event_def by (intro safe_rules) simp_all

lemma yields_single_event: "yields m P \<Longrightarrow> yields (single_event m) P"
  unfolding single_event_def by (intro yields_bind yields_if yields_throw safe_rules)

lemma yields_simple_element: "safe_reader m \<Longrightarrow> yields m P \<Longrightarrow> yields (simple_element m) P"
  unfolding simple_element_def
  by (intro yields_bind yields_if yields_throw yields_ret safe_rules
      yields_bind_yields[of m P]) simp_all

lemmas yields_rules = yields_single_event yields_simple_element yields_throw yields_ret yields_if

text \<open>
  Termination and safety of a loop: the invariant \<open>I\<close> holds at every step, each step is safe
  and decreases the rank unless it is the last one, and the fuel covers the rank.
\<close>

lemma grammar_loop_safe:
  assumes "I g x" "rank g x < fuel"
    and safe: "\<And>g x. I g x \<Longrightarrow> safe_reader (step g x)"
    and post: "\<And>g x. I g x \<Longrightarrow> yields (step g x) (\<lambda>(g', d, x').
      if d then Q x' else I g' x' \<and> rank g' x' < rank g x)"
  shows "safe_reader (grammar_loop fuel step g x) \<and> yields (grammar_loop fuel step g x) Q"
  using assms(1,2)
proof (induction fuel arbitrary: g x)
  case 0
  then show ?case by simp
next
  case (Suc fuel)
  let ?P = "\<lambda>(g', d, x'). if d then Q x' else I g' x' \<and> rank g' x' < rank g x"
  have "safe_reader (case r of (g', d, x') \<Rightarrow> if d then ret x' else grammar_loop fuel step g' x') \<and>
      yields (case r of (g', d, x') \<Rightarrow> if d then ret x' else grammar_loop fuel step g' x') Q"
    if "?P r" for r
    using that Suc by (cases r) (auto simp: safe_ret yields_ret)
  then show ?case
    unfolding grammar_loop.simps
    by (intro conjI safe_bind_yields[OF safe[OF Suc.prems(1)] post[OF Suc.prems(1)]]
        yields_bind_yields[OF safe[OF Suc.prems(1)] post[OF Suc.prems(1)]]) blast+
qed

end
