(* ===== verification/AppHand.thy ===== *)
theory AppHand
  imports Exi_Grammar
begin

text \<open>
  The messages of the supported-application-protocol handshake (ISO 15118-2, the first
  exchange between car and charger): data, encoder and decoder of
  \<^verbatim>\<open>lib/everest/cbv2g/lib/cbv2g/app_handshake\<close>. Each C function is a grammar loop
  (\<^const>\<open>grammar_loop\<close>); its step function is the \<^verbatim>\<open>switch\<close>. The codes \<open>doc_code\<close> etc. state
  the bit layout of the messages independently of the loops, and the locale \<open>exi_message\<close> is
  interpreted on the document encoder and decoder.
\<close>

section \<open>Data\<close>

definition appHand_ProtocolNamespace_CHARACTER_SIZE :: nat where
  "appHand_ProtocolNamespace_CHARACTER_SIZE = 100"

definition appHand_AppProtocolType_5_ARRAY_SIZE :: nat where
  "appHand_AppProtocolType_5_ARRAY_SIZE = 5"

record appHand_AppProtocolType =
  ProtocolNamespace_characters :: "byte list"
  ProtocolNamespace_charactersLen :: u16
  VersionNumberMajor :: u32
  VersionNumberMinor :: u32
  SchemaID :: byte
  Priority :: byte

text \<open>
  Array lengths and indices stay below 21 (the loops leave the element list at 20), so they
  are natural numbers here.
\<close>

record appHand_supportedAppProtocolReq =
  AppProtocol_array :: "appHand_AppProtocolType list"
  AppProtocol_arrayLen :: nat

text \<open>
  \<open>ResponseCode\<close> is a C enumeration with the values 0 to 2; the decoder stores whatever two
  bits it reads, so the field is kept as a word.
\<close>

abbreviation (input) OK_SuccessfulNegotiation :: u32 where
  "OK_SuccessfulNegotiation \<equiv> 0"

abbreviation (input) OK_SuccessfulNegotiationWithMinorDeviation :: u32 where
  "OK_SuccessfulNegotiationWithMinorDeviation \<equiv> 1"

abbreviation (input) Failed_NoNegotiation :: u32 where
  "Failed_NoNegotiation \<equiv> 2"

record appHand_supportedAppProtocolRes =
  ResponseCode :: u32
  Res_SchemaID :: byte
  SchemaID_isUsed :: bool

text \<open>
  The two messages share their memory in a C union. The codec accesses only the one whose flag
  is set, so they are separate fields here. The handshake handler reads the request without
  looking at its flag; a response in the same memory lies in front of \<^verbatim>\<open>arrayLen\<close> and leaves it
  as it was, so that the number of offers is the same as with separate fields.
\<close>

record appHand_exiDocument =
  supportedAppProtocolReq :: appHand_supportedAppProtocolReq
  supportedAppProtocolRes :: appHand_supportedAppProtocolRes
  supportedAppProtocolReq_isUsed :: bool
  supportedAppProtocolRes_isUsed :: bool

definition init_appHand_exiDocument :: "appHand_exiDocument \<Rightarrow> appHand_exiDocument" where
  "init_appHand_exiDocument exiDoc =
     exiDoc\<lparr>supportedAppProtocolReq_isUsed := False, supportedAppProtocolRes_isUsed := False\<rparr>"

definition init_appHand_AppProtocolType :: "appHand_AppProtocolType \<Rightarrow> appHand_AppProtocolType" where
  "init_appHand_AppProtocolType x = x"

definition init_appHand_supportedAppProtocolReq ::
    "appHand_supportedAppProtocolReq \<Rightarrow> appHand_supportedAppProtocolReq" where
  "init_appHand_supportedAppProtocolReq x = x\<lparr>AppProtocol_arrayLen := 0\<rparr>"

definition init_appHand_supportedAppProtocolRes ::
    "appHand_supportedAppProtocolRes \<Rightarrow> appHand_supportedAppProtocolRes" where
  "init_appHand_supportedAppProtocolRes x = x\<lparr>SchemaID_isUsed := False\<rparr>"

section \<open>Encoder\<close>

definition encode_AppProtocolType_step :: "appHand_AppProtocolType \<Rightarrow> unit grammar_step" where
  "encode_AppProtocolType_step x grammar_id _ =
     (if grammar_id = 0 then
        seq (exi_basetypes_encoder_nbit_uint 1 0)
        (seq (exi_basetypes_encoder_nbit_uint 1 0)
        (seq (exi_basetypes_encoder_uint_16 (ProtocolNamespace_charactersLen x + 2))
        (seq (exi_basetypes_encoder_characters (unat (ProtocolNamespace_charactersLen x))
               (ProtocolNamespace_characters x) appHand_ProtocolNamespace_CHARACTER_SIZE)
        (seq (exi_basetypes_encoder_nbit_uint 1 0)
          (ret (1, False, ()))))))
      else if grammar_id = 1 then
        seq (exi_basetypes_encoder_nbit_uint 1 0)
        (seq (exi_basetypes_encoder_nbit_uint 1 0)
        (seq (exi_basetypes_encoder_uint_32 (VersionNumberMajor x))
        (seq (exi_basetypes_encoder_nbit_uint 1 0)
          (ret (2, False, ())))))
      else if grammar_id = 2 then
        seq (exi_basetypes_encoder_nbit_uint 1 0)
        (seq (exi_basetypes_encoder_nbit_uint 1 0)
        (seq (exi_basetypes_encoder_uint_32 (VersionNumberMinor x))
        (seq (exi_basetypes_encoder_nbit_uint 1 0)
          (ret (3, False, ())))))
      else if grammar_id = 3 then
        seq (exi_basetypes_encoder_nbit_uint 1 0)
        (seq (exi_basetypes_encoder_nbit_uint 1 0)
        (seq (exi_basetypes_encoder_nbit_uint 8 (ucast (SchemaID x)))
        (seq (exi_basetypes_encoder_nbit_uint 1 0)
          (ret (4, False, ())))))
      else if grammar_id = 4 then
        seq (exi_basetypes_encoder_nbit_uint 1 0)
        (seq (exi_basetypes_encoder_nbit_uint 1 0)
        (seq (exi_basetypes_encoder_nbit_uint 5 (ucast (Priority x) - 1))
        (seq (exi_basetypes_encoder_nbit_uint 1 0)
          (ret (5, False, ())))))
      else if grammar_id = 5 then
        seq (exi_basetypes_encoder_nbit_uint 1 0)
          (ret (6, True, ()))
      else throw UNKNOWN_GRAMMAR_ID)"

text \<open>The grammars are passed in the order 0 to 5, one iteration each.\<close>

definition encode_appHand_AppProtocolType :: "appHand_AppProtocolType \<Rightarrow> unit exi" where
  "encode_appHand_AppProtocolType x = grammar_loop 6 (encode_AppProtocolType_step x) 0 ()"

text \<open>The local state is \<^verbatim>\<open>AppProtocol_currentIndex\<close>.\<close>

definition encode_array_element :: "appHand_supportedAppProtocolReq \<Rightarrow> nat \<Rightarrow> unit exi" where
  "encode_array_element x currentIndex =
     (if currentIndex < length (AppProtocol_array x)
      then encode_appHand_AppProtocolType (AppProtocol_array x ! currentIndex)
      else throw UNDEFINED_BEHAVIOUR)"

definition encode_supportedAppProtocolReq_step :: "appHand_supportedAppProtocolReq \<Rightarrow> nat grammar_step" where
  "encode_supportedAppProtocolReq_step x grammar_id currentIndex =
     (if grammar_id = 7 then
        (if currentIndex < AppProtocol_arrayLen x then
           seq (exi_basetypes_encoder_nbit_uint 1 0)
           (seq (encode_array_element x currentIndex)
             (ret (8, False, currentIndex + 1)))
         else throw UNKNOWN_EVENT_CODE)
      else if grammar_id = 8 then
        (if currentIndex < AppProtocol_arrayLen x then
           seq (exi_basetypes_encoder_nbit_uint 2 0)
           (seq (encode_array_element x currentIndex)
             (ret (if currentIndex + 1 < 20 then 8 else 5, False, currentIndex + 1)))
         else
           seq (exi_basetypes_encoder_nbit_uint 2 1)
             (ret (6, True, currentIndex)))
      else if grammar_id = 5 then
        seq (exi_basetypes_encoder_nbit_uint 1 0)
          (ret (6, True, currentIndex))
      else throw UNKNOWN_GRAMMAR_ID)"

text \<open>At most 20 elements are sent, each in one iteration, and the end takes one more.\<close>

definition encode_appHand_supportedAppProtocolReq :: "appHand_supportedAppProtocolReq \<Rightarrow> unit exi" where
  "encode_appHand_supportedAppProtocolReq x =
     bind (grammar_loop 21 (encode_supportedAppProtocolReq_step x) 7 0) (\<lambda>_. ret ())"

definition encode_supportedAppProtocolRes_step :: "appHand_supportedAppProtocolRes \<Rightarrow> unit grammar_step" where
  "encode_supportedAppProtocolRes_step x grammar_id _ =
     (if grammar_id = 9 then
        seq (exi_basetypes_encoder_nbit_uint 1 0)
        (seq (exi_basetypes_encoder_nbit_uint 1 0)
        (seq (exi_basetypes_encoder_nbit_uint 2 (ResponseCode x))
        (seq (exi_basetypes_encoder_nbit_uint 1 0)
          (ret (10, False, ())))))
      else if grammar_id = 10 then
        (if SchemaID_isUsed x then
           seq (exi_basetypes_encoder_nbit_uint 2 0)
           (seq (exi_basetypes_encoder_nbit_uint 1 0)
           (seq (exi_basetypes_encoder_nbit_uint 8 (ucast (Res_SchemaID x)))
           (seq (exi_basetypes_encoder_nbit_uint 1 0)
             (ret (5, False, ())))))
         else
           seq (exi_basetypes_encoder_nbit_uint 2 1)
             (ret (6, True, ())))
      else if grammar_id = 5 then
        seq (exi_basetypes_encoder_nbit_uint 1 0)
          (ret (6, True, ()))
      else throw UNKNOWN_GRAMMAR_ID)"

definition encode_appHand_supportedAppProtocolRes :: "appHand_supportedAppProtocolRes \<Rightarrow> unit exi" where
  "encode_appHand_supportedAppProtocolRes x = grammar_loop 3 (encode_supportedAppProtocolRes_step x) 9 ()"

definition encode_appHand_exiDocument :: "appHand_exiDocument \<Rightarrow> unit exi" where
  "encode_appHand_exiDocument exiDoc =
     seq exi_header_write
       (if supportedAppProtocolReq_isUsed exiDoc then
          seq (exi_basetypes_encoder_nbit_uint 2 0)
              (encode_appHand_supportedAppProtocolReq (supportedAppProtocolReq exiDoc))
        else if supportedAppProtocolRes_isUsed exiDoc then
          seq (exi_basetypes_encoder_nbit_uint 2 1)
              (encode_appHand_supportedAppProtocolRes (supportedAppProtocolRes exiDoc))
        else throw UNKNOWN_EVENT_FOR_ENCODING)"

section \<open>Decoder\<close>

definition decode_ProtocolNamespace :: "appHand_AppProtocolType \<Rightarrow> appHand_AppProtocolType exi" where
  "decode_ProtocolNamespace x =
     simple_element (bind exi_basetypes_decoder_uint_16 (\<lambda>charactersLen.
       if charactersLen \<ge> 2 then
         bind (exi_basetypes_decoder_characters (unat (charactersLen - 2)) (ProtocolNamespace_characters x)
                appHand_ProtocolNamespace_CHARACTER_SIZE) (\<lambda>characters.
           ret (x\<lparr>ProtocolNamespace_charactersLen := charactersLen - 2,
                  ProtocolNamespace_characters := characters\<rparr>))
       else throw STRINGVALUES_NOT_SUPPORTED))"

definition decode_AppProtocolType_step :: "appHand_AppProtocolType grammar_step" where
  "decode_AppProtocolType_step grammar_id x =
     (if grammar_id = 0 then
        single_event (bind (decode_ProtocolNamespace x) (\<lambda>x. ret (1, False, x)))
      else if grammar_id = 1 then
        single_event (bind decode_exi_type_uint32 (\<lambda>v. ret (2, False, x\<lparr>VersionNumberMajor := v\<rparr>)))
      else if grammar_id = 2 then
        single_event (bind decode_exi_type_uint32 (\<lambda>v. ret (3, False, x\<lparr>VersionNumberMinor := v\<rparr>)))
      else if grammar_id = 3 then
        single_event (bind (simple_element (exi_basetypes_decoder_nbit_uint 8)) (\<lambda>v.
          ret (4, False, x\<lparr>SchemaID := ucast v\<rparr>)))
      else if grammar_id = 4 then
        single_event (bind (simple_element (exi_basetypes_decoder_nbit_uint 5)) (\<lambda>v.
          ret (5, False, x\<lparr>Priority := ucast (v + 1)\<rparr>)))
      else if grammar_id = 5 then
        single_event (ret (6, True, x))
      else throw UNKNOWN_GRAMMAR_ID)"

definition decode_appHand_AppProtocolType :: "appHand_AppProtocolType \<Rightarrow> appHand_AppProtocolType exi" where
  "decode_appHand_AppProtocolType x =
     grammar_loop 6 decode_AppProtocolType_step 0 (init_appHand_AppProtocolType x)"

definition decode_array_element :: "appHand_supportedAppProtocolReq \<Rightarrow> appHand_supportedAppProtocolReq exi" where
  "decode_array_element x =
     (let n = AppProtocol_arrayLen x
      in if n < appHand_AppProtocolType_5_ARRAY_SIZE then
           (if n < length (AppProtocol_array x) then
              bind (decode_appHand_AppProtocolType (AppProtocol_array x ! n)) (\<lambda>e.
                ret (x\<lparr>AppProtocol_array := (AppProtocol_array x)[n := e], AppProtocol_arrayLen := n + 1\<rparr>))
            else throw UNDEFINED_BEHAVIOUR)
         else throw ARRAY_OUT_OF_BOUNDS)"

definition decode_supportedAppProtocolReq_step :: "appHand_supportedAppProtocolReq grammar_step" where
  "decode_supportedAppProtocolReq_step grammar_id x =
     (if grammar_id = 7 then
        single_event (bind (decode_array_element x) (\<lambda>x. ret (8, False, x)))
      else if grammar_id = 8 then
        bind (exi_basetypes_decoder_nbit_uint 2) (\<lambda>eventCode.
          if eventCode = 0 then
            bind (decode_array_element x) (\<lambda>x.
              ret (if AppProtocol_arrayLen x < 20 then 8 else 5, False, x))
          else if eventCode = 1 then ret (6, True, x)
          else throw UNKNOWN_EVENT_CODE)
      else if grammar_id = 5 then
        single_event (ret (6, True, x))
      else throw UNKNOWN_GRAMMAR_ID)"

text \<open>The array has room for five elements; the sixth is an error, and the end is one more event.\<close>

definition decode_appHand_supportedAppProtocolReq ::
    "appHand_supportedAppProtocolReq \<Rightarrow> appHand_supportedAppProtocolReq exi" where
  "decode_appHand_supportedAppProtocolReq x =
     grammar_loop 7 decode_supportedAppProtocolReq_step 7 (init_appHand_supportedAppProtocolReq x)"

definition decode_supportedAppProtocolRes_step :: "appHand_supportedAppProtocolRes grammar_step" where
  "decode_supportedAppProtocolRes_step grammar_id x =
     (if grammar_id = 9 then
        single_event (bind (simple_element (exi_basetypes_decoder_nbit_uint 2)) (\<lambda>v.
          ret (10, False, x\<lparr>ResponseCode := v\<rparr>)))
      else if grammar_id = 10 then
        bind (exi_basetypes_decoder_nbit_uint 2) (\<lambda>eventCode.
          if eventCode = 0 then
            bind (simple_element (exi_basetypes_decoder_nbit_uint 8)) (\<lambda>v.
              ret (5, False, x\<lparr>Res_SchemaID := ucast v, SchemaID_isUsed := True\<rparr>))
          else if eventCode = 1 then ret (6, True, x)
          else throw UNKNOWN_EVENT_CODE)
      else if grammar_id = 5 then
        single_event (ret (6, True, x))
      else throw UNKNOWN_GRAMMAR_ID)"

definition decode_appHand_supportedAppProtocolRes ::
    "appHand_supportedAppProtocolRes \<Rightarrow> appHand_supportedAppProtocolRes exi" where
  "decode_appHand_supportedAppProtocolRes x =
     grammar_loop 3 decode_supportedAppProtocolRes_step 9 (init_appHand_supportedAppProtocolRes x)"

definition decode_appHand_exiDocument :: "appHand_exiDocument \<Rightarrow> appHand_exiDocument exi" where
  "decode_appHand_exiDocument exiDoc =
     seq exi_header_read_and_check
       (let exiDoc = init_appHand_exiDocument exiDoc
        in bind (exi_basetypes_decoder_nbit_uint 2) (\<lambda>eventCode.
          if eventCode = 0 then
            bind (decode_appHand_supportedAppProtocolReq (supportedAppProtocolReq exiDoc)) (\<lambda>req.
              ret (exiDoc\<lparr>supportedAppProtocolReq := req, supportedAppProtocolReq_isUsed := True\<rparr>))
          else if eventCode = 1 then
            bind (decode_appHand_supportedAppProtocolRes (supportedAppProtocolRes exiDoc)) (\<lambda>res.
              ret (exiDoc\<lparr>supportedAppProtocolRes := res, supportedAppProtocolRes_isUsed := True\<rparr>))
          else throw UNSUPPORTED_SUB_EVENT))"

section \<open>Bit layout of the messages\<close>

text \<open>An element of simple type: start event, content event, content, end event.\<close>

definition element_code :: "bool list \<Rightarrow> bool list" where
  "element_code bs = False # False # bs @ [False]"

definition app_protocol_code :: "appHand_AppProtocolType \<Rightarrow> bool list" where
  "app_protocol_code x =
     element_code (octets_code (wire_code (unat (ProtocolNamespace_charactersLen x) + 2)) @
       octets_code (take (unat (ProtocolNamespace_charactersLen x)) (ProtocolNamespace_characters x))) @
     element_code (octets_code (wire_code (unat (VersionNumberMajor x)))) @
     element_code (octets_code (wire_code (unat (VersionNumberMinor x)))) @
     element_code (word_bits 8 (SchemaID x)) @
     element_code (word_bits 5 (Priority x - 1)) @ [False]"

definition req_elements :: "appHand_supportedAppProtocolReq \<Rightarrow> appHand_AppProtocolType list" where
  "req_elements x = take (AppProtocol_arrayLen x) (AppProtocol_array x)"

text \<open>The first element is announced by one bit, every further one by two; \<open>01\<close> ends the list.\<close>

definition req_code :: "appHand_supportedAppProtocolReq \<Rightarrow> bool list" where
  "req_code x = False # app_protocol_code (hd (req_elements x)) @
     concat (map (\<lambda>e. [False, False] @ app_protocol_code e) (tl (req_elements x))) @ [False, True]"

definition res_code :: "appHand_supportedAppProtocolRes \<Rightarrow> bool list" where
  "res_code x = element_code (word_bits 2 (ResponseCode x)) @
     (if SchemaID_isUsed x
      then False # element_code (word_bits 8 (Res_SchemaID x)) @ [False]
      else [False, True])"

definition doc_code :: "appHand_exiDocument \<Rightarrow> bool list" where
  "doc_code d = word_bits 8 (0x80 :: byte) @
     (if supportedAppProtocolReq_isUsed d then [False, False] @ req_code (supportedAppProtocolReq d)
      else [False, True] @ res_code (supportedAppProtocolRes d))"

section \<open>Valid messages\<close>

definition app_protocol_wf :: "appHand_AppProtocolType \<Rightarrow> bool" where
  "app_protocol_wf x \<longleftrightarrow>
     length (ProtocolNamespace_characters x) = appHand_ProtocolNamespace_CHARACTER_SIZE"

definition app_protocol_valid :: "appHand_AppProtocolType \<Rightarrow> bool" where
  "app_protocol_valid x \<longleftrightarrow> app_protocol_wf x \<and>
     unat (ProtocolNamespace_charactersLen x) < appHand_ProtocolNamespace_CHARACTER_SIZE \<and>
     (\<forall>c \<in> set (take (unat (ProtocolNamespace_charactersLen x)) (ProtocolNamespace_characters x)). c \<le> 127) \<and>
     1 \<le> unat (Priority x) \<and> unat (Priority x) \<le> 32"

definition req_wf :: "appHand_supportedAppProtocolReq \<Rightarrow> bool" where
  "req_wf x \<longleftrightarrow> length (AppProtocol_array x) = appHand_AppProtocolType_5_ARRAY_SIZE \<and>
     (\<forall>e \<in> set (AppProtocol_array x). app_protocol_wf e)"

definition req_valid :: "appHand_supportedAppProtocolReq \<Rightarrow> bool" where
  "req_valid x \<longleftrightarrow> req_wf x \<and> 1 \<le> AppProtocol_arrayLen x \<and>
     AppProtocol_arrayLen x \<le> appHand_AppProtocolType_5_ARRAY_SIZE \<and>
     (\<forall>e \<in> set (req_elements x). app_protocol_valid e)"

definition res_valid :: "appHand_supportedAppProtocolRes \<Rightarrow> bool" where
  "res_valid x \<longleftrightarrow> ResponseCode x \<le> Failed_NoNegotiation"

definition doc_wf :: "appHand_exiDocument \<Rightarrow> bool" where
  "doc_wf d \<longleftrightarrow> req_wf (supportedAppProtocolReq d)"

definition doc_valid :: "appHand_exiDocument \<Rightarrow> bool" where
  "doc_valid d \<longleftrightarrow>
     (if supportedAppProtocolReq_isUsed d
      then \<not> supportedAppProtocolRes_isUsed d \<and> req_valid (supportedAppProtocolReq d)
      else supportedAppProtocolRes_isUsed d \<and> res_valid (supportedAppProtocolRes d))"

text \<open>What a message says: the characters in use, the elements in use, the member in use.\<close>

definition same_app_protocol :: "appHand_AppProtocolType \<Rightarrow> appHand_AppProtocolType \<Rightarrow> bool" where
  "same_app_protocol x y \<longleftrightarrow>
     ProtocolNamespace_charactersLen y = ProtocolNamespace_charactersLen x \<and>
     take (unat (ProtocolNamespace_charactersLen x)) (ProtocolNamespace_characters y) =
       take (unat (ProtocolNamespace_charactersLen x)) (ProtocolNamespace_characters x) \<and>
     VersionNumberMajor y = VersionNumberMajor x \<and> VersionNumberMinor y = VersionNumberMinor x \<and>
     SchemaID y = SchemaID x \<and> Priority y = Priority x"

definition same_req :: "appHand_supportedAppProtocolReq \<Rightarrow> appHand_supportedAppProtocolReq \<Rightarrow> bool" where
  "same_req x y \<longleftrightarrow> list_all2 same_app_protocol (req_elements x) (req_elements y)"

definition same_res :: "appHand_supportedAppProtocolRes \<Rightarrow> appHand_supportedAppProtocolRes \<Rightarrow> bool" where
  "same_res x y \<longleftrightarrow> ResponseCode y = ResponseCode x \<and> SchemaID_isUsed y = SchemaID_isUsed x \<and>
     (SchemaID_isUsed x \<longrightarrow> Res_SchemaID y = Res_SchemaID x)"

definition same_doc :: "appHand_exiDocument \<Rightarrow> appHand_exiDocument \<Rightarrow> bool" where
  "same_doc x y \<longleftrightarrow>
     supportedAppProtocolReq_isUsed y = supportedAppProtocolReq_isUsed x \<and>
     supportedAppProtocolRes_isUsed y = supportedAppProtocolRes_isUsed x \<and>
     (if supportedAppProtocolReq_isUsed x
      then same_req (supportedAppProtocolReq x) (supportedAppProtocolReq y)
      else same_res (supportedAppProtocolRes x) (supportedAppProtocolRes y))"

section \<open>What the encoder writes\<close>

lemma word_bits_events [simp]:
  "word_bits (Suc 0) (0 :: u32) = [False]"
  "word_bits 2 (0 :: u32) = [False, False]"
  "word_bits 2 (1 :: u32) = [False, True]"
  by (simp_all add: word_bits_def numeral_2_eq_2)

lemma writes_event:
  "writes n bs \<Longrightarrow> writes (seq (exi_basetypes_encoder_nbit_uint 1 0) n) (False # bs)"
  "writes n bs \<Longrightarrow> writes (seq (exi_basetypes_encoder_nbit_uint 2 0) n) (False # False # bs)"
  "writes n bs \<Longrightarrow> writes (seq (exi_basetypes_encoder_nbit_uint 2 1) n) (False # True # bs)"
  using writes_seq[OF writes_nbit_uint[of 1 0], of n bs] writes_seq[OF writes_nbit_uint[of 2 0], of n bs]
    writes_seq[OF writes_nbit_uint[of 2 1], of n bs]
  by simp_all

lemma word_bits_byte: "n \<le> 8 \<Longrightarrow> word_bits n (ucast (b :: byte) :: u32) = word_bits n b"
  by (rule word_bits_ucast) simp

lemma priority_pred:
  assumes "1 \<le> unat (p :: byte)"
  shows "ucast p - 1 = (ucast (p - 1) :: u32)"
proof -
  have "p \<noteq> 0" "(ucast p :: u32) \<noteq> 0"
    using assms by (auto simp: unat_eq_zero[symmetric] unat_ucast_up simp del: unat_eq_zero)
  then have "unat (ucast p - 1 :: u32) = unat p - 1" "unat (p - 1) = unat p - 1"
    by (simp_all add: unat_minus_one unat_ucast_up)
  then show ?thesis
    by (intro word_unat_eq_iff[THEN iffD2]) (simp add: unat_ucast_up)
qed

lemma writes_AppProtocolType [wr_rules]:
  assumes "app_protocol_valid x"
  shows "writes (encode_appHand_AppProtocolType x) (app_protocol_code x)"
proof -
  let ?n = "ProtocolNamespace_charactersLen x"
  have n: "unat ?n < 100" "length (ProtocolNamespace_characters x) = 100" and p: "1 \<le> unat (Priority x)"
    using assms by (auto simp: app_protocol_valid_def app_protocol_wf_def appHand_ProtocolNamespace_CHARACTER_SIZE_def)
  have "unat (?n + 2) = unat ?n + 2"
    using n(1) by (simp add: unat_word_ariths)
  then have u: "writes (exi_basetypes_encoder_uint_16 (?n + 2)) (octets_code (wire_code (unat ?n + 2)))"
    using writes_uint(2)[of "?n + 2"] by simp
  have c: "writes (exi_basetypes_encoder_characters (unat ?n) (ProtocolNamespace_characters x)
      appHand_ProtocolNamespace_CHARACTER_SIZE) (octets_code (take (unat ?n) (ProtocolNamespace_characters x)))"
    by (rule writes_characters)
      (use assms n in \<open>auto simp: app_protocol_valid_def appHand_ProtocolNamespace_CHARACTER_SIZE_def\<close>)
  have s: "writes (exi_basetypes_encoder_nbit_uint 8 (ucast (SchemaID x))) (word_bits 8 (SchemaID x))"
    using writes_nbit_uint[of 8 "ucast (SchemaID x)"] by (simp add: word_bits_byte)
  have q: "writes (exi_basetypes_encoder_nbit_uint 5 (ucast (Priority x) - 1)) (word_bits 5 (Priority x - 1))"
    using writes_nbit_uint[of 5 "ucast (Priority x - 1)"] priority_pred[OF p] by (simp add: word_bits_byte)
  have e: "writes (exi_basetypes_encoder_nbit_uint 1 0) [False]"
    using writes_nbit_uint[of 1 0] by simp
  show ?thesis
    unfolding encode_appHand_AppProtocolType_def app_protocol_code_def element_code_def
    by (simp add: grammar_loop_numeral encode_AppProtocolType_step_def bind_assoc
        del: One_nat_def add_2_eq_Suc')
      (intro writes_event writes_seq u c s q e writes_uint)
qed

lemma writes_array_element:
  assumes "req_valid x" "i < AppProtocol_arrayLen x"
  shows "writes (encode_array_element x i) (app_protocol_code (req_elements x ! i))"
proof -
  have i: "i < length (AppProtocol_array x)"
    using assms by (simp add: req_valid_def req_wf_def)
  then have "AppProtocol_array x ! i = req_elements x ! i" "req_elements x ! i \<in> set (req_elements x)"
    using assms(2) by (simp_all add: req_elements_def) (metis length_take min_less_iff_conj nth_mem nth_take)
  with assms(1) i show ?thesis
    by (simp add: encode_array_element_def req_valid_def wr_rules)
qed

lemma length_req_elements: "req_valid x \<Longrightarrow> length (req_elements x) = AppProtocol_arrayLen x"
  by (simp add: req_valid_def req_wf_def req_elements_def)

lemma encode_req_steps:
  "encode_supportedAppProtocolReq_step x 7 i =
     (if i < AppProtocol_arrayLen x then
        seq (exi_basetypes_encoder_nbit_uint 1 0)
        (seq (encode_array_element x i) (ret (8, False, i + 1)))
      else throw UNKNOWN_EVENT_CODE)"
  "encode_supportedAppProtocolReq_step x 8 i =
     (if i < AppProtocol_arrayLen x then
        seq (exi_basetypes_encoder_nbit_uint 2 0)
        (seq (encode_array_element x i)
          (ret (if i + 1 < 20 then 8 else 5, False, i + 1)))
      else seq (exi_basetypes_encoder_nbit_uint 2 1) (ret (6, True, i)))"
  by (simp_all add: encode_supportedAppProtocolReq_step_def)

lemma writes_req_loop:
  assumes "req_valid x" "i \<le> AppProtocol_arrayLen x" "AppProtocol_arrayLen x - i < fuel"
  shows "writes (seq (grammar_loop fuel (encode_supportedAppProtocolReq_step x) 8 i) (ret ()))
    (concat (map (\<lambda>e. [False, False] @ app_protocol_code e) (drop i (req_elements x))) @ [False, True])"
  using assms(2,3)
proof (induction fuel arbitrary: i)
  case (Suc fuel)
  have n: "AppProtocol_arrayLen x \<le> 5"
    using assms(1) by (simp add: req_valid_def appHand_AppProtocolType_5_ARRAY_SIZE_def)
  show ?case
  proof (cases "i < AppProtocol_arrayLen x")
    case True
    have "drop i (req_elements x) = req_elements x ! i # drop (i + 1) (req_elements x)"
      using True length_req_elements[OF assms(1)] by (simp add: Cons_nth_drop_Suc)
    moreover have "i + 1 < 20" using True n by simp
    moreover have "writes (seq (grammar_loop fuel (encode_supportedAppProtocolReq_step x) 8 (i + 1)) (ret ()))
        (concat (map (\<lambda>e. [False, False] @ app_protocol_code e) (drop (i + 1) (req_elements x))) @ [False, True])"
      by (rule Suc.IH) (use True Suc.prems in auto)
    ultimately show ?thesis
      using True writes_array_element[OF assms(1) True]
      by (simp add: encode_req_steps bind_assoc) (intro writes_event writes_seq)
  next
    case False
    with length_req_elements[OF assms(1)] show ?thesis
      by (simp add: encode_req_steps bind_assoc)
        (use writes_event(3)[OF writes_ret] in simp)
  qed
qed simp

lemma writes_supportedAppProtocolReq [wr_rules]:
  assumes "req_valid x"
  shows "writes (encode_appHand_supportedAppProtocolReq x) (req_code x)"
proof -
  have n: "0 < AppProtocol_arrayLen x" "AppProtocol_arrayLen x \<le> 5"
    using assms by (simp_all add: req_valid_def appHand_AppProtocolType_5_ARRAY_SIZE_def)
  then have ne: "req_elements x \<noteq> []"
    using length_req_elements[OF assms] by auto
  have "writes (seq (grammar_loop 20 (encode_supportedAppProtocolReq_step x) 8 1) (ret ()))
      (concat (map (\<lambda>e. [False, False] @ app_protocol_code e) (drop 1 (req_elements x))) @ [False, True])"
    by (rule writes_req_loop) (use assms n in auto)
  with n ne writes_array_element[OF assms n(1)] show ?thesis
    unfolding encode_appHand_supportedAppProtocolReq_def req_code_def
    by (simp add: grammar_loop_numeral(1)[of "num.Bit1 (num.Bit0 (num.Bit1 (num.Bit0 num.One)))"]
        encode_req_steps bind_assoc drop_Suc hd_conv_nth)
      (intro writes_event[simplified] writes_seq; simp)
qed

lemma writes_supportedAppProtocolRes [wr_rules]:
  "writes (encode_appHand_supportedAppProtocolRes x) (res_code x)"
proof -
  have e: "writes (exi_basetypes_encoder_nbit_uint 1 0) [False]"
      "writes (exi_basetypes_encoder_nbit_uint 2 1) [False, True]"
    using writes_nbit_uint[of 1 0] writes_nbit_uint[of 2 1] by simp_all
  have r: "writes (exi_basetypes_encoder_nbit_uint 2 (ResponseCode x)) (word_bits 2 (ResponseCode x))"
    by (rule writes_nbit_uint) simp
  have s: "writes (exi_basetypes_encoder_nbit_uint 8 (ucast (Res_SchemaID x))) (word_bits 8 (Res_SchemaID x))"
    using writes_nbit_uint[of 8 "ucast (Res_SchemaID x)"] by (simp add: word_bits_byte)
  show ?thesis
    unfolding encode_appHand_supportedAppProtocolRes_def res_code_def element_code_def
    by (simp add: grammar_loop_numeral encode_supportedAppProtocolRes_step_def bind_assoc del: One_nat_def)
      (intro conjI impI writes_event writes_seq r s e)
qed

lemma writes_exiDocument:
  assumes "doc_valid d"
  shows "writes (encode_appHand_exiDocument d) (doc_code d)"
  unfolding encode_appHand_exiDocument_def doc_code_def
  by (rule writes_seq[OF writes_header])
    (use assms in \<open>auto simp: doc_valid_def intro!: writes_event wr_rules\<close>)

section \<open>What the decoder reads\<close>

lemma reads_element:
  assumes "reads m bs v" "reads (f v) cs y"
  shows "reads (single_event (bind (simple_element m) f)) (element_code bs @ cs) y"
proof -
  have "reads (bind (simple_element m) f) (([False] @ bs @ [False]) @ cs) y"
    by (rule reads_bind[OF reads_simple_element[OF assms(1)]], rule assms(2))
  from reads_single_event[OF this] show ?thesis by (simp add: element_code_def)
qed

lemma byte_word_byte [simp]: "ucast (ucast b :: u32) = (b :: byte)"
  by (rule word_unat_eq_iff[THEN iffD2], subst unat_ucast_mod, subst unat_ucast_up) simp_all

lemma take_bit_small: "unat (w :: u32) < 2 ^ n \<Longrightarrow> take_bit n w = w"
  by (rule word_unat_eq_iff[THEN iffD2]) (simp add: unsigned_take_bit_eq take_bit_nat_eq_self)

lemma reads_byte: "reads (exi_basetypes_decoder_nbit_uint 8) (word_bits 8 (b :: byte)) (ucast b)"
proof -
  have "unat (ucast b :: u32) < 2 ^ 8" by (simp add: unat_ucast_up)
  then have "take_bit 8 (ucast b :: u32) = ucast b"
    by (rule take_bit_small)
  with reads_nbit_uint[of 8 "ucast b"] show ?thesis by (simp add: word_bits_byte)
qed

lemma reads_priority:
  assumes "1 \<le> unat (p :: byte)" "unat p \<le> 32"
  shows "\<exists>v. reads (exi_basetypes_decoder_nbit_uint 5) (word_bits 5 (p - 1)) v \<and> ucast (v + 1) = p"
proof (intro exI conjI)
  have "p \<noteq> 0" using assms(1) by auto
  then have "unat (p - 1) = unat p - 1" by (simp add: unat_minus_one)
  then have "unat (ucast (p - 1) :: u32) < 2 ^ 5" using assms by (simp add: unat_ucast_up)
  then have "take_bit 5 (ucast (p - 1) :: u32) = ucast (p - 1)"
    by (rule take_bit_small)
  then show "reads (exi_basetypes_decoder_nbit_uint 5) (word_bits 5 (p - 1)) (ucast (p - 1))"
    using reads_nbit_uint[of 5 "ucast (p - 1)"] by (simp add: word_bits_byte)
  show "ucast (ucast (p - 1) + 1 :: u32) = p"
    unfolding priority_pred[OF assms(1), symmetric] by simp
qed

lemma reads_ProtocolNamespace_content:
  assumes "app_protocol_valid x" "app_protocol_wf d"
  defines "n \<equiv> ProtocolNamespace_charactersLen x"
  defines "cs \<equiv> take (unat n) (ProtocolNamespace_characters x)"
  shows "reads (bind exi_basetypes_decoder_uint_16 (\<lambda>charactersLen.
       if charactersLen \<ge> 2 then
         bind (exi_basetypes_decoder_characters (unat (charactersLen - 2)) (ProtocolNamespace_characters d)
                appHand_ProtocolNamespace_CHARACTER_SIZE) (\<lambda>characters.
           ret (d\<lparr>ProtocolNamespace_charactersLen := charactersLen - 2,
                  ProtocolNamespace_characters := characters\<rparr>))
       else throw STRINGVALUES_NOT_SUPPORTED))
     (octets_code (wire_code (unat n + 2)) @ octets_code cs)
     (d\<lparr>ProtocolNamespace_charactersLen := n,
        ProtocolNamespace_characters := cs @ 0 # drop (unat n + 1) (ProtocolNamespace_characters d)\<rparr>)"
proof -
  have n: "unat n < 100" and ascii: "\<forall>c \<in> set cs. c \<le> 127" and cs: "length cs = unat n"
      and d: "length (ProtocolNamespace_characters d) = 100"
    using assms(1,2) unfolding n_def cs_def
    by (auto simp: app_protocol_valid_def app_protocol_wf_def appHand_ProtocolNamespace_CHARACTER_SIZE_def)
  have "unat (n + 2) = unat n + 2" using n by (simp add: unat_word_ariths)
  then have len: "reads exi_basetypes_decoder_uint_16 (octets_code (wire_code (unat n + 2))) (n + 2)"
      and ge: "n + 2 \<ge> 2"
    using reads_uint(2)[of "n + 2"] by (simp_all add: word_le_nat_alt)
  have "reads (exi_basetypes_decoder_characters (unat n) (ProtocolNamespace_characters d)
      appHand_ProtocolNamespace_CHARACTER_SIZE) (octets_code cs)
      (cs @ 0 # drop (unat n + 1) (ProtocolNamespace_characters d))"
    by (rule reads_characters[OF cs])
      (use n d ascii in \<open>auto simp: appHand_ProtocolNamespace_CHARACTER_SIZE_def\<close>)
  then have "reads (bind (exi_basetypes_decoder_characters (unat n) (ProtocolNamespace_characters d)
        appHand_ProtocolNamespace_CHARACTER_SIZE) (\<lambda>characters.
          ret (d\<lparr>ProtocolNamespace_charactersLen := n, ProtocolNamespace_characters := characters\<rparr>)))
      (octets_code cs)
      (d\<lparr>ProtocolNamespace_charactersLen := n,
        ProtocolNamespace_characters := cs @ 0 # drop (unat n + 1) (ProtocolNamespace_characters d)\<rparr>)"
    by (rule reads_bind_ret) (rule refl)
  with ge show ?thesis
    by (intro reads_bind[OF len]) simp
qed

lemma reads_AppProtocolType:
  assumes x: "app_protocol_valid x" and d: "app_protocol_wf d"
  shows "\<exists>y. same_app_protocol x y \<and> app_protocol_wf y \<and>
    reads (decode_appHand_AppProtocolType d) (app_protocol_code x) y"
proof -
  let ?n = "ProtocolNamespace_charactersLen x"
  let ?cs = "take (unat ?n) (ProtocolNamespace_characters x) @ 0 # drop (unat ?n + 1) (ProtocolNamespace_characters d)"
  let ?y = "d\<lparr>ProtocolNamespace_charactersLen := ?n, ProtocolNamespace_characters := ?cs,
    VersionNumberMajor := VersionNumberMajor x, VersionNumberMinor := VersionNumberMinor x,
    SchemaID := SchemaID x, Priority := Priority x\<rparr>"
  obtain v where v: "reads (exi_basetypes_decoder_nbit_uint 5) (word_bits 5 (Priority x - 1)) v"
      "ucast (v + 1) = Priority x"
    using reads_priority[of "Priority x"] x by (auto simp: app_protocol_valid_def)
  have end_event: "reads (single_event (ret ?y)) [False] ?y"
    by (rule reads_single_event[OF reads_ret])
  have "reads (decode_appHand_AppProtocolType d) (app_protocol_code x) ?y"
    unfolding decode_appHand_AppProtocolType_def init_appHand_AppProtocolType_def app_protocol_code_def
    by (simp add: grammar_loop_numeral decode_AppProtocolType_step_def bind_assoc bind_single_event
        decode_exi_type_uint32_def del: One_nat_def add_2_eq_Suc')
      (unfold decode_ProtocolNamespace_def, rule reads_element[OF reads_ProtocolNamespace_content[OF x d]],
       rule reads_element[OF reads_uint(3)], rule reads_element[OF reads_uint(3)],
       rule reads_element[OF reads_byte], rule reads_element[OF v(1)], use end_event v(2) in simp)
  moreover have "same_app_protocol x ?y" "app_protocol_wf ?y"
    using x d by (auto simp: same_app_protocol_def app_protocol_wf_def app_protocol_valid_def)
  ultimately show ?thesis by blast
qed

lemma reads_array_element:
  assumes "app_protocol_valid e" "req_wf d" "AppProtocol_arrayLen d < appHand_AppProtocolType_5_ARRAY_SIZE"
  shows "\<exists>y. same_app_protocol e y \<and> app_protocol_wf y \<and>
    reads (decode_array_element d) (app_protocol_code e)
      (d\<lparr>AppProtocol_array := (AppProtocol_array d)[AppProtocol_arrayLen d := y],
         AppProtocol_arrayLen := AppProtocol_arrayLen d + 1\<rparr>)"
proof -
  let ?n = "AppProtocol_arrayLen d"
  have n: "?n < length (AppProtocol_array d)" using assms(2,3) by (simp add: req_wf_def)
  then have "app_protocol_wf (AppProtocol_array d ! ?n)" using assms(2) by (simp add: req_wf_def)
  then obtain y where y: "same_app_protocol e y" "app_protocol_wf y"
      "reads (decode_appHand_AppProtocolType (AppProtocol_array d ! ?n)) (app_protocol_code e) y"
    using reads_AppProtocolType[OF assms(1)] by blast
  have "reads (decode_array_element d) (app_protocol_code e)
      (d\<lparr>AppProtocol_array := (AppProtocol_array d)[?n := y], AppProtocol_arrayLen := ?n + 1\<rparr>)"
    using n assms(3) by (simp add: decode_array_element_def Let_def) (rule reads_bind_ret[OF y(3)], rule refl)
  with y show ?thesis by blast
qed

lemma req_wf_update: "req_wf d \<Longrightarrow> app_protocol_wf y \<Longrightarrow>
    req_wf (d\<lparr>AppProtocol_array := (AppProtocol_array d)[n := y], AppProtocol_arrayLen := m\<rparr>)"
  by (auto simp: req_wf_def dest!: subsetD[OF set_update_subset_insert])

lemma reads_two_bits:
  "reads (exi_basetypes_decoder_nbit_uint 2) [False, False] 0"
  "reads (exi_basetypes_decoder_nbit_uint 2) [False, True] 1"
  using reads_nbit_uint[of 2 0] reads_nbit_uint[of 2 1] take_bit_small[of 1 2] by simp_all

lemma reads_req_loop:
  assumes "\<forall>e \<in> set es. app_protocol_valid e" "req_wf d" "length es < fuel"
    and "AppProtocol_arrayLen d + length es \<le> appHand_AppProtocolType_5_ARRAY_SIZE"
  shows "\<exists>ys y. list_all2 same_app_protocol es ys \<and> req_wf y \<and> req_elements y = req_elements d @ ys \<and>
    reads (grammar_loop fuel decode_supportedAppProtocolReq_step 8 d)
      (concat (map (\<lambda>e. [False, False] @ app_protocol_code e) es) @ [False, True]) y"
  using assms
proof (induction es arbitrary: d fuel)
  case Nil
  then obtain k where "fuel = Suc k" by (cases fuel) auto
  then have "reads (grammar_loop fuel decode_supportedAppProtocolReq_step 8 d) [False, True] d"
    by (simp add: decode_supportedAppProtocolReq_step_def bind_assoc)
      (rule reads_bind_ret[OF reads_two_bits(2)], simp)
  with Nil show ?case by auto
next
  case (Cons e es)
  then obtain k where k: "fuel = Suc k" by (cases fuel) auto
  let ?n = "AppProtocol_arrayLen d"
  have n: "?n < appHand_AppProtocolType_5_ARRAY_SIZE" "?n + 1 < 20" "?n < length (AppProtocol_array d)"
    using Cons.prems by (simp_all add: appHand_AppProtocolType_5_ARRAY_SIZE_def req_wf_def)
  obtain y where y: "same_app_protocol e y" "app_protocol_wf y"
      "reads (decode_array_element d) (app_protocol_code e)
        (d\<lparr>AppProtocol_array := (AppProtocol_array d)[?n := y], AppProtocol_arrayLen := ?n + 1\<rparr>)"
    using reads_array_element[of e d] Cons.prems n(1) by auto
  let ?d = "d\<lparr>AppProtocol_array := (AppProtocol_array d)[?n := y], AppProtocol_arrayLen := ?n + 1\<rparr>"
  have el: "req_elements ?d = req_elements d @ [y]"
    using n(3) by (simp add: req_elements_def take_Suc_conv_app_nth)
  obtain ys z where z: "list_all2 same_app_protocol es ys" "req_wf z" "req_elements z = req_elements ?d @ ys"
      "reads (grammar_loop k decode_supportedAppProtocolReq_step 8 ?d)
        (concat (map (\<lambda>e. [False, False] @ app_protocol_code e) es) @ [False, True]) z"
    using Cons.IH[of ?d k] Cons.prems k req_wf_update[OF Cons.prems(2) y(2)] by auto
  have "reads (grammar_loop fuel decode_supportedAppProtocolReq_step 8 d)
      ([False, False] @ app_protocol_code e @
        concat (map (\<lambda>e. [False, False] @ app_protocol_code e) es) @ [False, True]) z"
    unfolding k grammar_loop.simps
    by (simp add: decode_supportedAppProtocolReq_step_def bind_assoc del: append.simps)
      (rule reads_bind[OF reads_two_bits(1)], simp add: bind_assoc del: append.simps,
       rule reads_bind[OF y(3)], use n(2) z(4) in \<open>simp add: decode_supportedAppProtocolReq_step_def\<close>)
  with y(1) z el show ?case by (intro exI[of _ "y # ys"] exI[of _ z]) simp
qed

lemma reads_supportedAppProtocolReq:
  assumes x: "req_valid x" and d: "req_wf d"
  shows "\<exists>y. same_req x y \<and> req_wf y \<and> reads (decode_appHand_supportedAppProtocolReq d) (req_code x) y"
proof -
  let ?d = "init_appHand_supportedAppProtocolReq d"
  have d0: "req_wf ?d" "req_elements ?d = []" "AppProtocol_arrayLen ?d = 0"
    using d by (simp_all add: init_appHand_supportedAppProtocolReq_def req_wf_def req_elements_def)
  obtain e es where es: "req_elements x = e # es" "length es < 5"
    using x length_req_elements[OF x]
    by (cases "req_elements x") (auto simp: req_valid_def appHand_AppProtocolType_5_ARRAY_SIZE_def)
  then have valid: "app_protocol_valid e" "\<forall>e \<in> set es. app_protocol_valid e"
    using x by (auto simp: req_valid_def)
  obtain y where y: "same_app_protocol e y" "app_protocol_wf y"
      "reads (decode_array_element ?d) (app_protocol_code e)
        (?d\<lparr>AppProtocol_array := (AppProtocol_array ?d)[0 := y], AppProtocol_arrayLen := 1\<rparr>)"
    using reads_array_element[OF valid(1) d0(1)] d0(3)
    by (auto simp: appHand_AppProtocolType_5_ARRAY_SIZE_def)
  let ?d1 = "?d\<lparr>AppProtocol_array := (AppProtocol_array ?d)[0 := y], AppProtocol_arrayLen := 1\<rparr>"
  have el: "req_elements ?d1 = [y]"
    using d0(1) by (cases "AppProtocol_array ?d")
      (auto simp: req_elements_def req_wf_def appHand_AppProtocolType_5_ARRAY_SIZE_def)
  obtain ys z where z: "list_all2 same_app_protocol es ys" "req_wf z" "req_elements z = req_elements ?d1 @ ys"
      "reads (grammar_loop 6 decode_supportedAppProtocolReq_step 8 ?d1)
        (concat (map (\<lambda>e. [False, False] @ app_protocol_code e) es) @ [False, True]) z"
    using reads_req_loop[OF valid(2) req_wf_update[OF d0(1) y(2)], of 6 1 0] es(2)
    by (auto simp: appHand_AppProtocolType_5_ARRAY_SIZE_def)
  have "reads (decode_appHand_supportedAppProtocolReq d) (False # app_protocol_code e @
      concat (map (\<lambda>e. [False, False] @ app_protocol_code e) es) @ [False, True]) z"
    unfolding decode_appHand_supportedAppProtocolReq_def grammar_loop_numeral
    by (simp add: decode_supportedAppProtocolReq_step_def[of 7] bind_assoc bind_single_event del: append.simps)
      (intro reads_single_event, rule reads_bind[OF y(3)], use z(4) in \<open>simp\<close>)
  moreover have "same_req x z"
    using y(1) z(1,3) el es(1) by (simp add: same_req_def)
  ultimately show ?thesis
    using z(2) es(1) by (auto simp: req_code_def)
qed

lemma reads_supportedAppProtocolRes:
  assumes "res_valid x"
  shows "\<exists>y. same_res x y \<and> reads (decode_appHand_supportedAppProtocolRes d) (res_code x) y"
proof -
  let ?d = "init_appHand_supportedAppProtocolRes d\<lparr>ResponseCode := ResponseCode x\<rparr>"
  let ?u = "?d\<lparr>Res_SchemaID := Res_SchemaID x, SchemaID_isUsed := True\<rparr>"
  have "unat (ResponseCode x) < 2 ^ 2"
    using assms by (simp add: res_valid_def word_le_nat_alt)
  then have r: "reads (exi_basetypes_decoder_nbit_uint 2) (word_bits 2 (ResponseCode x)) (ResponseCode x)"
    using reads_nbit_uint[of 2 "ResponseCode x"] by (simp add: take_bit_small)
  have "reads (decode_appHand_supportedAppProtocolRes d) (element_code (word_bits 2 (ResponseCode x)) @ [False, True]) ?d"
    unfolding decode_appHand_supportedAppProtocolRes_def
    by (simp add: grammar_loop_numeral decode_supportedAppProtocolRes_step_def bind_assoc bind_single_event
        del: One_nat_def)
      (rule reads_element[OF r], rule reads_bind_ret[OF reads_two_bits(2)], simp)
  moreover have "reads (decode_appHand_supportedAppProtocolRes d) (element_code (word_bits 2 (ResponseCode x)) @
      [False, False] @ ([False] @ word_bits 8 (Res_SchemaID x) @ [False]) @ [False]) ?u"
    unfolding decode_appHand_supportedAppProtocolRes_def
    by (simp add: grammar_loop_numeral decode_supportedAppProtocolRes_step_def bind_assoc bind_single_event
        del: One_nat_def append.simps append_assoc)
      (rule reads_element[OF r], rule reads_bind[OF reads_two_bits(1)],
       simp add: grammar_loop_numeral decode_supportedAppProtocolRes_step_def bind_assoc bind_single_event
         del: One_nat_def append.simps append_assoc,
       rule reads_bind[OF reads_simple_element[OF reads_byte]], simp,
       rule reads_single_event[OF reads_ret])
  moreover have "same_res x (if SchemaID_isUsed x then ?u else ?d)"
    by (simp add: same_res_def init_appHand_supportedAppProtocolRes_def)
  ultimately show ?thesis
    by (intro exI[of _ "if SchemaID_isUsed x then ?u else ?d"]) (simp add: res_code_def element_code_def)
qed

lemma reads_exiDocument:
  assumes x: "doc_valid x" and d: "doc_wf d"
  shows "\<exists>y. same_doc x y \<and> reads (decode_appHand_exiDocument d) (doc_code x) y"
proof (cases "supportedAppProtocolReq_isUsed x")
  case True
  let ?d = "init_appHand_exiDocument d"
  have "req_valid (supportedAppProtocolReq x)" "req_wf (supportedAppProtocolReq ?d)"
    using x d True by (simp_all add: doc_valid_def doc_wf_def init_appHand_exiDocument_def)
  then obtain y where y: "same_req (supportedAppProtocolReq x) y"
      "reads (decode_appHand_supportedAppProtocolReq (supportedAppProtocolReq ?d)) (req_code (supportedAppProtocolReq x)) y"
    using reads_supportedAppProtocolReq by blast
  let ?y = "?d\<lparr>supportedAppProtocolReq := y, supportedAppProtocolReq_isUsed := True\<rparr>"
  have "reads (decode_appHand_exiDocument d) (doc_code x) ?y"
    unfolding decode_appHand_exiDocument_def doc_code_def Let_def
    by (rule reads_bind[OF reads_header], simp only: True if_True, rule reads_bind[OF reads_two_bits(1)])
      (simp, rule reads_bind_ret[OF y(2)], simp)
  moreover have "same_doc x ?y"
    using x True y(1) by (simp add: same_doc_def doc_valid_def init_appHand_exiDocument_def)
  ultimately show ?thesis by blast
next
  case False
  let ?d = "init_appHand_exiDocument d"
  have "res_valid (supportedAppProtocolRes x)" using x False by (simp add: doc_valid_def)
  then obtain y where y: "same_res (supportedAppProtocolRes x) y"
      "reads (decode_appHand_supportedAppProtocolRes (supportedAppProtocolRes ?d)) (res_code (supportedAppProtocolRes x)) y"
    using reads_supportedAppProtocolRes by blast
  let ?y = "?d\<lparr>supportedAppProtocolRes := y, supportedAppProtocolRes_isUsed := True\<rparr>"
  have "reads (decode_appHand_exiDocument d) (doc_code x) ?y"
    unfolding decode_appHand_exiDocument_def doc_code_def Let_def
    by (rule reads_bind[OF reads_header], simp only: False if_False, rule reads_bind[OF reads_two_bits(2)])
      (simp, rule reads_bind_ret[OF y(2)], simp)
  moreover have "same_doc x ?y"
    using x False y(1) by (simp add: same_doc_def doc_valid_def init_appHand_exiDocument_def)
  ultimately show ?thesis by blast
qed

section \<open>Safety on arbitrary input\<close>

lemma namespace_length: "unat (w :: u16) + 1 < size_t_modulus"
  using unsigned_less[of w, where ?'a = nat] by simp

lemma ProtocolNamespace_content_safe:
  assumes "app_protocol_wf x"
  defines "m \<equiv> bind exi_basetypes_decoder_uint_16 (\<lambda>charactersLen.
       if charactersLen \<ge> 2 then
         bind (exi_basetypes_decoder_characters (unat (charactersLen - 2)) (ProtocolNamespace_characters x)
                appHand_ProtocolNamespace_CHARACTER_SIZE) (\<lambda>characters.
           ret (x\<lparr>ProtocolNamespace_charactersLen := charactersLen - 2,
                  ProtocolNamespace_characters := characters\<rparr>))
       else throw STRINGVALUES_NOT_SUPPORTED)"
  shows "safe_reader m" "yields m app_protocol_wf"
proof -
  have sz: "appHand_ProtocolNamespace_CHARACTER_SIZE \<le> length (ProtocolNamespace_characters x)"
    using assms(1) by (simp add: app_protocol_wf_def)
  note safe = safe_characters[OF sz namespace_length]
  show "safe_reader m"
    unfolding m_def by (intro safe_bind safe_uint safe_if safe safe_ret safe_throw) simp_all
  show "yields m app_protocol_wf"
    unfolding m_def
    by (intro yields_bind yields_if yields_throw safe_uint
        yields_bind_yields[OF safe yields_characters[OF sz namespace_length]] yields_ret)
      (use assms(1) in \<open>simp add: app_protocol_wf_def\<close>)
qed

lemma ProtocolNamespace_safe:
  assumes "app_protocol_wf x"
  shows "safe_reader (decode_ProtocolNamespace x)" "yields (decode_ProtocolNamespace x) app_protocol_wf"
  unfolding decode_ProtocolNamespace_def
  using ProtocolNamespace_content_safe[OF assms] by (auto intro: safe_simple_element yields_simple_element)

lemma safe_type_uint32 [safe_rules]: "safe_reader decode_exi_type_uint32"
  unfolding decode_exi_type_uint32_def by (intro safe_rules)

lemma AppProtocolType_safe:
  assumes "app_protocol_wf d"
  shows "safe_reader (decode_appHand_AppProtocolType d) \<and> yields (decode_appHand_AppProtocolType d) app_protocol_wf"
  unfolding decode_appHand_AppProtocolType_def
proof (rule grammar_loop_safe[where I = "\<lambda>g x. g \<le> 5 \<and> app_protocol_wf x"
      and rank = "\<lambda>g x. 5 - g"])
  fix g :: nat and x assume "g \<le> 5 \<and> app_protocol_wf x"
  then have x: "app_protocol_wf x" by simp
  show "safe_reader (decode_AppProtocolType_step g x)"
    unfolding decode_AppProtocolType_step_def
    by (intro safe_rules ProtocolNamespace_safe[OF x]) simp_all
  show "yields (decode_AppProtocolType_step g x) (\<lambda>(g', d, x').
      if d then app_protocol_wf x' else (g' \<le> 5 \<and> app_protocol_wf x') \<and> 5 - g' < 5 - g)"
    unfolding decode_AppProtocolType_step_def
    by (intro yields_if yields_throw yields_single_event yields_ret safe_rules
        yields_bind_yields[OF ProtocolNamespace_safe[OF x]] yields_bind)
      (use x in \<open>auto simp: app_protocol_wf_def\<close>)
qed (use assms in \<open>simp_all add: init_appHand_AppProtocolType_def\<close>)

lemma array_element_safe:
  assumes "req_wf x"
  shows "safe_reader (decode_array_element x)"
    "yields (decode_array_element x) (\<lambda>y. req_wf y \<and> AppProtocol_arrayLen y = AppProtocol_arrayLen x + 1 \<and>
      AppProtocol_arrayLen y \<le> 5)"
proof -
  let ?n = "AppProtocol_arrayLen x"
  have len: "length (AppProtocol_array x) = 5" and five: "appHand_AppProtocolType_5_ARRAY_SIZE = 5"
    using assms by (simp_all add: req_wf_def appHand_AppProtocolType_5_ARRAY_SIZE_def)
  have el: "safe_reader (decode_appHand_AppProtocolType (AppProtocol_array x ! ?n)) \<and>
      yields (decode_appHand_AppProtocolType (AppProtocol_array x ! ?n)) app_protocol_wf" if "?n < 5"
    by (rule AppProtocolType_safe) (use that len assms in \<open>auto simp: req_wf_def\<close>)
  show "safe_reader (decode_array_element x)"
    unfolding decode_array_element_def Let_def five len
    by (intro safe_if safe_bind safe_ret safe_throw el[THEN conjunct1]) simp_all
  show "yields (decode_array_element x) (\<lambda>y. req_wf y \<and> AppProtocol_arrayLen y = ?n + 1 \<and>
      AppProtocol_arrayLen y \<le> 5)"
  proof (cases "?n < 5")
    case True
    have "yields (bind (decode_appHand_AppProtocolType (AppProtocol_array x ! ?n)) (\<lambda>e.
        ret (x\<lparr>AppProtocol_array := (AppProtocol_array x)[?n := e], AppProtocol_arrayLen := ?n + 1\<rparr>)))
        (\<lambda>y. req_wf y \<and> AppProtocol_arrayLen y = ?n + 1 \<and> AppProtocol_arrayLen y \<le> 5)"
      by (rule yields_bind_yields[OF el[OF True, THEN conjunct1] el[OF True, THEN conjunct2]], rule yields_ret)
        (use True req_wf_update[OF assms] in simp)
    with True show ?thesis
      by (simp add: decode_array_element_def Let_def five len)
  qed (simp add: decode_array_element_def Let_def five yields_throw)
qed

lemma supportedAppProtocolReq_safe:
  assumes "req_wf d"
  shows "safe_reader (decode_appHand_supportedAppProtocolReq d) \<and>
    yields (decode_appHand_supportedAppProtocolReq d) (\<lambda>y. req_wf y \<and> AppProtocol_arrayLen y \<le> 5)"
  unfolding decode_appHand_supportedAppProtocolReq_def
proof (rule grammar_loop_safe[where I = "\<lambda>g x. g \<in> {7, 8} \<and> req_wf x \<and> AppProtocol_arrayLen x \<le> 5"
      and rank = "\<lambda>g x. 5 - AppProtocol_arrayLen x"])
  fix g :: nat and x assume I: "g \<in> {7, 8} \<and> req_wf x \<and> AppProtocol_arrayLen x \<le> 5"
  then have x: "req_wf x" by simp
  show "safe_reader (decode_supportedAppProtocolReq_step g x)"
    unfolding decode_supportedAppProtocolReq_step_def
    by (intro safe_rules array_element_safe[OF x]) simp_all
  show "yields (decode_supportedAppProtocolReq_step g x) (\<lambda>(g', d, x').
      if d then req_wf x' \<and> AppProtocol_arrayLen x' \<le> 5
      else (g' \<in> {7, 8} \<and> req_wf x' \<and> AppProtocol_arrayLen x' \<le> 5) \<and>
        5 - AppProtocol_arrayLen x' < 5 - AppProtocol_arrayLen x)"
    unfolding decode_supportedAppProtocolReq_step_def
    by (intro yields_if yields_throw yields_single_event yields_ret safe_rules
        yields_bind_yields[OF array_element_safe[OF x]] yields_bind)
      (use I in auto)
qed (use assms in \<open>simp_all add: init_appHand_supportedAppProtocolReq_def req_wf_def\<close>)

lemma supportedAppProtocolRes_safe: "safe_reader (decode_appHand_supportedAppProtocolRes d)"
  unfolding decode_appHand_supportedAppProtocolRes_def
proof (rule conjunct1, rule grammar_loop_safe[where I = "\<lambda>g x. g \<in> {9, 10, 5}" and
      rank = "\<lambda>g x. if g = 9 then 2 else if g = 10 then 1 else 0" and Q = "\<lambda>_. True"])
  fix g :: nat and x assume I: "g \<in> {9, 10, 5}"
  show "safe_reader (decode_supportedAppProtocolRes_step g x)"
    unfolding decode_supportedAppProtocolRes_step_def by (intro safe_rules) simp_all
  show "yields (decode_supportedAppProtocolRes_step g x) (\<lambda>(g', d, x'). if d then True
      else g' \<in> {9, 10, 5} \<and>
        (if g' = 9 then 2 else if g' = 10 then 1 else 0 :: nat) < (if g = 9 then 2 else if g = 10 then 1 else 0))"
    unfolding decode_supportedAppProtocolRes_step_def
    by (intro yields_if yields_throw yields_single_event yields_ret safe_rules yields_bind)
      (use I in auto)
qed simp_all

lemma exiDocument_safe:
  assumes "doc_wf d"
  shows "safe_reader (decode_appHand_exiDocument d)"
proof -
  have "req_wf (supportedAppProtocolReq (init_appHand_exiDocument d))"
    using assms by (simp add: doc_wf_def init_appHand_exiDocument_def)
  then show ?thesis
    unfolding decode_appHand_exiDocument_def Let_def
    by (intro safe_rules supportedAppProtocolRes_safe supportedAppProtocolReq_safe[THEN conjunct1]) simp_all
qed

definition doc_bounded :: "appHand_exiDocument \<Rightarrow> bool" where
  "doc_bounded d \<longleftrightarrow> doc_wf d \<and> (supportedAppProtocolReq_isUsed d \<noteq> supportedAppProtocolRes_isUsed d) \<and>
     (supportedAppProtocolReq_isUsed d \<longrightarrow>
        AppProtocol_arrayLen (supportedAppProtocolReq d) \<le> appHand_AppProtocolType_5_ARRAY_SIZE)"

lemma exiDocument_yields:
  assumes "doc_wf d"
  shows "yields (decode_appHand_exiDocument d) doc_bounded"
proof -
  have wf: "req_wf (supportedAppProtocolReq (init_appHand_exiDocument d))"
    using assms by (simp add: doc_wf_def init_appHand_exiDocument_def)
  note req = supportedAppProtocolReq_safe[OF wf]
  show ?thesis
    unfolding decode_appHand_exiDocument_def Let_def
    by (intro yields_bind yields_if yields_throw yields_ret safe_rules supportedAppProtocolRes_safe
        yields_bind_yields[OF req[THEN conjunct1] req[THEN conjunct2]])
      (use wf in \<open>simp_all add: doc_bounded_def doc_wf_def init_appHand_exiDocument_def
        appHand_AppProtocolType_5_ARRAY_SIZE_def\<close>)
qed

section \<open>The handshake as a message codec\<close>

definition appHand_exiDocument_blank :: appHand_exiDocument where
  "appHand_exiDocument_blank =
     \<lparr>supportedAppProtocolReq = \<lparr>AppProtocol_array = replicate appHand_AppProtocolType_5_ARRAY_SIZE
          \<lparr>ProtocolNamespace_characters = replicate appHand_ProtocolNamespace_CHARACTER_SIZE 0,
           ProtocolNamespace_charactersLen = 0, VersionNumberMajor = 0, VersionNumberMinor = 0,
           SchemaID = 0, Priority = 0\<rparr>, AppProtocol_arrayLen = 0\<rparr>,
      supportedAppProtocolRes = \<lparr>ResponseCode = 0, Res_SchemaID = 0, SchemaID_isUsed = False\<rparr>,
      supportedAppProtocolReq_isUsed = False, supportedAppProtocolRes_isUsed = False\<rparr>"

lemma blank_wf [simp]: "doc_wf appHand_exiDocument_blank"
  by (simp add: doc_wf_def req_wf_def app_protocol_wf_def appHand_exiDocument_blank_def)

interpretation app_handshake: exi_message encode_appHand_exiDocument
  "decode_appHand_exiDocument appHand_exiDocument_blank" doc_code doc_valid same_doc
  by unfold_locales (simp_all add: writes_exiDocument reads_exiDocument exiDocument_safe)

section \<open>Properties of the handshake codec\<close>

text \<open>A small request for the examples: one protocol, its namespace a single character.\<close>

definition example_request :: appHand_exiDocument where
  "example_request = appHand_exiDocument_blank
     \<lparr>supportedAppProtocolReq_isUsed := True,
      supportedAppProtocolReq :=
        \<lparr>AppProtocol_array = replicate appHand_AppProtocolType_5_ARRAY_SIZE
          \<lparr>ProtocolNamespace_characters = replicate appHand_ProtocolNamespace_CHARACTER_SIZE 0x61,
           ProtocolNamespace_charactersLen = 1, VersionNumberMajor = 2, VersionNumberMinor = 300,
           SchemaID = 7, Priority = 1\<rparr>, AppProtocol_arrayLen = 1\<rparr>\<rparr>"

lemma example_request_used [simp]: "supportedAppProtocolReq_isUsed example_request"
  by (simp add: example_request_def)

lemma example_request_valid: "doc_valid example_request" "length (doc_code example_request) \<le> 100"
proof -
  show "doc_valid example_request"
    by (simp add: example_request_def appHand_exiDocument_blank_def doc_valid_def req_valid_def req_wf_def
        app_protocol_valid_def app_protocol_wf_def req_elements_def appHand_AppProtocolType_5_ARRAY_SIZE_def
        appHand_ProtocolNamespace_CHARACTER_SIZE_def)
  show "length (doc_code example_request) \<le> 100"
    by (simp add: example_request_def appHand_exiDocument_blank_def doc_code_def req_code_def
        app_protocol_code_def element_code_def req_elements_def wire_code.simps
        appHand_ProtocolNamespace_CHARACTER_SIZE_def appHand_AppProtocolType_5_ARRAY_SIZE_def)
qed

text \<open>
  C27: a valid handshake document encoded into a buffer that is large enough is accepted, and
  the bytes counted by \<^const>\<open>exi_bitstream_get_length\<close> are all the peer needs to decode a
  document with the same content.
\<close>

theorem handshake_document_transmitted:
  assumes "doc_valid d" "off \<le> n" "n \<le> length buf" "n < size_t_modulus - 1"
    and "length (doc_code d) \<le> 8 * (n - off)"
  shows "\<exists>s' d' s''. encode_appHand_exiDocument d (exi_bitstream_init buf n off) = (Inr (), s') \<and>
    off + exi_bitstream_get_length s' \<le> n \<and>
    decode_appHand_exiDocument appHand_exiDocument_blank
      (exi_bitstream_init (take (off + exi_bitstream_get_length s') (data s'))
         (off + exi_bitstream_get_length s') off) = (Inr d', s'') \<and>
    same_doc d d'"
proof -
  obtain r s' where s': "encode_appHand_exiDocument d (exi_bitstream_init buf n off) = (r, s')" by fastforce
  from app_handshake.transmit[OF assms s' refl] s' show ?thesis by blast
qed

theorem handshake_document_transmitted_witness:
  "\<exists>s' d' s''. encode_appHand_exiDocument example_request
      (exi_bitstream_init (replicate 64 0) 64 8) = (Inr (), s') \<and>
    8 + exi_bitstream_get_length s' \<le> 64 \<and>
    decode_appHand_exiDocument appHand_exiDocument_blank
      (exi_bitstream_init (take (8 + exi_bitstream_get_length s') (data s'))
         (8 + exi_bitstream_get_length s') 8) = (Inr d', s'') \<and>
    same_doc example_request d'"
  by (rule handshake_document_transmitted[OF example_request_valid(1)]) (use example_request_valid(2) in simp_all)

text \<open>
  C28: the handshake decoder is total and memory safe. On arbitrary bytes it returns an EXI
  error or a document, it only moves the cursor of the stream and keeps it inside, and a
  document it returns has exactly one member and at most five protocols.
\<close>

theorem handshake_decoder_safe:
  assumes "doc_wf d" "stream_wf s"
  shows "\<exists>r s'. decode_appHand_exiDocument d s = (r, s') \<and> c_result r \<and> stream_wf s' \<and> read_frame s s' \<and>
    (\<forall>d'. r = Inr d' \<longrightarrow> doc_bounded d')"
proof -
  obtain r s' where "decode_appHand_exiDocument d s = (r, s')" "c_result r" "stream_wf s'" "read_frame s s'"
    using exiDocument_safe[OF assms(1)] assms(2) by (auto simp: safe_reader_def)
  with yieldsD[OF exiDocument_yields[OF assms(1)] assms(2)] show ?thesis by blast
qed

theorem handshake_decoder_safe_witness:
  "\<exists>r s'. decode_appHand_exiDocument appHand_exiDocument_blank (exi_bitstream_init [0x80, 0x12, 0xFF] 3 0) = (r, s') \<and>
    c_result r \<and> stream_wf s' \<and> read_frame (exi_bitstream_init [0x80, 0x12, 0xFF] 3 0) s' \<and>
    (\<forall>d'. r = Inr d' \<longrightarrow> doc_bounded d')"
  by (rule handshake_decoder_safe) (simp_all add: stream_wf_def exi_bitstream_init_def)



end
