(* ===== verification/V2GTP.thy ===== *)
theory V2GTP
  imports AppHand
begin

text \<open>
  The transport header in front of every V2G message
  (\<^verbatim>\<open>lib/everest/cbv2g/lib/cbv2g/exi_v2gtp.c\<close>): version and its complement, payload type and
  payload length, eight bytes in network byte order. Both routines access the first eight
  bytes of the buffer without a length check; a shorter buffer is undefined behaviour.
\<close>

datatype v2gtp_error =
    VERSION_DOES_NOT_MATCH
  | PAYLOAD_ID_DOES_NOT_MATCH
  | V2GTP_UNDEFINED_BEHAVIOUR

abbreviation (input) V2GTP_VERSION :: byte where
  "V2GTP_VERSION \<equiv> 0x01"

abbreviation (input) V2GTP_VERSION_NOT :: byte where
  "V2GTP_VERSION_NOT \<equiv> 0xFE"

definition V2GTP_HEADER_LENGTH :: nat where
  "V2GTP_HEADER_LENGTH = 8"

abbreviation (input) V2GTP20_SAP_PAYLOAD_ID :: u16 where
  "V2GTP20_SAP_PAYLOAD_ID \<equiv> 0x8001"

definition V2GTP20_WriteHeader :: "byte list \<Rightarrow> u32 \<Rightarrow> u16 \<Rightarrow> v2gtp_error + byte list" where
  "V2GTP20_WriteHeader stream_data stream_payload_length v2gtp20_payload_id =
     (if length stream_data < V2GTP_HEADER_LENGTH then Inl V2GTP_UNDEFINED_BEHAVIOUR
      else Inr (stream_data
        [0 := V2GTP_VERSION,
         1 := V2GTP_VERSION_NOT,
         2 := ucast (drop_bit 8 v2gtp20_payload_id AND 0xFF),
         3 := ucast (v2gtp20_payload_id AND 0xFF),
         4 := ucast (drop_bit 24 stream_payload_length AND 0xFF),
         5 := ucast (drop_bit 16 stream_payload_length AND 0xFF),
         6 := ucast (drop_bit 8 stream_payload_length AND 0xFF),
         7 := ucast (stream_payload_length AND 0xFF)]))"

definition V2GTP_WriteHeader :: "byte list \<Rightarrow> u32 \<Rightarrow> v2gtp_error + byte list" where
  "V2GTP_WriteHeader stream_data stream_payload_length =
     V2GTP20_WriteHeader stream_data stream_payload_length V2GTP20_SAP_PAYLOAD_ID"

definition V2GTP20_ReadHeader :: "byte list \<Rightarrow> u16 \<Rightarrow> v2gtp_error + u32" where
  "V2GTP20_ReadHeader stream_data v2gtp20_payload_id =
     (if length stream_data < V2GTP_HEADER_LENGTH then Inl V2GTP_UNDEFINED_BEHAVIOUR
      else if stream_data ! 0 \<noteq> V2GTP_VERSION \<or> stream_data ! 1 \<noteq> V2GTP_VERSION_NOT
      then Inl VERSION_DOES_NOT_MATCH
      else if push_bit 8 (ucast (stream_data ! 2)) OR ucast (stream_data ! 3) \<noteq> v2gtp20_payload_id
      then Inl PAYLOAD_ID_DOES_NOT_MATCH
      else Inr (push_bit 24 (ucast (stream_data ! 4)) OR push_bit 16 (ucast (stream_data ! 5)) OR
                push_bit 8 (ucast (stream_data ! 6)) OR ucast (stream_data ! 7)))"

definition V2GTP_ReadHeader :: "byte list \<Rightarrow> v2gtp_error + u32" where
  "V2GTP_ReadHeader stream_data = V2GTP20_ReadHeader stream_data V2GTP20_SAP_PAYLOAD_ID"

section \<open>Round trip\<close>

lemma join_bytes_16: "push_bit 8 (ucast (ucast (drop_bit 8 w AND 0xFF) :: byte)) OR
    ucast (ucast (w AND 0xFF) :: byte) = (w :: u16)"
proof -
  have m: "0xFF = (mask 8 :: u16)" by (simp add: mask_eq_exp_minus_1)
  show ?thesis unfolding m by (rule bit_word_eqI) (auto simp: bit_simps)
qed

lemma join_bytes_32:
  "push_bit 24 (ucast (ucast (drop_bit 24 w AND 0xFF) :: byte)) OR
   push_bit 16 (ucast (ucast (drop_bit 16 w AND 0xFF) :: byte)) OR
   push_bit 8 (ucast (ucast (drop_bit 8 w AND 0xFF) :: byte)) OR
   ucast (ucast (w AND 0xFF) :: byte) = (w :: u32)"
proof -
  have m: "0xFF = (mask 8 :: u32)" by (simp add: mask_eq_exp_minus_1)
  show ?thesis unfolding m
  proof (rule bit_word_eqI)
    fix n assume "n < LENGTH(32)"
    then consider "n < 8" | "8 \<le> n" "n < 16" | "16 \<le> n" "n < 24" | "24 \<le> n" "n < 32" by fastforce
    then show "bit (push_bit 24 (ucast (ucast (drop_bit 24 w AND mask 8) :: byte)) OR
      push_bit 16 (ucast (ucast (drop_bit 16 w AND mask 8) :: byte)) OR
      push_bit 8 (ucast (ucast (drop_bit 8 w AND mask 8) :: byte)) OR
      ucast (ucast (w AND mask 8) :: byte) :: u32) n = bit w n"
      by cases (auto simp: bit_simps)
  qed
qed

lemma write_header_spec:
  assumes "8 \<le> length buf"
  shows "\<exists>buf'. V2GTP20_WriteHeader buf n pid = Inr buf' \<and> length buf' = length buf \<and>
    drop 8 buf' = drop 8 buf \<and> V2GTP20_ReadHeader buf' pid = Inr n \<and>
    (\<forall>pid'. pid' \<noteq> pid \<longrightarrow> V2GTP20_ReadHeader buf' pid' = Inl PAYLOAD_ID_DOES_NOT_MATCH)"
proof -
  have "buf \<noteq> []" using assms by auto
  then show ?thesis
    using assms join_bytes_16[of pid] join_bytes_32[of n]
    by (simp add: V2GTP20_WriteHeader_def V2GTP20_ReadHeader_def V2GTP_HEADER_LENGTH_def nth_list_update)
qed

text \<open>
  C33: a V2GTP header written in front of a payload is read back with the same payload length
  under the same payload identifier, is rejected under every other identifier, and leaves the
  payload untouched.
\<close>

theorem V2GTP20_header_roundtrip:
  assumes "V2GTP_HEADER_LENGTH \<le> length buf"
  shows "\<exists>buf'. V2GTP20_WriteHeader buf n pid = Inr buf' \<and>
    drop V2GTP_HEADER_LENGTH buf' = drop V2GTP_HEADER_LENGTH buf \<and>
    V2GTP20_ReadHeader buf' pid = Inr n \<and>
    (\<forall>pid'. pid' \<noteq> pid \<longrightarrow> V2GTP20_ReadHeader buf' pid' = Inl PAYLOAD_ID_DOES_NOT_MATCH)"
  using write_header_spec[of buf n pid] assms by (auto simp: V2GTP_HEADER_LENGTH_def)

theorem V2GTP20_header_roundtrip_witness:
  "\<exists>buf'. V2GTP20_WriteHeader [9, 9, 9, 9, 9, 9, 9, 9, 42] 0x12345678 0x8002 = Inr buf' \<and>
    drop V2GTP_HEADER_LENGTH buf' = [42] \<and>
    V2GTP20_ReadHeader buf' 0x8002 = Inr 0x12345678 \<and>
    (\<forall>pid'. pid' \<noteq> 0x8002 \<longrightarrow> V2GTP20_ReadHeader buf' pid' = Inl PAYLOAD_ID_DOES_NOT_MATCH)"
  using V2GTP20_header_roundtrip[of "[9, 9, 9, 9, 9, 9, 9, 9, 42]" "0x12345678" "0x8002"]
  by (simp add: V2GTP_HEADER_LENGTH_def)

end
