(* ===== verification/V2G_Context.thy ===== *)
theory V2G_Context
  imports Prelude Complex_Main
begin

text \<open>
  The charging context of EvseV2G (\<^verbatim>\<open>modules/EVSE/EvseV2G/v2g.hpp\<close>) with the part of
  \<^verbatim>\<open>v2g_ctx.cpp\<close> that resets it and that publishes received values. The fields of the context
  that concern sockets, threads, TLS, AC charging and certificates are left out. Values the
  module publishes to its charger interface are recorded in order in the field \<open>published\<close>.

  Physical quantities are pairs of a 16-bit value and a decimal exponent; the code turns them
  into floating point numbers to compare or publish them, the model into rational numbers.
  Two different quantities differ by more than one part in 32767, which single precision
  keeps apart, so comparisons agree. A field that the code fills with 0xff bytes (a NaN) is
  \<^const>\<open>None\<close> here.
\<close>

section \<open>Enumerations\<close>

datatype v2g_event =
    V2G_EVENT_NO_EVENT
  | V2G_EVENT_TERMINATE_CONNECTION
  | V2G_EVENT_SEND_AND_TERMINATE
  | V2G_EVENT_SEND_RECV_EXI_MSG
  | V2G_EVENT_IGNORE_MSG

datatype v2g_protocol =
    V2G_PROTO_DIN70121
  | V2G_PROTO_ISO15118_2010
  | V2G_PROTO_ISO15118_2013
  | V2G_PROTO_ISO15118_2015
  | V2G_UNKNOWN_PROTOCOL

text \<open>The position of a protocol in the enumeration is its bit in \<^verbatim>\<open>supported_protocols\<close>.\<close>

fun protocol_bit :: "v2g_protocol \<Rightarrow> nat" where
  "protocol_bit V2G_PROTO_DIN70121 = 0"
| "protocol_bit V2G_PROTO_ISO15118_2010 = 1"
| "protocol_bit V2G_PROTO_ISO15118_2013 = 2"
| "protocol_bit V2G_PROTO_ISO15118_2015 = 3"
| "protocol_bit V2G_UNKNOWN_PROTOCOL = 4"

datatype V2gMsgTypeId =
    V2G_SUPPORTED_APP_PROTOCOL_MSG
  | V2G_SESSION_SETUP_MSG
  | V2G_SERVICE_DISCOVERY_MSG
  | V2G_SERVICE_DETAIL_MSG
  | V2G_PAYMENT_SERVICE_SELECTION_MSG
  | V2G_PAYMENT_DETAILS_MSG
  | V2G_AUTHORIZATION_MSG
  | V2G_CHARGE_PARAMETER_DISCOVERY_MSG
  | V2G_METERING_RECEIPT_MSG
  | V2G_CERTIFICATE_UPDATE_MSG
  | V2G_CERTIFICATE_INSTALLATION_MSG
  | V2G_CHARGING_STATUS_MSG
  | V2G_CABLE_CHECK_MSG
  | V2G_PRE_CHARGE_MSG
  | V2G_POWER_DELIVERY_MSG
  | V2G_CURRENT_DEMAND_MSG
  | V2G_WELDING_DETECTION_MSG
  | V2G_SESSION_STOP_MSG
  | V2G_UNKNOWN_MSG

datatype charging_phase =
    PHASE_INIT
  | PHASE_AUTH
  | PHASE_PARAMETER
  | PHASE_ISOLATION
  | PHASE_PRECHARGE
  | PHASE_CHARGE
  | PHASE_WELDING
  | PHASE_STOP

datatype NoEnergyPauseStatus =
    NoPause
  | AllowEvToIgnorePause
  | AfterCableCheckPreCharge
  | BeforeCableCheck

datatype dLinkAction =
    D_LINK_ACTION_ERROR
  | D_LINK_ACTION_TERMINATE
  | D_LINK_ACTION_PAUSE

datatype SessionStopResPending =
    SESSION_STOP_NONE
  | SESSION_STOP_TERMINATE
  | SESSION_STOP_PAUSE

datatype iso2_unitSymbolType =
    iso2_unit_h
  | iso2_unit_m
  | iso2_unit_s
  | iso2_unit_A
  | iso2_unit_V
  | iso2_unit_W
  | iso2_unit_Wh

text \<open>
  Status codes, processing flags, isolation levels and notifications are stored as bytes and
  cast to enumerations where a message is filled in.
\<close>

abbreviation (input) EVSE_NotReady :: byte where "EVSE_NotReady \<equiv> 0"
abbreviation (input) EVSE_Ready :: byte where "EVSE_Ready \<equiv> 1"
abbreviation (input) EVSE_Shutdown :: byte where "EVSE_Shutdown \<equiv> 2"
abbreviation (input) EVSE_UtilityInterruptEvent :: byte where "EVSE_UtilityInterruptEvent \<equiv> 3"
abbreviation (input) EVSE_IsolationMonitoringActive :: byte where "EVSE_IsolationMonitoringActive \<equiv> 4"
abbreviation (input) EVSE_EmergencyShutdown :: byte where "EVSE_EmergencyShutdown \<equiv> 5"
abbreviation (input) EVSE_Malfunction :: byte where "EVSE_Malfunction \<equiv> 6"

abbreviation (input) isolation_Invalid :: byte where "isolation_Invalid \<equiv> 0"
abbreviation (input) isolation_Valid :: byte where "isolation_Valid \<equiv> 1"
abbreviation (input) isolation_Warning :: byte where "isolation_Warning \<equiv> 2"
abbreviation (input) isolation_Fault :: byte where "isolation_Fault \<equiv> 3"

abbreviation (input) EVSEProcessing_Finished :: byte where "EVSEProcessing_Finished \<equiv> 0"
abbreviation (input) EVSEProcessing_Ongoing :: byte where "EVSEProcessing_Ongoing \<equiv> 1"

abbreviation (input) EVSENotification_None :: byte where "EVSENotification_None \<equiv> 0"
abbreviation (input) EVSENotification_StopCharging :: byte where "EVSENotification_StopCharging \<equiv> 1"

section \<open>Physical values\<close>

record iso2_PhysicalValueType =
  Multiplier :: int
  Unit :: iso2_unitSymbolType
  Value :: int

definition calc_physical_value :: "int \<Rightarrow> int \<Rightarrow> rat" where
  "calc_physical_value v m = of_int v * (if m \<ge> 0 then 10 ^ nat m else 1 / 10 ^ nat (- m))"

definition init_physical_value :: "iso2_unitSymbolType \<Rightarrow> iso2_PhysicalValueType" where
  "init_physical_value u = \<lparr>Multiplier = 0, Unit = u, Value = 0\<rparr>"

section \<open>The context\<close>

record PowerCapabilities =
  pc_max_current :: iso2_PhysicalValueType
  pc_min_current :: iso2_PhysicalValueType
  pc_max_power :: iso2_PhysicalValueType
  pc_max_voltage :: iso2_PhysicalValueType
  pc_min_voltage :: iso2_PhysicalValueType

record evse_v2g_data =
  session_id :: u64
  notification_max_delay :: u32
  evse_isolation_status :: byte
  evse_isolation_status_is_used :: bool
  evse_notification :: byte
  evse_status_code :: "charging_phase \<Rightarrow> byte"
  evse_processing :: "charging_phase \<Rightarrow> byte"
  evse_id :: "byte list"
  date_time_now_is_used :: bool
  charge_service_ServiceID :: u16
  charge_service_FreeService :: bool
  charge_service_EnergyTransferMode0 :: nat
  evse_current_regulation_tolerance :: iso2_PhysicalValueType
  evse_current_regulation_tolerance_is_used :: bool
  evse_energy_to_be_delivered :: iso2_PhysicalValueType
  evse_energy_to_be_delivered_is_used :: bool
  evse_maximum_current_limit :: iso2_PhysicalValueType
  evse_maximum_current_limit_is_used :: bool
  evse_current_limit_achieved :: bool
  evse_maximum_power_limit :: iso2_PhysicalValueType
  evse_maximum_power_limit_is_used :: bool
  evse_power_limit_achieved :: bool
  evse_maximum_voltage_limit :: iso2_PhysicalValueType
  evse_maximum_voltage_limit_is_used :: bool
  evse_voltage_limit_achieved :: bool
  evse_peak_current_ripple :: iso2_PhysicalValueType
  evse_present_voltage :: iso2_PhysicalValueType
  evse_present_current :: iso2_PhysicalValueType
  no_energy_pause :: NoEnergyPauseStatus
  power_capabilities :: PowerCapabilities

record ev_v2g_data =
  bulk_charging_complete :: int
  charging_complete :: int
  received_session_id :: u64
  ev_status_EVErrorCode :: int
  ev_status_EVReady :: int
  ev_status_EVRESSSOC :: int
  ev_maximum_current_limit :: "rat option"
  ev_maximum_power_limit :: "rat option"
  ev_maximum_voltage_limit :: "rat option"
  v2g_target_current :: "rat option"
  v2g_target_voltage :: "rat option"
  remaining_time_to_bulk_soc :: "rat option"
  remaining_time_to_full_soc :: "rat option"

record session_data =
  authorization_rejected :: bool
  is_charging :: bool
  renegotiation_required :: bool

text \<open>
  What the module tells its charger interface, one constructor per \<^verbatim>\<open>publish_\<close> function. For
  the remaining times the published time stamps are given by the remaining seconds.
\<close>

datatype charger_event =
    publish_evcc_id string
  | publish_require_auth_eim
  | publish_requested_energy_transfer_mode nat
  | publish_dc_ev_energy_capacity rat
  | publish_dc_ev_energy_request rat
  | publish_dc_full_soc int
  | publish_dc_bulk_soc int
  | publish_dc_ev_maximum_limits "rat option" "rat option" "rat option"
  | publish_dc_ev_status int int int
  | publish_start_cable_check
  | publish_start_pre_charge
  | publish_dc_ev_target_voltage_current rat rat
  | publish_v2g_setup_finished
  | publish_current_demand_started
  | publish_current_demand_finished
  | publish_dc_open_contactor
  | publish_dc_charging_complete int
  | publish_dc_bulk_charging_complete int
  | publish_dc_ev_remaining_time "rat option" "rat option"
  | publish_session_stop_res_sent SessionStopResPending
  | publish_session_failed_termination

record v2g_context =
  last_v2g_msg :: V2gMsgTypeId
  current_v2g_msg :: V2gMsgTypeId
  state :: nat
  is_fake_dc :: bool
  supported_protocols :: byte
  selected_protocol :: v2g_protocol
  intl_emergency_shutdown :: bool
  error_shutdown :: bool
  error_shutdown_reported :: bool
  stop_hlc :: bool
  is_connection_terminated :: bool
  terminate_connection_on_failed_response :: bool
  hlc_pause_active :: bool
  evse_data :: evse_v2g_data
  session :: session_data
  ev_data :: ev_v2g_data
  published :: "charger_event list"

definition publish :: "charger_event \<Rightarrow> v2g_context \<Rightarrow> v2g_context" where
  "publish e c = c\<lparr>published := published c @ [e]\<rparr>"

section \<open>Reset\<close>

definition v2g_ctx_init_dc_evse_status_codes :: "v2g_context \<Rightarrow> v2g_context" where
  "v2g_ctx_init_dc_evse_status_codes c = c\<lparr>evse_data := (evse_data c)\<lparr>evse_status_code := (\<lambda>phase. case phase of
       PHASE_INIT \<Rightarrow> EVSE_NotReady
     | PHASE_AUTH \<Rightarrow> EVSE_NotReady
     | PHASE_PARAMETER \<Rightarrow> EVSE_Ready
     | PHASE_ISOLATION \<Rightarrow> EVSE_IsolationMonitoringActive
     | PHASE_PRECHARGE \<Rightarrow> EVSE_Ready
     | PHASE_CHARGE \<Rightarrow> EVSE_Ready
     | PHASE_WELDING \<Rightarrow> EVSE_NotReady
     | PHASE_STOP \<Rightarrow> EVSE_NotReady)\<rparr>\<rparr>"

definition v2g_ctx_init_charging_state :: "bool \<Rightarrow> v2g_context \<Rightarrow> v2g_context" where
  "v2g_ctx_init_charging_state terminated c =
     v2g_ctx_init_dc_evse_status_codes
       (c\<lparr>stop_hlc := False, intl_emergency_shutdown := False, error_shutdown := False,
          error_shutdown_reported := False, is_connection_terminated := terminated,
          last_v2g_msg := V2G_UNKNOWN_MSG, current_v2g_msg := V2G_UNKNOWN_MSG, state := 0,
          selected_protocol := V2G_UNKNOWN_PROTOCOL,
          session := (session c)\<lparr>renegotiation_required := False, is_charging := False\<rparr>,
          evse_data := (evse_data c)\<lparr>evse_notification := 0\<rparr>\<rparr>)"

section \<open>Publishing received values\<close>

text \<open>A value is stored and published when it is in use and differs from the stored one.\<close>

definition publish_dc_ev_maximum_limits_if_changed ::
    "rat \<Rightarrow> bool \<Rightarrow> rat \<Rightarrow> bool \<Rightarrow> rat \<Rightarrow> bool \<Rightarrow> v2g_context \<Rightarrow> v2g_context" where
  "publish_dc_ev_maximum_limits_if_changed cur cur_used pow pow_used vol vol_used c =
     (let d = ev_data c;
          new_cur = cur_used \<and> ev_maximum_current_limit d \<noteq> Some cur;
          new_pow = pow_used \<and> ev_maximum_power_limit d \<noteq> Some pow;
          new_vol = vol_used \<and> ev_maximum_voltage_limit d \<noteq> Some vol;
          d = (if new_cur then d\<lparr>ev_maximum_current_limit := Some cur\<rparr> else d);
          d = (if new_pow then d\<lparr>ev_maximum_power_limit := Some pow\<rparr> else d);
          d = (if new_vol then d\<lparr>ev_maximum_voltage_limit := Some vol\<rparr> else d);
          c = c\<lparr>ev_data := d\<rparr>
      in if new_cur \<or> new_pow \<or> new_vol
         then publish (publish_dc_ev_maximum_limits (if cur_used then Some cur else None)
                (if pow_used then Some pow else None) (if vol_used then Some vol else None)) c
         else c)"

definition publish_dc_ev_target_if_changed :: "rat \<Rightarrow> rat \<Rightarrow> v2g_context \<Rightarrow> v2g_context" where
  "publish_dc_ev_target_if_changed vol cur c =
     (if v2g_target_voltage (ev_data c) \<noteq> Some vol \<or> v2g_target_current (ev_data c) \<noteq> Some cur
      then publish (publish_dc_ev_target_voltage_current vol cur)
             (c\<lparr>ev_data := (ev_data c)\<lparr>v2g_target_voltage := Some vol, v2g_target_current := Some cur\<rparr>\<rparr>)
      else c)"

definition publish_dc_ev_remaining_time_if_changed ::
    "rat \<Rightarrow> bool \<Rightarrow> rat \<Rightarrow> bool \<Rightarrow> v2g_context \<Rightarrow> v2g_context" where
  "publish_dc_ev_remaining_time_if_changed full full_used bulk bulk_used c =
     (let d = ev_data c;
          new_full = full_used \<and> remaining_time_to_full_soc d \<noteq> Some full;
          new_bulk = bulk_used \<and> remaining_time_to_bulk_soc d \<noteq> Some bulk;
          d = (if new_full then d\<lparr>remaining_time_to_full_soc := Some full\<rparr> else d);
          d = (if new_bulk then d\<lparr>remaining_time_to_bulk_soc := Some bulk\<rparr> else d);
          c = c\<lparr>ev_data := d\<rparr>
      in if new_full \<or> new_bulk
         then publish (publish_dc_ev_remaining_time (if new_full then Some full else None)
                (if new_bulk then Some bulk else None)) c
         else c)"

end
