(* ===== verification/V2G_Server.thy ===== *)
theory V2G_Server
  imports V2GTP V2G_Context
begin

text \<open>
  The transport layer and the protocol handshake of the charger
  (\<^verbatim>\<open>modules/EVSE/EvseV2G/v2g_server.cpp\<close>, functions \<^verbatim>\<open>v2g_incoming_v2gtp\<close>,
  \<^verbatim>\<open>v2g_outgoing_v2gtp\<close> and \<^verbatim>\<open>v2g_handle_apphandshake\<close>, and \<^verbatim>\<open>connection_read\<close> of
  \<^verbatim>\<open>connection/connection.cpp\<close>). The socket is a list of events; the reader that
  \<^verbatim>\<open>v2g_incoming_v2gtp\<close> calls through a function pointer is an argument, constrained by the
  locale \<open>v2g_reader\<close>. Logging, telemetry and the debug publications have no effect on the
  state and are left out, as is the out-of-memory branch after \<^verbatim>\<open>strndup\<close>.
\<close>

section \<open>State\<close>

definition DEFAULT_BUFFER_SIZE :: nat where
  "DEFAULT_BUFFER_SIZE = 8192"

text \<open>
  \<^verbatim>\<open>conn->buffer\<close> and \<^verbatim>\<open>conn->stream.data\<close> point to the same memory, the \<^const>\<open>data\<close> of the
  stream.
\<close>

record v2g_connection =
  ctx :: v2g_context
  stream :: exi_bitstream_t
  payload_len :: u32
  handshake_req :: appHand_exiDocument
  handshake_resp :: appHand_exiDocument
  d_link_action :: dLinkAction
  session_stop_res_pending :: SessionStopResPending
  last_v2g_msg_at_disconnect :: V2gMsgTypeId

section \<open>Reading from the socket\<close>

text \<open>
  What happens in one round of the loop of \<^verbatim>\<open>connection_read\<close>. The sequence timeout fires
  when nothing else happens any more, so the end of the list counts as one. A terminated or
  closed connection stays so.
\<close>

datatype socket_event =
    SequenceTimeout
  | ConnectionTerminated
  | SelectFailed
  | Interrupted
  | NothingReady
  | ReadFailed
  | PeerClosed
  | Received "byte list"

function connection_read :: "socket_event list \<Rightarrow> nat \<Rightarrow> byte list \<Rightarrow> int \<times> byte list \<times> socket_event list" where
  "connection_read es count acc =
     (if length acc < count then
        (case es of
           [] \<Rightarrow> (int (length acc), acc, [])
         | SequenceTimeout # es' \<Rightarrow> (int (length acc), acc, es')
         | ConnectionTerminated # es' \<Rightarrow> (- 2, acc, es)
         | SelectFailed # es' \<Rightarrow> (- 1, acc, es')
         | Interrupted # es' \<Rightarrow> connection_read es' count acc
         | NothingReady # es' \<Rightarrow> connection_read es' count acc
         | ReadFailed # es' \<Rightarrow> (- 1, acc, es')
         | PeerClosed # es' \<Rightarrow> (int (length acc), acc, es)
         | Received bs # es' \<Rightarrow>
             let n = count - length acc
             in if bs = [] then (int (length acc), acc, es)
                else if length bs \<le> n then connection_read es' count (acc @ bs)
                else connection_read (Received (drop n bs) # es') count (acc @ take n bs))
      else
        (case es of
           ConnectionTerminated # es' \<Rightarrow> (- 2, acc, es)
         | _ \<Rightarrow> (int (length acc), acc, es)))"
  by pat_completeness auto
termination
  by (relation "measure (\<lambda>(es, count, acc). length es + (count - length acc))") auto

declare connection_read.simps [simp del]

text \<open>\<open>rd io count\<close> is the return value, the bytes stored in the buffer, and the rest of the input.\<close>

type_synonym 'io reader = "'io \<Rightarrow> nat \<Rightarrow> int \<times> byte list \<times> 'io"

definition socket_reader :: "socket_event list reader" where
  "socket_reader es count = connection_read es count []"

section \<open>Transport\<close>

definition store_at :: "nat \<Rightarrow> byte list \<Rightarrow> v2g_connection \<Rightarrow> v2g_connection" where
  "store_at pos bs conn =
     conn\<lparr>stream := (stream conn)\<lparr>data :=
       take pos (data (stream conn)) @ bs @ drop (pos + length bs) (data (stream conn))\<rparr>\<rparr>"

definition v2g_incoming_v2gtp :: "'io reader \<Rightarrow> v2g_connection \<Rightarrow> 'io \<Rightarrow> int \<times> v2g_connection \<times> 'io" where
  "v2g_incoming_v2gtp rd conn io =
     (case rd io V2GTP_HEADER_LENGTH of (rv, bs, io) \<Rightarrow>
        let conn = store_at 0 bs conn
        in if rv < 0 then (- 1, conn, io)
           else if rv = 0 then (1, conn, io)
           else if rv \<noteq> int V2GTP_HEADER_LENGTH then (- 1, conn, io)
           else
             let header = V2GTP_ReadHeader (data (stream conn));
                 conn = (case header of Inr n \<Rightarrow> conn\<lparr>payload_len := n\<rparr> | Inl _ \<Rightarrow> conn)
             in if header = Inl VERSION_DOES_NOT_MATCH then (- 1, conn, io)
                else if payload_len conn \<ge> 0xFFFFFFFF - of_nat V2GTP_HEADER_LENGTH then (- 1, conn, io)
                else if payload_len conn + of_nat V2GTP_HEADER_LENGTH > of_nat DEFAULT_BUFFER_SIZE
                then (- 1, conn, io)
                else
                  (case rd io (unat (payload_len conn)) of (rv, bs, io) \<Rightarrow>
                     let conn = store_at V2GTP_HEADER_LENGTH bs conn
                     in if rv < 0 then (- 1, conn, io)
                        else if rv \<noteq> uint (payload_len conn) then (- 1, conn, io)
                        else (0, conn\<lparr>stream := (stream conn)
                                \<lparr>byte_pos := V2GTP_HEADER_LENGTH,
                                 data_size := unat (payload_len conn) + V2GTP_HEADER_LENGTH\<rparr>\<rparr>, io)))"

text \<open>
  \<open>wr\<close> is the return value of the write callback for the bytes handed to it; the third
  component is what is sent.
\<close>

definition v2g_outgoing_v2gtp :: "(byte list \<Rightarrow> int) \<Rightarrow> v2g_connection \<Rightarrow> int \<times> v2g_connection \<times> byte list" where
  "v2g_outgoing_v2gtp wr conn =
     (let len = exi_bitstream_get_length (stream conn);
          payload = of_nat ((len + size_t_modulus - V2GTP_HEADER_LENGTH) mod size_t_modulus);
          conn = (case V2GTP_WriteHeader (data (stream conn)) payload of
                    Inr buf \<Rightarrow> conn\<lparr>stream := (stream conn)\<lparr>data := buf\<rparr>\<rparr> | Inl _ \<Rightarrow> conn);
          out = take len (data (stream conn))
      in if wr out = - 1 then (- 1, conn, out) else (0, conn, out))"

section \<open>Protocol negotiation\<close>

definition ascii :: "string \<Rightarrow> byte list" where
  "ascii s = map (\<lambda>c. of_nat (of_char c)) s"

definition ISO_15118_2013_MSG_DEF :: "byte list" where
  "ISO_15118_2013_MSG_DEF = ascii ''urn:iso:15118:2:2013:MsgDef''"

definition DIN_70121_MSG_DEF :: "byte list" where
  "DIN_70121_MSG_DEF = ascii ''urn:din:70121:2012:MsgDef''"

abbreviation (input) ISO_15118_2013_MAJOR :: u32 where "ISO_15118_2013_MAJOR \<equiv> 2"
abbreviation (input) ISO_15118_2013_MINOR :: u32 where "ISO_15118_2013_MINOR \<equiv> 0"
abbreviation (input) DIN_70121_MAJOR :: u32 where "DIN_70121_MAJOR \<equiv> 2"
abbreviation (input) DIN_70121_MINOR :: u32 where "DIN_70121_MINOR \<equiv> 0"

text \<open>\<^verbatim>\<open>strndup(characters, charactersLen)\<close> stops at a NUL character.\<close>

definition proto_ns :: "appHand_AppProtocolType \<Rightarrow> byte list" where
  "proto_ns p = takeWhile (\<lambda>c. c \<noteq> 0)
     (take (unat (ProtocolNamespace_charactersLen p)) (ProtocolNamespace_characters p))"

record negotiation =
  ev_app_priority :: byte
  neg_ResponseCode :: u32
  neg_SchemaID :: byte
  neg_protocol :: v2g_protocol

definition negotiate_step :: "byte \<Rightarrow> appHand_AppProtocolType \<Rightarrow> negotiation \<Rightarrow> negotiation" where
  "negotiate_step supported app_proto st =
     (if bit supported (protocol_bit V2G_PROTO_DIN70121) \<and> proto_ns app_proto = DIN_70121_MSG_DEF \<and>
         VersionNumberMajor app_proto = DIN_70121_MAJOR \<and> ev_app_priority st \<ge> Priority app_proto then
        st\<lparr>neg_ResponseCode := (if VersionNumberMinor app_proto = DIN_70121_MINOR
             then OK_SuccessfulNegotiation else OK_SuccessfulNegotiationWithMinorDeviation),
           ev_app_priority := Priority app_proto,
           neg_SchemaID := SchemaID app_proto,
           neg_protocol := V2G_PROTO_DIN70121\<rparr>
      else if bit supported (protocol_bit V2G_PROTO_ISO15118_2013) \<and> proto_ns app_proto = ISO_15118_2013_MSG_DEF \<and>
         VersionNumberMajor app_proto = ISO_15118_2013_MAJOR \<and> ev_app_priority st \<ge> Priority app_proto then
        st\<lparr>neg_ResponseCode := (if VersionNumberMinor app_proto = ISO_15118_2013_MINOR
             then OK_SuccessfulNegotiation else OK_SuccessfulNegotiationWithMinorDeviation),
           ev_app_priority := Priority app_proto,
           neg_SchemaID := SchemaID app_proto,
           neg_protocol := V2G_PROTO_ISO15118_2013\<rparr>
      else st)"

definition negotiate :: "byte \<Rightarrow> appHand_AppProtocolType list \<Rightarrow> negotiation \<Rightarrow> negotiation" where
  "negotiate supported protos st = fold (negotiate_step supported) protos st"

definition negotiated :: "u32 \<Rightarrow> bool" where
  "negotiated code \<longleftrightarrow> code = OK_SuccessfulNegotiation \<or> code = OK_SuccessfulNegotiationWithMinorDeviation"

text \<open>The response before any protocol is found, and after the loop over the offered ones.\<close>

definition initial_response :: "appHand_exiDocument \<Rightarrow> appHand_exiDocument" where
  "initial_response resp =
     (let resp = init_appHand_exiDocument resp
      in resp\<lparr>supportedAppProtocolRes_isUsed := True,
              supportedAppProtocolRes := (supportedAppProtocolRes resp)\<lparr>ResponseCode := Failed_NoNegotiation\<rparr>\<rparr>)"

definition negotiated_response :: "negotiation \<Rightarrow> appHand_exiDocument \<Rightarrow> appHand_exiDocument" where
  "negotiated_response st resp =
     (let res = supportedAppProtocolRes resp
      in resp\<lparr>supportedAppProtocolRes := res\<lparr>ResponseCode := neg_ResponseCode st, Res_SchemaID := neg_SchemaID st,
           SchemaID_isUsed := (if negotiated (neg_ResponseCode st) then True else SchemaID_isUsed res)\<rparr>\<rparr>)"

definition v2g_handle_apphandshake :: "v2g_connection \<Rightarrow> v2g_event \<times> v2g_connection" where
  "v2g_handle_apphandshake conn =
     (let resp = initial_response (handshake_resp conn);
          conn = conn\<lparr>handshake_resp := resp,
            ctx := (ctx conn)\<lparr>current_v2g_msg := V2G_SUPPORTED_APP_PROTOCOL_MSG\<rparr>\<rparr>
      in case decode_appHand_exiDocument (handshake_req conn) (stream conn) of
        (Inl _, s) \<Rightarrow> (V2G_EVENT_TERMINATE_CONNECTION, conn\<lparr>stream := s\<rparr>)
      | (Inr req, s) \<Rightarrow>
          let st = negotiate (supported_protocols (ctx conn)) (req_elements (supportedAppProtocolReq req))
                \<lparr>ev_app_priority = 20, neg_ResponseCode = ResponseCode (supportedAppProtocolRes resp),
                 neg_SchemaID = Res_SchemaID (supportedAppProtocolRes resp),
                 neg_protocol = selected_protocol (ctx conn)\<rparr>;
              resp = negotiated_response st resp;
              next_event = (if negotiated (neg_ResponseCode st) then V2G_EVENT_NO_EVENT
                            else V2G_EVENT_SEND_AND_TERMINATE);
              conn = conn\<lparr>stream := s, handshake_req := req, handshake_resp := resp,
                          ctx := (ctx conn)\<lparr>selected_protocol := neg_protocol st\<rparr>\<rparr>
          in if is_connection_terminated (ctx conn) then (V2G_EVENT_TERMINATE_CONNECTION, conn)
             else
               let abort = intl_emergency_shutdown (ctx conn) \<or> stop_hlc (ctx conn) \<or>
                     next_event = V2G_EVENT_SEND_AND_TERMINATE;
                   resp = (if abort
                     then resp\<lparr>supportedAppProtocolRes :=
                            (supportedAppProtocolRes resp)\<lparr>ResponseCode := Failed_NoNegotiation\<rparr>\<rparr>
                     else resp);
                   next_event = (if abort \<and> terminate_connection_on_failed_response (ctx conn)
                     then V2G_EVENT_SEND_AND_TERMINATE else next_event);
                   (r, s) = encode_appHand_exiDocument resp
                     ((stream conn)\<lparr>byte_pos := V2GTP_HEADER_LENGTH, bit_count := 0\<rparr>)
               in (if r = Inr () then next_event else V2G_EVENT_SEND_AND_TERMINATE,
                   conn\<lparr>stream := s, handshake_resp := resp\<rparr>))"

section \<open>What the reader promises\<close>

text \<open>
  The contract of the read callback: it stores at most the requested number of bytes, and a
  non-negative return value is their number.
\<close>

locale v2g_reader =
  fixes rd :: "'io reader"
  assumes rd_bound: "rd io n = (rv, bs, io') \<Longrightarrow> length bs \<le> n"
    and rd_count: "rd io n = (rv, bs, io') \<Longrightarrow> 0 \<le> rv \<Longrightarrow> rv = int (length bs)"

lemma connection_read_bound:
  assumes "connection_read es count acc = (rv, bs, es')" "length acc \<le> count"
  shows "length bs \<le> count" "0 \<le> rv \<Longrightarrow> rv = int (length bs)"
proof -
  have "length bs \<le> count \<and> (0 \<le> rv \<longrightarrow> rv = int (length bs))"
    using assms
  proof (induction es count acc rule: connection_read.induct)
    case (1 es count acc)
    show ?case
      using "1.prems"(1)[unfolded connection_read.simps[of es count acc]] "1.prems"(2) "1.IH"
      by (auto simp: Let_def split: if_splits list.splits socket_event.splits)
  qed
  then show "length bs \<le> count" "0 \<le> rv \<Longrightarrow> rv = int (length bs)" by auto
qed

interpretation socket: v2g_reader socket_reader
  by unfold_locales (auto simp: socket_reader_def dest: connection_read_bound)

text \<open>
  Events that deliver data: the bytes arrive in arbitrary pieces, with interruptions and idle
  rounds in between.
\<close>

fun benign :: "socket_event \<Rightarrow> bool" where
  "benign (Received bs) \<longleftrightarrow> bs \<noteq> []"
| "benign Interrupted \<longleftrightarrow> True"
| "benign NothingReady \<longleftrightarrow> True"
| "benign _ \<longleftrightarrow> False"

fun event_bytes :: "socket_event \<Rightarrow> byte list" where
  "event_bytes (Received bs) = bs"
| "event_bytes _ = []"

definition delivers :: "socket_event list \<Rightarrow> byte list \<Rightarrow> bool" where
  "delivers es bs \<longleftrightarrow> list_all benign es \<and> concat (map event_bytes es) = bs"

lemma connection_read_steps:
  "length acc < count \<Longrightarrow> connection_read (Interrupted # es) count acc = connection_read es count acc"
  "length acc < count \<Longrightarrow> connection_read (NothingReady # es) count acc = connection_read es count acc"
  "length acc < count \<Longrightarrow> cs \<noteq> [] \<Longrightarrow> length cs \<le> count - length acc \<Longrightarrow>
    connection_read (Received cs # es) count acc = connection_read es count (acc @ cs)"
  "length acc < count \<Longrightarrow> cs \<noteq> [] \<Longrightarrow> \<not> length cs \<le> count - length acc \<Longrightarrow>
    connection_read (Received cs # es) count acc =
      connection_read (Received (drop (count - length acc) cs) # es) count (acc @ take (count - length acc) cs)"
  by (subst connection_read.simps; simp add: Let_def)+

lemma connection_read_done:
  "list_all benign es \<Longrightarrow> count \<le> length acc \<Longrightarrow> connection_read es count acc = (int (length acc), acc, es)"
  by (subst connection_read.simps) (auto split: list.splits socket_event.splits)

lemma connection_read_delivers:
  assumes "delivers es bs" "length acc \<le> count" "count \<le> length acc + length bs"
  shows "\<exists>es'. connection_read es count acc = (int count, acc @ take (count - length acc) bs, es') \<and>
    delivers es' (drop (count - length acc) bs)"
  using assms
proof (induction es arbitrary: acc bs)
  case Nil
  then show ?case by (simp add: delivers_def connection_read_done)
next
  case (Cons e es)
  let ?n = "count - length acc"
  consider "count \<le> length acc" | "length acc < count" "e = Interrupted \<or> e = NothingReady"
    | cs where "length acc < count" "e = Received cs" "cs \<noteq> []"
    using Cons.prems(1) by (cases "length acc < count"; cases e) (auto simp: delivers_def not_less)
  then show ?case
  proof cases
    case 1
    with Cons.prems show ?thesis by (auto simp: delivers_def connection_read_done)
  next
    case 2
    with Cons.IH[of bs acc] Cons.prems show ?thesis
      by (auto simp: delivers_def connection_read_steps)
  next
    case 3
    obtain ds where ds: "bs = cs @ ds" "delivers es ds"
      using Cons.prems(1) 3 by (auto simp: delivers_def)
    show ?thesis
    proof (cases "length cs \<le> ?n")
      case True
      with Cons.IH[of ds "acc @ cs"] Cons.prems 3 ds show ?thesis
        by (simp add: connection_read_steps)
    next
      case False
      with 3 ds have "connection_read (e # es) count acc =
          (int (length (acc @ take ?n cs)), acc @ take ?n cs, Received (drop ?n cs) # es)"
        by (simp add: connection_read_steps connection_read_done delivers_def)
      with False 3 ds show ?thesis by (simp add: delivers_def)
    qed
  qed
qed

lemma socket_reader_delivers:
  assumes "delivers es (bs @ cs)"
  shows "\<exists>es'. socket_reader es (length bs) = (int (length bs), bs, es') \<and> delivers es' cs"
  using connection_read_delivers[OF assms, of "[]" "length bs"] by (simp add: socket_reader_def)

section \<open>The received message stays inside the buffer\<close>

definition conn_wf :: "v2g_connection \<Rightarrow> bool" where
  "conn_wf conn \<longleftrightarrow> length (data (stream conn)) = DEFAULT_BUFFER_SIZE \<and>
     doc_wf (handshake_req conn) \<and> bit_count (stream conn) = 0"

lemma store_at_length:
  "pos + length bs \<le> length (data (stream conn)) \<Longrightarrow>
    length (data (stream (store_at pos bs conn))) = length (data (stream conn))"
  by (simp add: store_at_def)

lemma store_at_fields [simp]:
  "ctx (store_at pos bs conn) = ctx conn" "payload_len (store_at pos bs conn) = payload_len conn"
  "handshake_req (store_at pos bs conn) = handshake_req conn"
  "handshake_resp (store_at pos bs conn) = handshake_resp conn"
  "bit_count (stream (store_at pos bs conn)) = bit_count (stream conn)"
  by (simp_all add: store_at_def)

lemma payload_bound:
  assumes "\<not> payload_len conn \<ge> 0xFFFFFFFF - of_nat V2GTP_HEADER_LENGTH"
    and "\<not> payload_len conn + of_nat V2GTP_HEADER_LENGTH > of_nat DEFAULT_BUFFER_SIZE"
  shows "unat (payload_len conn) + V2GTP_HEADER_LENGTH \<le> DEFAULT_BUFFER_SIZE"
proof -
  have "unat (payload_len conn) < 0xFFFFFFF7"
    using assms(1) by (simp add: V2GTP_HEADER_LENGTH_def word_le_nat_alt)
  then have "unat (payload_len conn + 8) = unat (payload_len conn) + 8"
    by (simp add: unat_word_ariths)
  with assms(2) show ?thesis
    by (simp add: V2GTP_HEADER_LENGTH_def DEFAULT_BUFFER_SIZE_def word_less_nat_alt)
qed

context v2g_reader
begin

lemma incoming_safe:
  assumes wf: "conn_wf conn" and run: "v2g_incoming_v2gtp rd conn io = (rv, conn', io')"
  shows "conn_wf conn'" "rv \<in> {- 1, 0, 1}"
    "rv = 0 \<Longrightarrow> stream_wf (stream conn') \<and> byte_pos (stream conn') = V2GTP_HEADER_LENGTH \<and>
      data_size (stream conn') = unat (payload_len conn') + V2GTP_HEADER_LENGTH"
proof -
  obtain r1 bs1 io1 where r1: "rd io V2GTP_HEADER_LENGTH = (r1, bs1, io1)" by (metis prod_cases3)
  define c1 where "c1 = store_at 0 bs1 conn"
  have c1: "conn_wf c1"
    using wf rd_bound[OF r1] store_at_length[of 0 bs1 conn]
    by (simp add: c1_def conn_wf_def V2GTP_HEADER_LENGTH_def DEFAULT_BUFFER_SIZE_def)
  define h where "h = V2GTP_ReadHeader (data (stream c1))"
  define c2 where "c2 = (case h of Inr n \<Rightarrow> c1\<lparr>payload_len := n\<rparr> | Inl _ \<Rightarrow> c1)"
  have c2: "conn_wf c2" using c1 by (auto simp: c2_def conn_wf_def split: sum.splits)
  obtain r2 bs2 io2 where r2: "rd io1 (unat (payload_len c2)) = (r2, bs2, io2)" by (metis prod_cases3)
  define c3 where "c3 = store_at V2GTP_HEADER_LENGTH bs2 c2"
  let ?guard = "payload_len c2 \<ge> 0xFFFFFFFF - of_nat V2GTP_HEADER_LENGTH \<or>
    payload_len c2 + of_nat V2GTP_HEADER_LENGTH > of_nat DEFAULT_BUFFER_SIZE"
  have bound: "unat (payload_len c2) + V2GTP_HEADER_LENGTH \<le> DEFAULT_BUFFER_SIZE" if "\<not> ?guard"
    using payload_bound[of c2] that by blast
  have c3: "conn_wf c3" if "\<not> ?guard"
    using c2 bound[OF that] rd_bound[OF r2] store_at_length[of V2GTP_HEADER_LENGTH bs2 c2]
    by (simp add: c3_def conn_wf_def)
  have unroll: "v2g_incoming_v2gtp rd conn io =
     (if r1 < 0 then (- 1, c1, io1) else if r1 = 0 then (1, c1, io1)
      else if r1 \<noteq> int V2GTP_HEADER_LENGTH then (- 1, c1, io1)
      else if h = Inl VERSION_DOES_NOT_MATCH \<or> ?guard then (- 1, c2, io1)
      else if r2 < 0 \<or> r2 \<noteq> uint (payload_len c3) then (- 1, c3, io2)
      else (0, c3\<lparr>stream := (stream c3)\<lparr>byte_pos := V2GTP_HEADER_LENGTH,
              data_size := unat (payload_len c3) + V2GTP_HEADER_LENGTH\<rparr>\<rparr>, io2))"
    unfolding v2g_incoming_v2gtp_def r1 prod.case c1_def[symmetric] h_def[symmetric] Let_def
      c2_def[symmetric] r2 c3_def[symmetric]
    by simp
  show "conn_wf conn'" "rv \<in> {- 1, 0, 1}"
    using run c1 c2 c3 unfolding unroll by (auto simp: conn_wf_def split: if_splits)
  show "stream_wf (stream conn') \<and> byte_pos (stream conn') = V2GTP_HEADER_LENGTH \<and>
      data_size (stream conn') = unat (payload_len conn') + V2GTP_HEADER_LENGTH" if "rv = 0"
    using run that c3 bound unfolding unroll
    by (auto simp: conn_wf_def stream_wf_def c3_def split: if_splits)
qed

end

section \<open>The selected protocol\<close>

text \<open>
  A protocol of the charger that an offer matches. The two names differ, so at most one does.
\<close>

definition matches :: "byte \<Rightarrow> appHand_AppProtocolType \<Rightarrow> v2g_protocol option" where
  "matches supported p =
     (if bit supported 0 \<and> proto_ns p = DIN_70121_MSG_DEF \<and> VersionNumberMajor p = DIN_70121_MAJOR
      then Some V2G_PROTO_DIN70121
      else if bit supported 2 \<and> proto_ns p = ISO_15118_2013_MSG_DEF \<and> VersionNumberMajor p = ISO_15118_2013_MAJOR
      then Some V2G_PROTO_ISO15118_2013 else None)"

definition accept :: "appHand_AppProtocolType \<Rightarrow> v2g_protocol \<Rightarrow> negotiation" where
  "accept p proto = \<lparr>ev_app_priority = Priority p,
     neg_ResponseCode = (if VersionNumberMinor p = 0 then OK_SuccessfulNegotiation
       else OK_SuccessfulNegotiationWithMinorDeviation),
     neg_SchemaID = SchemaID p, neg_protocol = proto\<rparr>"

lemma negotiate_step_eq:
  "negotiate_step supported p st =
     (case matches supported p of
        Some proto \<Rightarrow> if ev_app_priority st \<ge> Priority p then accept p proto else st
      | None \<Rightarrow> st)"
  by (auto simp: negotiate_step_def matches_def accept_def)

definition best_offer :: "byte \<Rightarrow> byte \<Rightarrow> appHand_AppProtocolType list \<Rightarrow> appHand_AppProtocolType \<Rightarrow> bool" where
  "best_offer supported limit ps p \<longleftrightarrow> p \<in> set ps \<and> matches supported p \<noteq> None \<and> Priority p \<le> limit \<and>
     (\<forall>q \<in> set ps. matches supported q \<noteq> None \<longrightarrow> Priority p \<le> Priority q)"

text \<open>
  The loop picks a supported offer of the best priority (the smallest number) if there is one
  within the limit, and changes nothing otherwise.
\<close>

lemma negotiate_spec:
  "if (\<exists>p \<in> set ps. matches supported p \<noteq> None \<and> Priority p \<le> ev_app_priority st)
   then \<exists>p proto. best_offer supported (ev_app_priority st) ps p \<and> matches supported p = Some proto \<and>
     negotiate supported ps st = accept p proto
   else negotiate supported ps st = st"
proof (induction ps rule: rev_induct)
  case Nil
  then show ?case by (simp add: negotiate_def)
next
  case (snoc q ps)
  let ?cand = "\<exists>p \<in> set ps. matches supported p \<noteq> None \<and> Priority p \<le> ev_app_priority st"
  have step: "negotiate supported (ps @ [q]) st = negotiate_step supported q (negotiate supported ps st)"
    by (simp add: negotiate_def)
  show ?case
  proof (cases ?cand)
    case True
    then obtain p proto where p: "best_offer supported (ev_app_priority st) ps p"
        "matches supported p = Some proto" "negotiate supported ps st = accept p proto"
      using snoc by auto
    show ?thesis
    proof (cases "matches supported q \<noteq> None \<and> Priority q \<le> Priority p")
      case True
      then obtain qp where "matches supported q = Some qp" by auto
      with True p \<open>?cand\<close> show ?thesis
        by (auto simp: step negotiate_step_eq accept_def best_offer_def intro!: exI[of _ q])
    next
      case False
      with p \<open>?cand\<close> show ?thesis
        by (auto simp: step negotiate_step_eq accept_def best_offer_def split: option.splits intro!: exI[of _ p])
    qed
  next
    case False
    with snoc have same: "negotiate supported ps st = st" by auto
    show ?thesis
    proof (cases "matches supported q \<noteq> None \<and> Priority q \<le> ev_app_priority st")
      case True
      then obtain qp where qp: "matches supported q = Some qp" by auto
      have "Priority q \<le> Priority p" if "p \<in> set ps" "matches supported p \<noteq> None" for p
        using False that True by (meson le_less_linear less_imp_le order_trans)
      with True qp show ?thesis
        by (auto simp: step same negotiate_step_eq best_offer_def intro!: exI[of _ q])
    next
      case no: False
      with False show ?thesis
        by (auto simp: step same negotiate_step_eq split: option.splits)
    qed
  qed
qed

text \<open>Only the parts of an offer that the message carries matter for the negotiation.\<close>

lemma matches_same:
  assumes "same_app_protocol p q"
  shows "matches supported q = matches supported p" "accept q proto = accept p proto" "Priority q = Priority p"
proof -
  have "proto_ns q = proto_ns p" using assms by (simp add: same_app_protocol_def proto_ns_def)
  with assms show "matches supported q = matches supported p" "accept q proto = accept p proto"
      "Priority q = Priority p"
    by (simp_all add: same_app_protocol_def matches_def accept_def)
qed

lemma negotiate_same:
  "list_all2 same_app_protocol ps qs \<Longrightarrow> negotiate supported qs st = negotiate supported ps st"
proof (induction ps qs arbitrary: st rule: list_all2_induct)
  case (Cons p ps q qs)
  have "negotiate_step supported q st = negotiate_step supported p st"
    using matches_same[OF Cons.hyps(1)] by (auto simp: negotiate_step_eq split: option.splits)
  with Cons.IH show ?case by (simp add: negotiate_def)
qed (simp add: negotiate_def)

section \<open>The response\<close>

definition response_bits :: nat where
  "response_bits = 28"

lemma response_code_length: "\<not> supportedAppProtocolReq_isUsed d \<Longrightarrow> length (doc_code d) \<le> response_bits"
  by (simp add: doc_code_def res_code_def element_code_def response_bits_def)

text \<open>The handler in one piece, for a connection on which nothing interferes.\<close>

definition calm :: "v2g_context \<Rightarrow> bool" where
  "calm c \<longleftrightarrow> \<not> is_connection_terminated c \<and> \<not> intl_emergency_shutdown c \<and> \<not> stop_hlc c"

definition initial_negotiation :: "v2g_connection \<Rightarrow> negotiation" where
  "initial_negotiation conn = \<lparr>ev_app_priority = 20, neg_ResponseCode = Failed_NoNegotiation,
     neg_SchemaID = Res_SchemaID (supportedAppProtocolRes (handshake_resp conn)),
     neg_protocol = selected_protocol (ctx conn)\<rparr>"

lemma handle_apphandshake_calm:
  fixes conn req s
  defines "st \<equiv> negotiate (supported_protocols (ctx conn)) (req_elements (supportedAppProtocolReq req))
    (initial_negotiation conn)"
  defines "resp \<equiv> negotiated_response st (initial_response (handshake_resp conn))"
  assumes dec: "decode_appHand_exiDocument (handshake_req conn) (stream conn) = (Inr req, s)"
    and calm: "calm (ctx conn)"
    and enc: "encode_appHand_exiDocument resp (s\<lparr>byte_pos := V2GTP_HEADER_LENGTH, bit_count := 0\<rparr>) = (Inr (), s')"
    and code: "neg_ResponseCode st \<le> Failed_NoNegotiation"
  shows "v2g_handle_apphandshake conn =
    (if negotiated (neg_ResponseCode st) then V2G_EVENT_NO_EVENT else V2G_EVENT_SEND_AND_TERMINATE,
     conn\<lparr>stream := s', handshake_req := req, handshake_resp := resp,
          ctx := (ctx conn)\<lparr>current_v2g_msg := V2G_SUPPORTED_APP_PROTOCOL_MSG, selected_protocol := neg_protocol st\<rparr>\<rparr>)"
proof -
  have res: "ResponseCode (supportedAppProtocolRes (initial_response r)) = Failed_NoNegotiation"
    "Res_SchemaID (supportedAppProtocolRes (initial_response r)) = Res_SchemaID (supportedAppProtocolRes r)" for r
    by (simp_all add: initial_response_def init_appHand_exiDocument_def Let_def)
  have failed: "neg_ResponseCode st = Failed_NoNegotiation" if "\<not> negotiated (neg_ResponseCode st)"
  proof -
    have "unat (neg_ResponseCode st) \<le> 2" using code by (simp add: word_le_nat_alt)
    moreover have "unat (neg_ResponseCode st) \<noteq> 0" "unat (neg_ResponseCode st) \<noteq> 1"
      using that by (auto simp: negotiated_def word_unat_eq_iff)
    ultimately have "unat (neg_ResponseCode st) = unat (2 :: u32)" by simp
    then show ?thesis by (simp only: word_unat_eq_iff)
  qed
  then have same: "(if negotiated (neg_ResponseCode st) then resp else
      resp\<lparr>supportedAppProtocolRes := (supportedAppProtocolRes resp)\<lparr>ResponseCode := Failed_NoNegotiation\<rparr>\<rparr>) = resp"
    by (simp add: resp_def negotiated_response_def Let_def)
  show ?thesis
    using dec calm enc same
    by (simp add: v2g_handle_apphandshake_def Let_def res calm_def initial_negotiation_def[symmetric]
        st_def[symmetric] resp_def[symmetric] split: if_splits)
qed

section \<open>Properties of the transport\<close>

text \<open>A fresh connection for the examples, with a mask of supported protocols.\<close>

definition example_context :: "byte \<Rightarrow> v2g_context" where
  "example_context supported =
     (let p = init_physical_value
      in \<lparr>last_v2g_msg = V2G_UNKNOWN_MSG, current_v2g_msg = V2G_UNKNOWN_MSG, state = 0, is_fake_dc = False,
          supported_protocols = supported, selected_protocol = V2G_UNKNOWN_PROTOCOL,
          intl_emergency_shutdown = False, error_shutdown = False, error_shutdown_reported = False,
          stop_hlc = False, is_connection_terminated = False, terminate_connection_on_failed_response = True,
          hlc_pause_active = False,
          evse_data =
            \<lparr>session_id = 0, notification_max_delay = 0, evse_isolation_status = isolation_Valid,
             evse_isolation_status_is_used = True, evse_notification = EVSENotification_None,
             evse_status_code = (\<lambda>_. EVSE_Ready), evse_processing = (\<lambda>_. EVSEProcessing_Finished),
             evse_id = [1, 2], date_time_now_is_used = False, charge_service_ServiceID = 1,
             charge_service_FreeService = False, charge_service_EnergyTransferMode0 = 3,
             evse_current_regulation_tolerance = p iso2_unit_A, evse_current_regulation_tolerance_is_used = False,
             evse_energy_to_be_delivered = p iso2_unit_Wh, evse_energy_to_be_delivered_is_used = False,
             evse_maximum_current_limit = p iso2_unit_A, evse_maximum_current_limit_is_used = False,
             evse_current_limit_achieved = False,
             evse_maximum_power_limit = p iso2_unit_W, evse_maximum_power_limit_is_used = False,
             evse_power_limit_achieved = False,
             evse_maximum_voltage_limit = p iso2_unit_V, evse_maximum_voltage_limit_is_used = False,
             evse_voltage_limit_achieved = False, evse_peak_current_ripple = p iso2_unit_A,
             evse_present_voltage = p iso2_unit_V, evse_present_current = p iso2_unit_A,
             no_energy_pause = NoPause,
             power_capabilities = \<lparr>pc_max_current = p iso2_unit_A, pc_min_current = p iso2_unit_A,
               pc_max_power = p iso2_unit_W, pc_max_voltage = p iso2_unit_V, pc_min_voltage = p iso2_unit_V\<rparr>\<rparr>,
          session = \<lparr>authorization_rejected = False, is_charging = False, renegotiation_required = False\<rparr>,
          ev_data =
            \<lparr>bulk_charging_complete = - 1, charging_complete = - 1, received_session_id = - 1,
             ev_status_EVErrorCode = - 1, ev_status_EVReady = - 1, ev_status_EVRESSSOC = - 1,
             ev_maximum_current_limit = None, ev_maximum_power_limit = None, ev_maximum_voltage_limit = None,
             v2g_target_current = None, v2g_target_voltage = None, remaining_time_to_bulk_soc = None,
             remaining_time_to_full_soc = None\<rparr>,
          published = []\<rparr>)"

definition example_connection :: "byte \<Rightarrow> v2g_connection" where
  "example_connection supported =
     \<lparr>ctx = example_context supported,
      stream = exi_bitstream_init (replicate DEFAULT_BUFFER_SIZE 0) 0 0, payload_len = 0,
      handshake_req = appHand_exiDocument_blank, handshake_resp = appHand_exiDocument_blank,
      d_link_action = D_LINK_ACTION_ERROR, session_stop_res_pending = SESSION_STOP_NONE,
      last_v2g_msg_at_disconnect = V2G_UNKNOWN_MSG\<rparr>"

lemma example_connection_facts:
  "length (data (stream (example_connection m))) = DEFAULT_BUFFER_SIZE"
  "doc_wf (handshake_req (example_connection m))" "calm (ctx (example_connection m))"
  "supported_protocols (ctx (example_connection m)) = m"
  "selected_protocol (ctx (example_connection m)) = V2G_UNKNOWN_PROTOCOL"
  by (simp_all add: example_connection_def example_context_def exi_bitstream_init_def calm_def Let_def)

text \<open>
  C30: reading from the socket makes progress. Whatever pieces the bytes arrive in, with
  interruptions and idle rounds in between, \<^const>\<open>connection_read\<close> returns exactly the requested
  bytes in order and leaves the following ones for the next call.
\<close>

theorem connection_read_complete:
  assumes "delivers es (bs @ cs)"
  shows "\<exists>es'. connection_read es (length bs) [] = (int (length bs), bs, es') \<and> delivers es' cs"
  using socket_reader_delivers[OF assms] by (simp add: socket_reader_def)

theorem connection_read_complete_witness:
  "\<exists>es'. connection_read [Received [1], NothingReady, Received [2, 3, 4]] (length [1 :: byte, 2]) [] =
    (int (length [1 :: byte, 2]), [1, 2], es') \<and> delivers es' [3, 4]"
  by (rule connection_read_complete) (simp add: delivers_def)

text \<open>
  C29: a received frame never leaves the buffer. Whatever the socket delivers, the bytes stored
  stay inside the 8192 bytes, the return value is one of the three documented ones, and on
  success the stream covers exactly the announced payload inside the buffer.
\<close>

theorem incoming_stays_in_buffer:
  assumes "conn_wf conn" "v2g_incoming_v2gtp socket_reader conn es = (rv, conn', es')"
  shows "conn_wf conn' \<and> rv \<in> {- 1, 0, 1} \<and>
    (rv = 0 \<longrightarrow> stream_wf (stream conn') \<and> byte_pos (stream conn') = V2GTP_HEADER_LENGTH \<and>
       data_size (stream conn') = unat (payload_len conn') + V2GTP_HEADER_LENGTH \<and>
       data_size (stream conn') \<le> DEFAULT_BUFFER_SIZE)"
proof -
  note safe = socket.incoming_safe[OF assms]
  have "data_size (stream conn') \<le> DEFAULT_BUFFER_SIZE" if "rv = 0"
    using safe(1) safe(3)[OF that] by (simp add: conn_wf_def stream_wf_def)
  with safe show ?thesis by blast
qed

lemma example_connection_wf: "conn_wf (example_connection m)"
  by (simp add: conn_wf_def example_connection_facts) (simp add: example_connection_def exi_bitstream_init_def)

theorem incoming_stays_in_buffer_witness:
  "conn_wf (fst (snd (v2g_incoming_v2gtp socket_reader (example_connection 5)
     [Received [1, 0xFE, 0x80, 1, 0xFF, 0xFF, 0xFF, 0xF6], Received [1, 2, 3]])))"
  using incoming_stays_in_buffer[OF example_connection_wf, of 5
      "[Received [1, 0xFE, 0x80, 1, 0xFF, 0xFF, 0xFF, 0xF6], Received [1, 2, 3]]"]
  by (metis prod.collapse)

text \<open>
  C31: a frame whose payload identifier does not name an EXI message is not rejected. The
  identifier mismatch has its own error value, which the caller does not test for, so after the
  reset of \<^verbatim>\<open>payload_len\<close> the frame passes as an empty message and its payload is taken for the
  next header.
\<close>

theorem incoming_accepts_foreign_payload_id:
  assumes "length (data (stream conn)) = DEFAULT_BUFFER_SIZE" "payload_len conn = 0"
    and "length hdr = V2GTP_HEADER_LENGTH" "delivers es (hdr @ rest)"
    and "V2GTP_ReadHeader hdr = Inl PAYLOAD_ID_DOES_NOT_MATCH"
  shows "\<exists>conn' es'. v2g_incoming_v2gtp socket_reader conn es = (0, conn', es') \<and>
    data_size (stream conn') = V2GTP_HEADER_LENGTH \<and> delivers es' rest"
proof -
  obtain es1 where es1: "socket_reader es 8 = (8, hdr, es1)" "delivers es1 rest"
    using socket_reader_delivers[OF assms(4)] assms(3) by (auto simp: V2GTP_HEADER_LENGTH_def)
  obtain es2 where es2: "socket_reader es1 0 = (0, [], es2)" "delivers es2 rest"
    using socket_reader_delivers[of es1 "[]" rest] es1(2) by auto
  have "hdr \<noteq> []" using assms(3) by (auto simp: V2GTP_HEADER_LENGTH_def)
  then have "V2GTP_ReadHeader (hdr @ xs) = Inl PAYLOAD_ID_DOES_NOT_MATCH" for xs
    using assms(3,5)
    by (simp add: V2GTP_ReadHeader_def V2GTP20_ReadHeader_def V2GTP_HEADER_LENGTH_def nth_append split: if_splits)
  with es1(1) es2 assms(2,3) show ?thesis
    by (simp add: v2g_incoming_v2gtp_def V2GTP_HEADER_LENGTH_def DEFAULT_BUFFER_SIZE_def store_at_def Let_def)
qed

theorem incoming_accepts_foreign_payload_id_witness:
  "\<exists>conn' es'. v2g_incoming_v2gtp socket_reader (example_connection 5)
      [Received [1, 0xFE, 0x90, 0, 0, 0, 0, 2], Received [0xAA, 0xBB]] = (0, conn', es') \<and>
    data_size (stream conn') = V2GTP_HEADER_LENGTH \<and> delivers es' [0xAA, 0xBB]"
  by (rule incoming_accepts_foreign_payload_id[where hdr = "[1, 0xFE, 0x90, 0, 0, 0, 0, 2]"])
    (simp_all add: example_connection_facts, simp_all add: example_connection_def delivers_def
      V2GTP_HEADER_LENGTH_def V2GTP_ReadHeader_def V2GTP20_ReadHeader_def)

end
