(* ===== verification/V2G_Handshake.thy ===== *)
theory V2G_Handshake
  imports V2G_Server
begin

text \<open>
  The first phase of a V2G connection (\<^verbatim>\<open>v2g_handle_connection\<close> of
  \<^verbatim>\<open>modules/EVSE/EvseV2G/v2g_server.cpp\<close> up to the end of the protocol handshake): the request of
  the vehicle is received, the protocol is negotiated and the response is sent. The theorems
  compose the socket, the transport header, the EXI codec and the negotiation.
\<close>

section \<open>The phase\<close>

text \<open>
  The retry loop of the source runs once: its condition needs \<^verbatim>\<open>rv == 1\<close>, and \<^verbatim>\<open>rv\<close> is 0 whenever
  the condition is reached. The result is the value of \<^verbatim>\<open>rv\<close>, whether the session goes on after
  the handshake, the connection, the bytes sent and the rest of the input.
\<close>

definition setup_for_receive :: "v2g_connection \<Rightarrow> v2g_connection" where
  "setup_for_receive conn =
     conn\<lparr>stream := exi_bitstream_init ((data (stream conn))[0 := 0]) 0 0, payload_len := 0\<rparr>"

definition v2g_handshake_phase ::
    "'io reader \<Rightarrow> (byte list \<Rightarrow> int) \<Rightarrow> v2g_connection \<Rightarrow> 'io \<Rightarrow>
     int \<times> bool \<times> v2g_connection \<times> byte list list \<times> 'io" where
  "v2g_handshake_phase rd wr conn io =
     (case v2g_incoming_v2gtp rd (setup_for_receive conn) io of (rv, conn, io) \<Rightarrow>
        if rv \<noteq> 0 then (rv, False, conn, [], io)
        else if is_connection_terminated (ctx conn) then (- 1, False, conn, [], io)
        else
          (case v2g_handle_apphandshake conn of (rvAppHandshake, conn) \<Rightarrow>
             let sending = rvAppHandshake = V2G_EVENT_SEND_AND_TERMINATE \<or> rvAppHandshake = V2G_EVENT_NO_EVENT;
                 (rv, conn, sent) = (if sending
                   then (case v2g_outgoing_v2gtp wr conn of (rv, conn, out) \<Rightarrow> (rv, conn, [out]))
                   else (rv, conn, []))
             in if sending \<and> rv = - 1 then (rv, False, conn, sent, io)
                else if rvAppHandshake = V2G_EVENT_SEND_AND_TERMINATE \<or>
                        rvAppHandshake = V2G_EVENT_TERMINATE_CONNECTION
                then (- 1, False, conn, sent, io)
                else (rv, True, conn, sent, io)))"

section \<open>Receiving a message\<close>

text \<open>The bytes of a message on the wire: the header and the payload.\<close>

definition v2gtp_message :: "byte list \<Rightarrow> byte list" where
  "v2gtp_message bs = (case V2GTP_WriteHeader (replicate V2GTP_HEADER_LENGTH 0) (of_nat (length bs)) of
     Inr hdr \<Rightarrow> hdr @ bs | Inl _ \<Rightarrow> [])"

lemma read_header_append:
  "8 \<le> length hdr \<Longrightarrow> V2GTP20_ReadHeader (hdr @ xs) pid = V2GTP20_ReadHeader hdr pid"
proof -
  assume "8 \<le> length hdr"
  moreover from this have "hdr \<noteq> []" by auto
  ultimately show ?thesis
    by (simp add: V2GTP20_ReadHeader_def V2GTP_HEADER_LENGTH_def nth_append)
qed

lemma v2gtp_message_parts:
  obtains hdr where "v2gtp_message bs = hdr @ bs" "length hdr = V2GTP_HEADER_LENGTH"
    "\<And>xs. V2GTP_ReadHeader (hdr @ xs) = Inr (of_nat (length bs))"
proof -
  obtain hdr where hdr: "V2GTP_WriteHeader (replicate 8 0) (of_nat (length bs)) = Inr hdr" "length hdr = 8"
      "V2GTP20_ReadHeader hdr V2GTP20_SAP_PAYLOAD_ID = Inr (of_nat (length bs))"
    using write_header_spec[of "replicate 8 0" "of_nat (length bs)" V2GTP20_SAP_PAYLOAD_ID]
    by (auto simp: V2GTP_WriteHeader_def)
  show thesis
    by (rule that[of hdr])
      (use hdr in \<open>simp_all add: v2gtp_message_def V2GTP_HEADER_LENGTH_def V2GTP_ReadHeader_def read_header_append\<close>)
qed

text \<open>
  A message that arrives in arbitrary pieces is stored completely, and the stream covers
  exactly its payload.
\<close>

lemma incoming_message:
  assumes size: "length (data (stream conn)) = DEFAULT_BUFFER_SIZE"
    and fits: "length bs + V2GTP_HEADER_LENGTH \<le> DEFAULT_BUFFER_SIZE"
    and del: "delivers es (v2gtp_message bs @ rest)"
  obtains es' buf where "delivers es' rest" "length buf = DEFAULT_BUFFER_SIZE"
    "take (length bs) (drop V2GTP_HEADER_LENGTH buf) = bs"
    "v2g_incoming_v2gtp socket_reader conn es = (0, conn\<lparr>payload_len := of_nat (length bs),
      stream := (stream conn)\<lparr>data := buf, byte_pos := V2GTP_HEADER_LENGTH,
        data_size := length bs + V2GTP_HEADER_LENGTH\<rparr>\<rparr>, es')"
proof -
  obtain hdr where hdr: "v2gtp_message bs = hdr @ bs" "length hdr = 8"
      "\<And>xs. V2GTP_ReadHeader (hdr @ xs) = Inr (of_nat (length bs))"
    using v2gtp_message_parts[of bs] by (auto simp: V2GTP_HEADER_LENGTH_def)
  obtain es1 where es1: "socket_reader es 8 = (8, hdr, es1)" "delivers es1 (bs @ rest)"
    using socket_reader_delivers[of es hdr "bs @ rest"] del hdr by auto
  obtain es2 where es2: "socket_reader es1 (length bs) = (int (length bs), bs, es2)" "delivers es2 rest"
    using socket_reader_delivers[OF es1(2)] by auto
  have small: "length bs \<le> 8184" "length (data (stream conn)) = 8192"
    using fits size by (simp_all add: V2GTP_HEADER_LENGTH_def DEFAULT_BUFFER_SIZE_def)
  let ?n = "of_nat (length bs) :: u32"
  have n: "unat ?n = length bs" "uint ?n = int (length bs)"
    using small(1) by (simp_all add: unat_of_nat uint_nat)
  let ?buf = "hdr @ bs @ drop (length bs + 8) (data (stream conn))"
  have guards: "\<not> ?n \<ge> 0xFFFFFFFF - of_nat V2GTP_HEADER_LENGTH"
      "\<not> ?n + of_nat V2GTP_HEADER_LENGTH > of_nat DEFAULT_BUFFER_SIZE"
    using small(1) n(1)
    by (simp_all add: V2GTP_HEADER_LENGTH_def DEFAULT_BUFFER_SIZE_def word_le_nat_alt word_less_nat_alt
        unat_word_ariths)
  have run: "v2g_incoming_v2gtp socket_reader conn es = (0, conn\<lparr>payload_len := ?n,
      stream := (stream conn)\<lparr>data := ?buf, byte_pos := V2GTP_HEADER_LENGTH,
        data_size := length bs + V2GTP_HEADER_LENGTH\<rparr>\<rparr>, es2)"
    using guards n hdr es1(1) es2(1)
    by (simp add: v2g_incoming_v2gtp_def V2GTP_HEADER_LENGTH_def store_at_def Let_def)
  show thesis
    by (rule that[of es2 ?buf]) (use run es2 hdr small in \<open>simp_all add: V2GTP_HEADER_LENGTH_def DEFAULT_BUFFER_SIZE_def\<close>)
qed

lemma stream_bits_octets:
  assumes "a + n \<le> length (data s)"
  shows "map (stream_bit s) [8 * a..<8 * (a + n)] = octets_code (take n (drop a (data s)))"
  using assms
proof (induction n)
  case (Suc n)
  let ?b = "data s ! (a + n)"
  have bits: "[8 * (a + n)..<8 * (a + Suc n)] = map (\<lambda>i. i + 8 * (a + n)) [0..<8]"
    by (simp add: map_add_upt)
  have "map (stream_bit s) [8 * (a + n)..<8 * (a + Suc n)] = word_bits 8 ?b"
  proof -
    have "(i + 8 * m) div 8 = m \<and> (i + 8 * m) mod 8 = i" if "i < 8" for i m :: nat
      using that by simp
    then have "stream_bit s (i + 8 * (a + n)) = bit ?b (7 - i)" if "i < 8" for i
      using that unfolding stream_bit_def by metis
    then have "map (\<lambda>i. stream_bit s (i + 8 * (a + n))) [0..<8] = map (\<lambda>i. bit ?b (7 - i)) [0..<8]"
      by simp
    also have "\<dots> = word_bits 8 ?b" by (intro nth_equalityI) (auto simp: word_bits_def rev_nth)
    finally show ?thesis unfolding bits by (simp add: o_def)
  qed
  moreover have "[8 * a..<8 * (a + Suc n)] = [8 * a..<8 * (a + n)] @ [8 * (a + n)..<8 * (a + Suc n)]"
    using upt_add_eq_append[of "8 * a" "8 * (a + n)" 8] by (simp add: ac_simps)
  moreover have "take (Suc n) (drop a (data s)) = take n (drop a (data s)) @ [?b]"
    using Suc.prems by (simp add: take_Suc_conv_app_nth)
  ultimately show ?case using Suc by simp
qed simp

section \<open>The response of the charger\<close>

lemma negotiated_response_valid:
  assumes "neg_ResponseCode st \<le> Failed_NoNegotiation"
  shows "doc_valid (negotiated_response st (initial_response d))"
    "\<not> supportedAppProtocolReq_isUsed (negotiated_response st (initial_response d))"
  using assms
  by (simp_all add: negotiated_response_def initial_response_def init_appHand_exiDocument_def doc_valid_def
      res_valid_def Let_def)

lemma negotiate_code:
  "neg_ResponseCode st \<le> Failed_NoNegotiation \<Longrightarrow>
    neg_ResponseCode (negotiate supported ps st) \<le> Failed_NoNegotiation"
  using negotiate_spec[of ps supported st] by (auto simp: accept_def split: if_splits)

text \<open>
  A response encoded right after the header into a buffer with room for it, completed by
  \<^const>\<open>v2g_outgoing_v2gtp\<close>, is a message that the vehicle reads: the header announces the rest,
  and the rest decodes to the same content.
\<close>

definition understood :: "appHand_exiDocument \<Rightarrow> byte list \<Rightarrow> bool" where
  "understood d out \<longleftrightarrow> V2GTP_ReadHeader out = Inr (of_nat (length out - V2GTP_HEADER_LENGTH)) \<and>
     (\<exists>d' s. decode_appHand_exiDocument appHand_exiDocument_blank
        (exi_bitstream_init out (length out) V2GTP_HEADER_LENGTH) = (Inr d', s) \<and> same_doc d d')"

lemma unread_init:
  assumes "off \<le> length bs"
  shows "unread (exi_bitstream_init bs (length bs) off) = octets_code (drop off bs)"
  using stream_bits_octets[of off "length bs - off" "exi_bitstream_init bs (length bs) off"] assms
  by (simp add: unread_def stream_pos_def exi_bitstream_init_def)

lemma read_header_take:
  "8 \<le> n \<Longrightarrow> n \<le> length buf \<Longrightarrow> V2GTP_ReadHeader (take n buf) = V2GTP_ReadHeader buf"
  using read_header_append[of "take n buf" "drop n buf"] by (simp add: V2GTP_ReadHeader_def)

lemma outgoing_understood:
  assumes d: "doc_valid d"
    and s: "flag_byte_pos s = 0" "length (data s) = DEFAULT_BUFFER_SIZE" "stream_writable s"
      "byte_pos s \<ge> V2GTP_HEADER_LENGTH" "data_size s \<le> DEFAULT_BUFFER_SIZE"
    and code: "written s = written s0 @ doc_code d" "stream_pos s0 = 8 * V2GTP_HEADER_LENGTH"
    and conn: "stream conn = s"
  shows "\<exists>out buf. v2g_outgoing_v2gtp wr conn =
      (if wr out = - 1 then - 1 else 0, conn\<lparr>stream := s\<lparr>data := buf\<rparr>\<rparr>, out) \<and> understood d out \<and>
      length buf = DEFAULT_BUFFER_SIZE"
proof -
  define len where "len = byte_pos s + (if bit_count s > 0 then 1 else 0)"
  have wf: "stream_wf s" using s(3) by (simp add: stream_writable_def)
  have len: "8 \<le> len" "len \<le> 8192" "stream_pos s \<le> 8 * len"
    using wf s(4,5) by (auto simp: len_def stream_wf_def stream_pos_def V2GTP_HEADER_LENGTH_def DEFAULT_BUFFER_SIZE_def)
  have n: "length (data s) = 8192" using s(2) by (simp add: DEFAULT_BUFFER_SIZE_def)
  have get: "exi_bitstream_get_length s = len"
    using s(1) len(2) by (simp add: exi_bitstream_get_length_def len_def)
  have payload: "(len + size_t_modulus - V2GTP_HEADER_LENGTH) mod size_t_modulus = len - 8"
    using len by (simp add: V2GTP_HEADER_LENGTH_def le_mod_geq)
  obtain buf where buf: "V2GTP_WriteHeader (data s) (of_nat (len - 8)) = Inr buf" "length buf = 8192"
      "drop 8 buf = drop 8 (data s)" "V2GTP_ReadHeader buf = Inr (of_nat (len - 8))"
    using write_header_spec[of "data s"] n
    by (metis V2GTP_ReadHeader_def V2GTP_WriteHeader_def numeral_le_iff semiring_norm(68,71))
  let ?out = "take len buf"
  have lo: "length ?out = len" using buf(2) len(2) by simp
  have "drop 8 ?out = drop 8 (take len (data s))"
    using buf(3) by (simp add: drop_take)
  then have "unread (exi_bitstream_init ?out (length ?out) 8) =
      unread (exi_bitstream_init (take len (data s)) len 8)"
    using unread_init[of 8 ?out] unread_init[of 8 "take len (data s)"] lo len n by simp
  moreover have "prefix (doc_code d) (unread (exi_bitstream_init (take len (data s)) len 8))"
    using prefix_init_take[OF code(1), of 8 len] code(2) len n by (simp add: V2GTP_HEADER_LENGTH_def)
  moreover have "stream_wf (exi_bitstream_init ?out (length ?out) 8)"
    using lo len by (simp add: stream_wf_def exi_bitstream_init_def)
  ultimately obtain d' t where "decode_appHand_exiDocument appHand_exiDocument_blank
      (exi_bitstream_init ?out (length ?out) 8) = (Inr d', t)" "same_doc d d'"
    using app_handshake.decodes[OF d] by metis
  moreover have "V2GTP_ReadHeader ?out = Inr (of_nat (length ?out - 8))"
    using read_header_take[of len buf] buf lo len by simp
  ultimately have "understood d ?out" by (auto simp: understood_def V2GTP_HEADER_LENGTH_def)
  moreover have "v2g_outgoing_v2gtp wr conn =
      (if wr ?out = - 1 then - 1 else 0, conn\<lparr>stream := s\<lparr>data := buf\<rparr>\<rparr>, ?out)"
    unfolding v2g_outgoing_v2gtp_def Let_def conn get payload buf(1) by simp
  moreover have "length buf = DEFAULT_BUFFER_SIZE"
    using buf(2) by (simp add: DEFAULT_BUFFER_SIZE_def)
  ultimately show ?thesis by blast
qed

text \<open>The shortest request is longer than the response, so the response always fits.\<close>

lemma app_protocol_code_length: "length (app_protocol_code x) \<ge> 50"
proof -
  have "length (wire_code v) \<ge> 1" for v using wire_code_nonempty[of v] by (metis Suc_leI One_nat_def length_greater_0_conv)
  from this[of "unat (ProtocolNamespace_charactersLen x) + 2"] this[of "unat (VersionNumberMajor x)"]
    this[of "unat (VersionNumberMinor x)"]
  show ?thesis by (simp add: app_protocol_code_def element_code_def)
qed

lemma request_code_length:
  "supportedAppProtocolReq_isUsed d \<Longrightarrow> length (doc_code d) \<ge> 32"
  using app_protocol_code_length[of "hd (req_elements (supportedAppProtocolReq d))"]
  by (simp add: doc_code_def req_code_def)

section \<open>The phase as a whole\<close>

text \<open>The request arrives and is decoded.\<close>

lemma handshake_received:
  assumes conn: "length (data (stream conn)) = DEFAULT_BUFFER_SIZE" "doc_wf (handshake_req conn)"
    and req: "doc_valid req" "supportedAppProtocolReq_isUsed req"
    and msg: "length bs + V2GTP_HEADER_LENGTH \<le> DEFAULT_BUFFER_SIZE" "prefix (doc_code req) (octets_code bs)"
      "delivers es (v2gtp_message bs @ rest)"
  obtains c1 es' req' s where
    "v2g_incoming_v2gtp socket_reader (setup_for_receive conn) es = (0, c1, es')" "delivers es' rest"
    "ctx c1 = ctx conn" "handshake_resp c1 = handshake_resp conn"
    "decode_appHand_exiDocument (handshake_req c1) (stream c1) = (Inr req', s)" "same_doc req req'"
    "length (data s) = DEFAULT_BUFFER_SIZE" "data_size s = length bs + V2GTP_HEADER_LENGTH" "flag_byte_pos s = 0"
proof -
  obtain es' buf where in': "delivers es' rest" "length buf = DEFAULT_BUFFER_SIZE"
      "take (length bs) (drop V2GTP_HEADER_LENGTH buf) = bs"
      "v2g_incoming_v2gtp socket_reader (setup_for_receive conn) es =
        (0, (setup_for_receive conn)\<lparr>payload_len := of_nat (length bs),
          stream := (stream (setup_for_receive conn))\<lparr>data := buf, byte_pos := V2GTP_HEADER_LENGTH,
            data_size := length bs + V2GTP_HEADER_LENGTH\<rparr>\<rparr>, es')"
    using incoming_message[of "setup_for_receive conn" bs es rest] conn(1) msg(1,3)
    by (auto simp: setup_for_receive_def exi_bitstream_init_def)
  define c1 where "c1 = (setup_for_receive conn)\<lparr>payload_len := of_nat (length bs),
    stream := (stream (setup_for_receive conn))\<lparr>data := buf, byte_pos := V2GTP_HEADER_LENGTH,
      data_size := length bs + V2GTP_HEADER_LENGTH\<rparr>\<rparr>"
  have c1: "ctx c1 = ctx conn" "handshake_req c1 = handshake_req conn" "handshake_resp c1 = handshake_resp conn"
      "data (stream c1) = buf" "data_size (stream c1) = length bs + V2GTP_HEADER_LENGTH" "bit_count (stream c1) = 0"
      "byte_pos (stream c1) = V2GTP_HEADER_LENGTH" "flag_byte_pos (stream c1) = 0"
    by (simp_all add: c1_def setup_for_receive_def exi_bitstream_init_def)
  have "unread (stream c1) = octets_code bs"
    using stream_bits_octets[of V2GTP_HEADER_LENGTH "length bs" "stream c1"] c1 in'(2,3) msg(1)
    by (simp add: unread_def stream_pos_def add.commute)
  moreover have "stream_wf (stream c1)" using c1 in'(2) msg(1) by (simp add: stream_wf_def)
  moreover obtain req' where req': "same_doc req req'"
      "reads (decode_appHand_exiDocument (handshake_req conn)) (doc_code req) req'"
    using reads_exiDocument[OF req(1) conn(2)] by blast
  ultimately obtain s where s: "decode_appHand_exiDocument (handshake_req c1) (stream c1) = (Inr req', s)"
      "read_frame (stream c1) s"
    using readsE[OF req'(2), of "stream c1"] msg(2) c1(2) by metis
  show thesis
    by (rule that[OF in'(4)[folded c1_def] in'(1) c1(1,3) s(1) req'(1)])
      (use s(2) c1 in'(2) in \<open>simp_all add: read_frame_def\<close>)
qed

text \<open>The response is written behind the header and sent.\<close>

lemma handshake_answered:
  fixes c1 req'
  defines "st \<equiv> negotiate (supported_protocols (ctx c1)) (req_elements (supportedAppProtocolReq req'))
    (initial_negotiation c1)"
  assumes dec: "decode_appHand_exiDocument (handshake_req c1) (stream c1) = (Inr req', s)"
    and s: "length (data s) = DEFAULT_BUFFER_SIZE" "flag_byte_pos s = 0"
      "data_size s \<le> DEFAULT_BUFFER_SIZE" "V2GTP_HEADER_LENGTH + 4 \<le> data_size s"
    and calm: "calm (ctx c1)"
  shows "\<exists>c2 c3 out. v2g_handle_apphandshake c1 =
      (if negotiated (neg_ResponseCode st) then V2G_EVENT_NO_EVENT else V2G_EVENT_SEND_AND_TERMINATE, c2) \<and>
    v2g_outgoing_v2gtp wr c2 = (if wr out = - 1 then - 1 else 0, c3, out) \<and>
    selected_protocol (ctx c3) = neg_protocol st \<and> length (data (stream c3)) = DEFAULT_BUFFER_SIZE \<and>
    understood (negotiated_response st (initial_response (handshake_resp c1))) out"
proof -
  define resp where "resp = negotiated_response st (initial_response (handshake_resp c1))"
  have code: "neg_ResponseCode st \<le> Failed_NoNegotiation"
    unfolding st_def by (rule negotiate_code) (simp add: initial_negotiation_def)
  have resp: "doc_valid resp" "length (doc_code resp) \<le> 28"
    using negotiated_response_valid[OF code] response_code_length unfolding resp_def by (auto simp: response_bits_def)
  let ?s = "s\<lparr>byte_pos := V2GTP_HEADER_LENGTH, bit_count := 0\<rparr>"
  have w: "stream_writable ?s" "length (doc_code resp) \<le> room ?s"
    using s resp(2) by (simp_all add: stream_writable_def stream_wf_def room_def stream_pos_def)
  obtain s' where s': "encode_appHand_exiDocument resp ?s = (Inr (), s')" "stream_writable s'" "write_frame ?s s'"
      "written s' = written ?s @ doc_code resp"
    using writes_fits[OF writes_exiDocument[OF resp(1)] w] by metis
  obtain c2 where c2: "v2g_handle_apphandshake c1 =
      (if negotiated (neg_ResponseCode st) then V2G_EVENT_NO_EVENT else V2G_EVENT_SEND_AND_TERMINATE, c2)"
      "stream c2 = s'" "selected_protocol (ctx c2) = neg_protocol st"
    using handle_apphandshake_calm[OF dec calm, folded st_def resp_def, OF s'(1) code] by simp
  obtain out b where "v2g_outgoing_v2gtp wr c2 =
      (if wr out = - 1 then - 1 else 0, c2\<lparr>stream := s'\<lparr>data := b\<rparr>\<rparr>, out)" "understood resp out"
      "length b = DEFAULT_BUFFER_SIZE"
    using outgoing_understood[OF resp(1), of s' ?s c2 wr] s'(2-4) s c2(2)
    by (auto simp: write_frame_def stream_pos_def)
  with c2 show ?thesis unfolding resp_def by fastforce
qed

lemma handshake_phase_run:
  fixes conn req
  defines "st \<equiv> negotiate (supported_protocols (ctx conn)) (req_elements (supportedAppProtocolReq req))
    (initial_negotiation conn)"
  assumes conn: "length (data (stream conn)) = DEFAULT_BUFFER_SIZE" "doc_wf (handshake_req conn)" "calm (ctx conn)"
    and req: "doc_valid req" "supportedAppProtocolReq_isUsed req"
    and msg: "length bs + V2GTP_HEADER_LENGTH \<le> DEFAULT_BUFFER_SIZE" "prefix (doc_code req) (octets_code bs)"
      "delivers es (v2gtp_message bs @ rest)"
  shows "\<exists>conn' es' out. v2g_handshake_phase socket_reader wr conn es =
      (if wr out \<noteq> - 1 \<and> negotiated (neg_ResponseCode st) then (0, True, conn', [out], es')
       else (- 1, False, conn', [out], es')) \<and>
    delivers es' rest \<and> selected_protocol (ctx conn') = neg_protocol st \<and>
    length (data (stream conn')) = DEFAULT_BUFFER_SIZE \<and>
    understood (negotiated_response st (initial_response (handshake_resp conn))) out"
proof -
  obtain c1 es' req' s where in': "v2g_incoming_v2gtp socket_reader (setup_for_receive conn) es = (0, c1, es')"
      "delivers es' rest" and c1: "ctx c1 = ctx conn" "handshake_resp c1 = handshake_resp conn"
      and dec: "decode_appHand_exiDocument (handshake_req c1) (stream c1) = (Inr req', s)" and same: "same_doc req req'"
      and s: "length (data s) = DEFAULT_BUFFER_SIZE" "data_size s = length bs + V2GTP_HEADER_LENGTH" "flag_byte_pos s = 0"
    using handshake_received[OF conn(1,2) req msg] by metis
  have st: "negotiate (supported_protocols (ctx c1)) (req_elements (supportedAppProtocolReq req'))
      (initial_negotiation c1) = st"
    using negotiate_same same req(2) c1 by (simp add: st_def same_doc_def same_req_def initial_negotiation_def)
  have "32 \<le> 8 * length bs"
    using request_code_length[OF req(2)] msg(2) by (metis length_octets_code prefix_length_le le_trans)
  then have room: "data_size s \<le> DEFAULT_BUFFER_SIZE" "V2GTP_HEADER_LENGTH + 4 \<le> data_size s"
    using s(2) msg(1) by simp_all
  have "calm (ctx c1)" using conn(3) c1(1) by simp
  from handshake_answered[OF dec s(1,3) room this, of wr, unfolded st c1(2)]
  obtain c2 c3 out where ans: "v2g_handle_apphandshake c1 =
      (if negotiated (neg_ResponseCode st) then V2G_EVENT_NO_EVENT else V2G_EVENT_SEND_AND_TERMINATE, c2)"
    "v2g_outgoing_v2gtp wr c2 = (if wr out = - 1 then - 1 else 0, c3, out)"
    "selected_protocol (ctx c3) = neg_protocol st" "length (data (stream c3)) = DEFAULT_BUFFER_SIZE"
    "understood (negotiated_response st (initial_response (handshake_resp conn))) out"
    by blast
  have "v2g_handshake_phase socket_reader wr conn es =
      (if wr out \<noteq> - 1 \<and> negotiated (neg_ResponseCode st) then (0, True, c3, [out], es')
       else (- 1, False, c3, [out], es'))"
    using conn(3) c1(1) by (simp add: v2g_handshake_phase_def in'(1) ans(1,2) calm_def)
  with in'(2) ans(3-5) show ?thesis by blast
qed

section \<open>Properties of the handshake\<close>

text \<open>
  C19: a request that offers a supported protocol is answered. However the network cuts the
  message into pieces, the charger reads it completely and nothing beyond it, selects the
  matching offer of the best priority, and sends a response that the vehicle decodes to a
  successful negotiation with the schema identifier of that offer; the session then goes on.
\<close>

theorem handshake_selects_best_offer:
  assumes "length (data (stream conn)) = DEFAULT_BUFFER_SIZE" "doc_wf (handshake_req conn)" "calm (ctx conn)"
    and "doc_valid req" "supportedAppProtocolReq_isUsed req"
    and "length bs + V2GTP_HEADER_LENGTH \<le> DEFAULT_BUFFER_SIZE" "prefix (doc_code req) (octets_code bs)"
    and "delivers es (v2gtp_message bs @ rest)" "\<forall>out. wr out \<noteq> - 1"
    and "p \<in> set (req_elements (supportedAppProtocolReq req))"
    and "matches (supported_protocols (ctx conn)) p \<noteq> None" "Priority p \<le> 20"
  shows "\<exists>q proto conn' es' out d.
    best_offer (supported_protocols (ctx conn)) 20 (req_elements (supportedAppProtocolReq req)) q \<and>
    matches (supported_protocols (ctx conn)) q = Some proto \<and>
    v2g_handshake_phase socket_reader wr conn es = (0, True, conn', [out], es') \<and> delivers es' rest \<and>
    selected_protocol (ctx conn') = proto \<and> understood d out \<and>
    supportedAppProtocolRes_isUsed d \<and> negotiated (ResponseCode (supportedAppProtocolRes d)) \<and>
    SchemaID_isUsed (supportedAppProtocolRes d) \<and> Res_SchemaID (supportedAppProtocolRes d) = SchemaID q"
proof -
  define st where "st = negotiate (supported_protocols (ctx conn)) (req_elements (supportedAppProtocolReq req))
    (initial_negotiation conn)"
  have "\<exists>p \<in> set (req_elements (supportedAppProtocolReq req)).
      matches (supported_protocols (ctx conn)) p \<noteq> None \<and> Priority p \<le> ev_app_priority (initial_negotiation conn)"
    using assms(10-12) by (auto simp: initial_negotiation_def)
  then obtain q proto where q: "best_offer (supported_protocols (ctx conn)) 20
        (req_elements (supportedAppProtocolReq req)) q"
      "matches (supported_protocols (ctx conn)) q = Some proto" "st = accept q proto"
    using negotiate_spec[of "req_elements (supportedAppProtocolReq req)" "supported_protocols (ctx conn)"
        "initial_negotiation conn"]
    by (auto simp: st_def initial_negotiation_def)
  then have ok: "negotiated (neg_ResponseCode st)" "neg_protocol st = proto" "neg_SchemaID st = SchemaID q"
    by (auto simp: accept_def negotiated_def)
  let ?d = "negotiated_response st (initial_response (handshake_resp conn))"
  have d: "supportedAppProtocolRes_isUsed ?d" "negotiated (ResponseCode (supportedAppProtocolRes ?d))"
    "SchemaID_isUsed (supportedAppProtocolRes ?d)" "Res_SchemaID (supportedAppProtocolRes ?d) = SchemaID q"
    using ok by (simp_all add: negotiated_response_def initial_response_def Let_def)
  from handshake_phase_run[OF assms(1-8), of wr, folded st_def] q(1,2) ok assms(9) d show ?thesis
    by fastforce
qed

text \<open>An example: the vehicle offers DIN 70121 with priority 2 and ISO 15118-2 with priority 1.\<close>

definition offer :: "byte list \<Rightarrow> byte \<Rightarrow> byte \<Rightarrow> appHand_AppProtocolType" where
  "offer ns sid prio = \<lparr>ProtocolNamespace_characters =
       ns @ replicate (appHand_ProtocolNamespace_CHARACTER_SIZE - length ns) 0,
     ProtocolNamespace_charactersLen = of_nat (length ns), VersionNumberMajor = 2, VersionNumberMinor = 0,
     SchemaID = sid, Priority = prio\<rparr>"

definition two_offers :: appHand_exiDocument where
  "two_offers = appHand_exiDocument_blank
     \<lparr>supportedAppProtocolReq_isUsed := True,
      supportedAppProtocolReq :=
        \<lparr>AppProtocol_array = [offer DIN_70121_MSG_DEF 1 2, offer ISO_15118_2013_MSG_DEF 2 1] @
           replicate 3 (offer [] 0 0), AppProtocol_arrayLen = 2\<rparr>\<rparr>"

definition two_offers_bytes :: "byte list" where
  "two_offers_bytes =
     [128, 0, 219, 171, 147, 113, 211, 35, 75, 113, 209, 185, 129, 137, 145, 137, 209, 145, 129, 137, 145, 210, 107, 155, 58, 35, 43, 48, 2, 0, 0, 4, 4, 1, 215, 87, 38, 227, 166, 151, 54, 243, 163, 19, 83, 19, 19, 131, 163, 35, 163, 35, 3, 19, 51, 164, 215, 54, 116, 70, 86, 96, 4, 0, 0, 16, 0, 128]"

lemma two_offers_facts:
  "doc_valid two_offers" "supportedAppProtocolReq_isUsed two_offers"
  "prefix (doc_code two_offers) (octets_code two_offers_bytes)" "length two_offers_bytes = 68"
  "offer ISO_15118_2013_MSG_DEF 2 1 \<in> set (req_elements (supportedAppProtocolReq two_offers))"
  "matches 5 (offer ISO_15118_2013_MSG_DEF 2 1) \<noteq> None"
  by code_simp+

lemma two_offers_delivered:
  "delivers [Received (take 5 (v2gtp_message two_offers_bytes)), Interrupted,
     Received (drop 5 (v2gtp_message two_offers_bytes))] (v2gtp_message two_offers_bytes @ [])"
proof -
  obtain hdr where "v2gtp_message two_offers_bytes = hdr @ two_offers_bytes" "length hdr = V2GTP_HEADER_LENGTH"
    by (rule v2gtp_message_parts)
  then have "length (v2gtp_message two_offers_bytes) = 76"
    using two_offers_facts(4) by (simp add: V2GTP_HEADER_LENGTH_def)
  then show ?thesis by (auto simp: delivers_def)
qed

theorem handshake_selects_best_offer_witness:
  "\<exists>q proto conn' es' out d.
    best_offer 5 20 (req_elements (supportedAppProtocolReq two_offers)) q \<and> matches 5 q = Some proto \<and>
    v2g_handshake_phase socket_reader (\<lambda>out. int (length out)) (example_connection 5)
      [Received (take 5 (v2gtp_message two_offers_bytes)), Interrupted,
       Received (drop 5 (v2gtp_message two_offers_bytes))] = (0, True, conn', [out], es') \<and> delivers es' [] \<and>
    selected_protocol (ctx conn') = proto \<and> understood d out \<and>
    supportedAppProtocolRes_isUsed d \<and> negotiated (ResponseCode (supportedAppProtocolRes d)) \<and>
    SchemaID_isUsed (supportedAppProtocolRes d) \<and> Res_SchemaID (supportedAppProtocolRes d) = SchemaID q"
  using handshake_selects_best_offer[OF example_connection_facts(1-3) two_offers_facts(1,2) _
      two_offers_facts(3) two_offers_delivered, of "\<lambda>out. int (length out)" "offer ISO_15118_2013_MSG_DEF 2 1" 5]
    two_offers_facts(4-6)
  by (simp add: example_connection_facts(4) V2GTP_HEADER_LENGTH_def DEFAULT_BUFFER_SIZE_def offer_def)

text \<open>
  C20: a request without a supported offer is refused: the vehicle gets a response that decodes
  to a failed negotiation, and the connection is terminated.
\<close>

theorem handshake_refuses_unsupported:
  assumes "length (data (stream conn)) = DEFAULT_BUFFER_SIZE" "doc_wf (handshake_req conn)" "calm (ctx conn)"
    and "doc_valid req" "supportedAppProtocolReq_isUsed req"
    and "length bs + V2GTP_HEADER_LENGTH \<le> DEFAULT_BUFFER_SIZE" "prefix (doc_code req) (octets_code bs)"
    and "delivers es (v2gtp_message bs @ rest)"
    and "\<forall>p \<in> set (req_elements (supportedAppProtocolReq req)).
      matches (supported_protocols (ctx conn)) p = None \<or> Priority p > 20"
  shows "\<exists>conn' es' out d. v2g_handshake_phase socket_reader wr conn es = (- 1, False, conn', [out], es') \<and>
    selected_protocol (ctx conn') = selected_protocol (ctx conn) \<and> understood d out \<and>
    supportedAppProtocolRes_isUsed d \<and> ResponseCode (supportedAppProtocolRes d) = Failed_NoNegotiation"
proof -
  define st where "st = negotiate (supported_protocols (ctx conn)) (req_elements (supportedAppProtocolReq req))
    (initial_negotiation conn)"
  have "\<not> (\<exists>p \<in> set (req_elements (supportedAppProtocolReq req)).
      matches (supported_protocols (ctx conn)) p \<noteq> None \<and> Priority p \<le> ev_app_priority (initial_negotiation conn))"
    using assms(9) by (auto simp: initial_negotiation_def)
  then have st: "st = initial_negotiation conn"
    using negotiate_spec[of "req_elements (supportedAppProtocolReq req)" "supported_protocols (ctx conn)"
        "initial_negotiation conn"] unfolding st_def by (simp only: if_False)
  let ?d = "negotiated_response st (initial_response (handshake_resp conn))"
  have d: "supportedAppProtocolRes_isUsed ?d" "ResponseCode (supportedAppProtocolRes ?d) = Failed_NoNegotiation"
      "\<not> negotiated (neg_ResponseCode st)" "neg_protocol st = selected_protocol (ctx conn)"
    by (simp_all add: st initial_negotiation_def negotiated_response_def initial_response_def Let_def negotiated_def)
  from handshake_phase_run[OF assms(1-8), of wr, folded st_def] d show ?thesis by fastforce
qed

theorem handshake_refuses_unsupported_witness:
  "\<exists>conn' es' out d. v2g_handshake_phase socket_reader (\<lambda>out. int (length out)) (example_connection 8)
      [Received (take 5 (v2gtp_message two_offers_bytes)), Interrupted,
       Received (drop 5 (v2gtp_message two_offers_bytes))] = (- 1, False, conn', [out], es') \<and>
    selected_protocol (ctx conn') = V2G_UNKNOWN_PROTOCOL \<and> understood d out \<and>
    supportedAppProtocolRes_isUsed d \<and> ResponseCode (supportedAppProtocolRes d) = Failed_NoNegotiation"
proof -
  have "\<forall>p. matches 8 p = None" by (simp add: matches_def)
  then show ?thesis
    using handshake_refuses_unsupported[OF example_connection_facts(1-3) two_offers_facts(1,2) _
        two_offers_facts(3) two_offers_delivered, of 8 "\<lambda>out. int (length out)"] two_offers_facts(4)
    by (simp add: example_connection_facts(4,5) V2GTP_HEADER_LENGTH_def DEFAULT_BUFFER_SIZE_def)
qed

end
