(* ===== verification/Din_Messages.thy ===== *)
theory Din_Messages
  imports V2G_Context
begin

text \<open>
  The DIN 70121 messages that the charger handles
  (\<^verbatim>\<open>lib/everest/cbv2g/include/cbv2g/din/din_msgDefDatatypes.h\<close>). The body of a message is a C
  union whose member is selected by a flag; it is a datatype here. Members of the structures
  that the charger neither reads nor writes are left out, and an array with its length is a
  list. The response codes are ordered as in the enumeration: a code from
  \<open>din_responseCodeType_FAILED\<close> on is a failure.
\<close>

section \<open>Response codes\<close>

datatype din_responseCodeType =
    din_responseCodeType_OK
  | din_responseCodeType_OK_NewSessionEstablished
  | din_responseCodeType_OK_OldSessionJoined
  | din_responseCodeType_OK_CertificateExpiresSoon
  | din_responseCodeType_FAILED
  | din_responseCodeType_FAILED_SequenceError
  | din_responseCodeType_FAILED_ServiceIDInvalid
  | din_responseCodeType_FAILED_UnknownSession
  | din_responseCodeType_FAILED_ServiceSelectionInvalid
  | din_responseCodeType_FAILED_PaymentSelectionInvalid
  | din_responseCodeType_FAILED_CertificateExpired
  | din_responseCodeType_FAILED_SignatureError
  | din_responseCodeType_FAILED_NoCertificateAvailable
  | din_responseCodeType_FAILED_CertChainError
  | din_responseCodeType_FAILED_ChallengeInvalid
  | din_responseCodeType_FAILED_ContractCanceled
  | din_responseCodeType_FAILED_WrongChargeParameter
  | din_responseCodeType_FAILED_PowerDeliveryNotApplied
  | din_responseCodeType_FAILED_TariffSelectionInvalid
  | din_responseCodeType_FAILED_ChargingProfileInvalid
  | din_responseCodeType_FAILED_EVSEPresentVoltageToLow
  | din_responseCodeType_FAILED_MeteringSignatureNotValid
  | din_responseCodeType_FAILED_WrongEnergyTransferType

fun din_response_number :: "din_responseCodeType \<Rightarrow> nat" where
  "din_response_number din_responseCodeType_OK = 0"
| "din_response_number din_responseCodeType_OK_NewSessionEstablished = 1"
| "din_response_number din_responseCodeType_OK_OldSessionJoined = 2"
| "din_response_number din_responseCodeType_OK_CertificateExpiresSoon = 3"
| "din_response_number din_responseCodeType_FAILED = 4"
| "din_response_number din_responseCodeType_FAILED_SequenceError = 5"
| "din_response_number din_responseCodeType_FAILED_ServiceIDInvalid = 6"
| "din_response_number din_responseCodeType_FAILED_UnknownSession = 7"
| "din_response_number din_responseCodeType_FAILED_ServiceSelectionInvalid = 8"
| "din_response_number din_responseCodeType_FAILED_PaymentSelectionInvalid = 9"
| "din_response_number din_responseCodeType_FAILED_CertificateExpired = 10"
| "din_response_number din_responseCodeType_FAILED_SignatureError = 11"
| "din_response_number din_responseCodeType_FAILED_NoCertificateAvailable = 12"
| "din_response_number din_responseCodeType_FAILED_CertChainError = 13"
| "din_response_number din_responseCodeType_FAILED_ChallengeInvalid = 14"
| "din_response_number din_responseCodeType_FAILED_ContractCanceled = 15"
| "din_response_number din_responseCodeType_FAILED_WrongChargeParameter = 16"
| "din_response_number din_responseCodeType_FAILED_PowerDeliveryNotApplied = 17"
| "din_response_number din_responseCodeType_FAILED_TariffSelectionInvalid = 18"
| "din_response_number din_responseCodeType_FAILED_ChargingProfileInvalid = 19"
| "din_response_number din_responseCodeType_FAILED_EVSEPresentVoltageToLow = 20"
| "din_response_number din_responseCodeType_FAILED_MeteringSignatureNotValid = 21"
| "din_response_number din_responseCodeType_FAILED_WrongEnergyTransferType = 22"

lemma din_response_number_inj: "din_response_number a = din_response_number b \<longleftrightarrow> a = b"
  by (cases a; cases b; simp)

instantiation din_responseCodeType :: linorder
begin

definition less_eq_din_responseCodeType :: "din_responseCodeType \<Rightarrow> din_responseCodeType \<Rightarrow> bool" where
  "less_eq_din_responseCodeType a b \<longleftrightarrow> din_response_number a \<le> din_response_number b"

definition less_din_responseCodeType :: "din_responseCodeType \<Rightarrow> din_responseCodeType \<Rightarrow> bool" where
  "less_din_responseCodeType a b \<longleftrightarrow> din_response_number a < din_response_number b"

instance
  by standard (auto simp: less_eq_din_responseCodeType_def less_din_responseCodeType_def din_response_number_inj)

end

section \<open>Common parts\<close>

datatype din_unitSymbolType =
    din_unit_h
  | din_unit_m
  | din_unit_s
  | din_unit_A
  | din_unit_Ah
  | din_unit_V
  | din_unit_VA
  | din_unit_W
  | din_unit_W_s
  | din_unit_Wh

record din_PhysicalValueType =
  din_Multiplier :: int
  din_Unit :: din_unitSymbolType
  din_Unit_isUsed :: bool
  din_Value :: int

record din_DC_EVStatusType =
  EVReady :: int
  EVErrorCode :: int
  EVRESSSOC :: int

record din_DC_EVSEStatusType =
  EVSEIsolationStatus :: byte
  EVSEIsolationStatus_isUsed :: bool
  EVSEStatusCode :: byte
  NotificationMaxDelay :: u32
  EVSENotification :: byte

section \<open>Requests\<close>

datatype din_paymentOptionType =
    din_paymentOptionType_Contract
  | din_paymentOptionType_ExternalPayment

record din_ServicePaymentSelectionReqType =
  SelectedPaymentOption :: din_paymentOptionType
  SelectedService_ServiceIDs :: "u16 list"

record din_DC_EVChargeParameterType =
  cp_DC_EVStatus :: din_DC_EVStatusType
  cp_EVMaximumCurrentLimit :: din_PhysicalValueType
  cp_EVMaximumPowerLimit :: din_PhysicalValueType
  cp_EVMaximumPowerLimit_isUsed :: bool
  cp_EVMaximumVoltageLimit :: din_PhysicalValueType
  EVEnergyCapacity :: din_PhysicalValueType
  EVEnergyCapacity_isUsed :: bool
  EVEnergyRequest :: din_PhysicalValueType
  EVEnergyRequest_isUsed :: bool
  FullSOC :: int
  FullSOC_isUsed :: bool
  BulkSOC :: int
  BulkSOC_isUsed :: bool

text \<open>The energy transfer types are kept as the numbers of the enumeration, which the code compares by casts.\<close>

abbreviation (input) EnergyTransfer_DC_core :: nat where "EnergyTransfer_DC_core \<equiv> 2"
abbreviation (input) EnergyTransfer_DC_extended :: nat where "EnergyTransfer_DC_extended \<equiv> 3"

record din_ChargeParameterDiscoveryReqType =
  EVRequestedEnergyTransferType :: nat
  AC_EVChargeParameter_isUsed :: bool
  DC_EVChargeParameter :: din_DC_EVChargeParameterType
  DC_EVChargeParameter_isUsed :: bool

record din_ProfileEntryType =
  ChargingProfileEntryStart :: u32
  ChargingProfileEntryMaxPower :: int

record din_DC_EVPowerDeliveryParameterType =
  pd_DC_EVStatus :: din_DC_EVStatusType
  pd_BulkChargingComplete :: int
  pd_BulkChargingComplete_isUsed :: bool
  pd_ChargingComplete :: int

record din_PowerDeliveryReqType =
  ReadyToChargeState :: int
  ChargingProfile_SAScheduleTupleID :: int
  ChargingProfile_isUsed :: bool
  DC_EVPowerDeliveryParameter :: din_DC_EVPowerDeliveryParameterType
  DC_EVPowerDeliveryParameter_isUsed :: bool

record din_PreChargeReqType =
  pc_DC_EVStatus :: din_DC_EVStatusType
  pc_EVTargetVoltage :: din_PhysicalValueType
  pc_EVTargetCurrent :: din_PhysicalValueType

record din_CurrentDemandReqType =
  cd_DC_EVStatus :: din_DC_EVStatusType
  cd_EVTargetCurrent :: din_PhysicalValueType
  cd_EVMaximumVoltageLimit :: din_PhysicalValueType
  cd_EVMaximumVoltageLimit_isUsed :: bool
  cd_EVMaximumCurrentLimit :: din_PhysicalValueType
  cd_EVMaximumCurrentLimit_isUsed :: bool
  cd_EVMaximumPowerLimit :: din_PhysicalValueType
  cd_EVMaximumPowerLimit_isUsed :: bool
  cd_BulkChargingComplete :: int
  cd_BulkChargingComplete_isUsed :: bool
  cd_ChargingComplete :: int
  cd_RemainingTimeToFullSoC :: din_PhysicalValueType
  cd_RemainingTimeToFullSoC_isUsed :: bool
  cd_RemainingTimeToBulkSoC :: din_PhysicalValueType
  cd_RemainingTimeToBulkSoC_isUsed :: bool
  cd_EVTargetVoltage :: din_PhysicalValueType

datatype din_request =
    SessionSetupReq "byte list"
  | ServiceDiscoveryReq
  | ServicePaymentSelectionReq din_ServicePaymentSelectionReqType
  | ContractAuthenticationReq
  | PaymentDetailsReq
  | ServiceDetailReq
  | ChargeParameterDiscoveryReq din_ChargeParameterDiscoveryReqType
  | CableCheckReq din_DC_EVStatusType
  | PreChargeReq din_PreChargeReqType
  | PowerDeliveryReq din_PowerDeliveryReqType
  | ChargingStatusReq
  | MeteringReceiptReq
  | CertificateUpdateReq
  | CertificateInstallationReq
  | CurrentDemandReq din_CurrentDemandReqType
  | WeldingDetectionReq din_DC_EVStatusType
  | SessionStopReq
  | OtherReq

section \<open>Responses\<close>

record din_SessionSetupResType =
  ss_ResponseCode :: din_responseCodeType
  ss_EVSEID :: "byte list"
  ss_DateTimeNow :: int
  ss_DateTimeNow_isUsed :: bool

record din_ServiceDiscoveryResType =
  sd_ResponseCode :: din_responseCodeType
  sd_ServiceID :: u16
  sd_FreeService :: bool
  sd_EnergyTransferType :: nat
  sd_PaymentOptions :: "din_paymentOptionType list"

record din_ContractAuthenticationResType =
  ca_ResponseCode :: din_responseCodeType
  ca_EVSEProcessing :: byte

record din_DC_EVSEChargeParameterType =
  cpr_DC_EVSEStatus :: din_DC_EVSEStatusType
  cpr_EVSEMaximumCurrentLimit :: din_PhysicalValueType
  cpr_EVSEMaximumPowerLimit :: din_PhysicalValueType
  cpr_EVSEMaximumPowerLimit_isUsed :: bool
  cpr_EVSEMaximumVoltageLimit :: din_PhysicalValueType
  cpr_EVSEMinimumCurrentLimit :: din_PhysicalValueType
  cpr_EVSEMinimumVoltageLimit :: din_PhysicalValueType
  cpr_EVSECurrentRegulationTolerance :: "din_PhysicalValueType option"
  cpr_EVSEPeakCurrentRipple :: din_PhysicalValueType
  cpr_EVSEEnergyToBeDelivered :: din_PhysicalValueType
  cpr_EVSEEnergyToBeDelivered_isUsed :: bool

record din_ChargeParameterDiscoveryResType =
  cpr_ResponseCode :: din_responseCodeType
  cpr_EVSEProcessing :: byte
  cpr_DC_EVSEChargeParameter :: din_DC_EVSEChargeParameterType
  cpr_SAScheduleTupleID :: int
  cpr_PMaxScheduleID :: int
  cpr_PMax :: int
  cpr_duration :: u32
  cpr_start :: u32

record din_PowerDeliveryResType =
  pdr_ResponseCode :: din_responseCodeType
  pdr_DC_EVSEStatus :: din_DC_EVSEStatusType

record din_CableCheckResType =
  cc_ResponseCode :: din_responseCodeType
  cc_DC_EVSEStatus :: din_DC_EVSEStatusType
  cc_EVSEProcessing :: byte

record din_PreChargeResType =
  pcr_ResponseCode :: din_responseCodeType
  pcr_DC_EVSEStatus :: din_DC_EVSEStatusType
  pcr_EVSEPresentVoltage :: din_PhysicalValueType

record din_CurrentDemandResType =
  cdr_ResponseCode :: din_responseCodeType
  cdr_DC_EVSEStatus :: din_DC_EVSEStatusType
  cdr_EVSEPresentVoltage :: din_PhysicalValueType
  cdr_EVSEPresentCurrent :: din_PhysicalValueType
  cdr_EVSECurrentLimitAchieved :: bool
  cdr_EVSEVoltageLimitAchieved :: bool
  cdr_EVSEPowerLimitAchieved :: bool
  cdr_EVSEMaximumVoltageLimit :: din_PhysicalValueType
  cdr_EVSEMaximumVoltageLimit_isUsed :: bool
  cdr_EVSEMaximumCurrentLimit :: din_PhysicalValueType
  cdr_EVSEMaximumCurrentLimit_isUsed :: bool
  cdr_EVSEMaximumPowerLimit :: din_PhysicalValueType
  cdr_EVSEMaximumPowerLimit_isUsed :: bool

record din_WeldingDetectionResType =
  wd_ResponseCode :: din_responseCodeType
  wd_DC_EVSEStatus :: din_DC_EVSEStatusType
  wd_EVSEPresentVoltage :: din_PhysicalValueType

datatype din_response =
    SessionSetupRes din_SessionSetupResType
  | ServiceDiscoveryRes din_ServiceDiscoveryResType
  | ServicePaymentSelectionRes din_responseCodeType
  | ContractAuthenticationRes din_ContractAuthenticationResType
  | ChargeParameterDiscoveryRes din_ChargeParameterDiscoveryResType
  | PowerDeliveryRes din_PowerDeliveryResType
  | CableCheckRes din_CableCheckResType
  | PreChargeRes din_PreChargeResType
  | CurrentDemandRes din_CurrentDemandResType
  | WeldingDetectionRes din_WeldingDetectionResType
  | SessionStopRes din_responseCodeType

fun din_response_code :: "din_response \<Rightarrow> din_responseCodeType" where
  "din_response_code (SessionSetupRes r) = ss_ResponseCode r"
| "din_response_code (ServiceDiscoveryRes r) = sd_ResponseCode r"
| "din_response_code (ServicePaymentSelectionRes c) = c"
| "din_response_code (ContractAuthenticationRes r) = ca_ResponseCode r"
| "din_response_code (ChargeParameterDiscoveryRes r) = cpr_ResponseCode r"
| "din_response_code (PowerDeliveryRes r) = pdr_ResponseCode r"
| "din_response_code (CableCheckRes r) = cc_ResponseCode r"
| "din_response_code (PreChargeRes r) = pcr_ResponseCode r"
| "din_response_code (CurrentDemandRes r) = cdr_ResponseCode r"
| "din_response_code (WeldingDetectionRes r) = wd_ResponseCode r"
| "din_response_code (SessionStopRes c) = c"

text \<open>A document as it is received and as it is sent: the session identifier and the body.\<close>

record din_in_document =
  in_SessionID_bytes :: "byte list"
  in_body :: din_request

record din_out_document =
  out_SessionID_bytes :: "byte list"
  out_body :: "din_response option"

end
