(* ===== verification/Din_Server.thy ===== *)
theory Din_Server
  imports Din_Messages V2G_Server
begin

text \<open>
  The DIN 70121 session of the charger (\<^verbatim>\<open>modules/EVSE/EvseV2G/din_server.cpp\<close> and
  \<^verbatim>\<open>din_server.hpp\<close>): one function per message handler, the check of the response code that every
  handler ends with, and \<^verbatim>\<open>din_handle_request\<close>, which dispatches on the request. A handler takes
  the context and the request and returns the next event, the response and the context. The
  random session identifier and the current time are arguments. Response members that a
  handler sets to a constant flag, telemetry and logging are left out; the check of the
  charging profile entries only logs.
\<close>

section \<open>The states of a session\<close>

abbreviation (input) WAIT_FOR_SESSIONSETUP :: nat where "WAIT_FOR_SESSIONSETUP \<equiv> 0"
abbreviation (input) WAIT_FOR_SERVICEDISCOVERY :: nat where "WAIT_FOR_SERVICEDISCOVERY \<equiv> 1"
abbreviation (input) WAIT_FOR_PAYMENTSERVICESELECTION :: nat where "WAIT_FOR_PAYMENTSERVICESELECTION \<equiv> 2"
abbreviation (input) WAIT_FOR_AUTHORIZATION :: nat where "WAIT_FOR_AUTHORIZATION \<equiv> 3"
abbreviation (input) WAIT_FOR_CHARGEPARAMETERDISCOVERY :: nat where "WAIT_FOR_CHARGEPARAMETERDISCOVERY \<equiv> 4"
abbreviation (input) WAIT_FOR_CABLECHECK :: nat where "WAIT_FOR_CABLECHECK \<equiv> 5"
abbreviation (input) WAIT_FOR_PRECHARGE :: nat where "WAIT_FOR_PRECHARGE \<equiv> 6"
abbreviation (input) WAIT_FOR_PRECHARGE_POWERDELIVERY :: nat where "WAIT_FOR_PRECHARGE_POWERDELIVERY \<equiv> 7"
abbreviation (input) WAIT_FOR_CURRENTDEMAND :: nat where "WAIT_FOR_CURRENTDEMAND \<equiv> 8"
abbreviation (input) WAIT_FOR_CURRENTDEMAND_POWERDELIVERY :: nat where "WAIT_FOR_CURRENTDEMAND_POWERDELIVERY \<equiv> 9"
abbreviation (input) WAIT_FOR_WELDINGDETECTION_SESSIONSTOP :: nat where "WAIT_FOR_WELDINGDETECTION_SESSIONSTOP \<equiv> 10"
abbreviation (input) WAIT_FOR_SESSIONSTOP :: nat where "WAIT_FOR_SESSIONSTOP \<equiv> 11"
abbreviation (input) WAIT_FOR_TERMINATED_SESSION :: nat where "WAIT_FOR_TERMINATED_SESSION \<equiv> 12"

fun msg_number :: "V2gMsgTypeId \<Rightarrow> nat" where
  "msg_number V2G_SUPPORTED_APP_PROTOCOL_MSG = 0"
| "msg_number V2G_SESSION_SETUP_MSG = 1"
| "msg_number V2G_SERVICE_DISCOVERY_MSG = 2"
| "msg_number V2G_SERVICE_DETAIL_MSG = 3"
| "msg_number V2G_PAYMENT_SERVICE_SELECTION_MSG = 4"
| "msg_number V2G_PAYMENT_DETAILS_MSG = 5"
| "msg_number V2G_AUTHORIZATION_MSG = 6"
| "msg_number V2G_CHARGE_PARAMETER_DISCOVERY_MSG = 7"
| "msg_number V2G_METERING_RECEIPT_MSG = 8"
| "msg_number V2G_CERTIFICATE_UPDATE_MSG = 9"
| "msg_number V2G_CERTIFICATE_INSTALLATION_MSG = 10"
| "msg_number V2G_CHARGING_STATUS_MSG = 11"
| "msg_number V2G_CABLE_CHECK_MSG = 12"
| "msg_number V2G_PRE_CHARGE_MSG = 13"
| "msg_number V2G_POWER_DELIVERY_MSG = 14"
| "msg_number V2G_CURRENT_DEMAND_MSG = 15"
| "msg_number V2G_WELDING_DETECTION_MSG = 16"
| "msg_number V2G_SESSION_STOP_MSG = 17"
| "msg_number V2G_UNKNOWN_MSG = 18"

definition requests_mask :: "V2gMsgTypeId list \<Rightarrow> u32" where
  "requests_mask ms = fold (\<lambda>m w. w OR push_bit (msg_number m) 1) ms 0"

definition din_states :: "u32 list" where
  "din_states = map requests_mask
     [[V2G_SESSION_SETUP_MSG],
      [V2G_SERVICE_DISCOVERY_MSG, V2G_SESSION_STOP_MSG],
      [V2G_PAYMENT_SERVICE_SELECTION_MSG, V2G_SESSION_STOP_MSG],
      [V2G_AUTHORIZATION_MSG, V2G_SESSION_STOP_MSG],
      [V2G_CHARGE_PARAMETER_DISCOVERY_MSG, V2G_SESSION_STOP_MSG],
      [V2G_CABLE_CHECK_MSG, V2G_SESSION_STOP_MSG],
      [V2G_PRE_CHARGE_MSG, V2G_SESSION_STOP_MSG],
      [V2G_POWER_DELIVERY_MSG, V2G_PRE_CHARGE_MSG, V2G_SESSION_STOP_MSG],
      [V2G_CURRENT_DEMAND_MSG],
      [V2G_CURRENT_DEMAND_MSG, V2G_POWER_DELIVERY_MSG],
      [V2G_WELDING_DETECTION_MSG, V2G_SESSION_STOP_MSG],
      [V2G_SESSION_STOP_MSG],
      []]"

section \<open>Checking the response code\<close>

definition din_validate_state :: "nat \<Rightarrow> V2gMsgTypeId \<Rightarrow> din_responseCodeType" where
  "din_validate_state s m =
     (if bit (din_states ! s) (msg_number m) then din_responseCodeType_OK
      else din_responseCodeType_FAILED_SequenceError)"

definition din_validate_response_code ::
    "din_responseCodeType \<Rightarrow> v2g_context \<Rightarrow> v2g_event \<times> din_responseCodeType \<times> v2g_context" where
  "din_validate_response_code code c =
     (if is_connection_terminated c then (V2G_EVENT_TERMINATE_CONNECTION, code, c)
      else
        let code = (if stop_hlc c \<or> intl_emergency_shutdown c then din_responseCodeType_FAILED else code);
            code = (if error_shutdown c \<and> error_shutdown_reported c \<and>
                       (current_v2g_msg c = V2G_CABLE_CHECK_MSG \<or> current_v2g_msg c = V2G_PRE_CHARGE_MSG \<or>
                        current_v2g_msg c = V2G_CURRENT_DEMAND_MSG)
                    then din_responseCodeType_FAILED else code);
            tmp = din_validate_state (state c) (current_v2g_msg c);
            code = (if tmp \<ge> din_responseCodeType_FAILED then tmp else code);
            code = (if current_v2g_msg c \<noteq> V2G_SESSION_SETUP_MSG \<and>
                       session_id (evse_data c) \<noteq> received_session_id (ev_data c)
                    then din_responseCodeType_FAILED_UnknownSession else code);
            event = (if terminate_connection_on_failed_response c \<and> code \<ge> din_responseCodeType_FAILED
                     then V2G_EVENT_SEND_AND_TERMINATE else V2G_EVENT_NO_EVENT);
            c = (if error_shutdown c \<and> code < din_responseCodeType_FAILED
                 then c\<lparr>error_shutdown_reported := True\<rparr> else c)
        in (event, code, c))"

section \<open>Helpers\<close>

definition load_din_physical_value :: "iso2_PhysicalValueType \<Rightarrow> din_PhysicalValueType" where
  "load_din_physical_value p =
     \<lparr>din_Multiplier = Multiplier p,
      din_Unit = (case Unit p of
          iso2_unit_h \<Rightarrow> din_unit_h | iso2_unit_m \<Rightarrow> din_unit_m | iso2_unit_s \<Rightarrow> din_unit_s
        | iso2_unit_A \<Rightarrow> din_unit_A | iso2_unit_V \<Rightarrow> din_unit_V | iso2_unit_W \<Rightarrow> din_unit_W
        | iso2_unit_Wh \<Rightarrow> din_unit_Wh),
      din_Unit_isUsed = True, din_Value = Value p\<rparr>"

definition din_physical :: "din_PhysicalValueType \<Rightarrow> rat" where
  "din_physical p = calc_physical_value (din_Value p) (din_Multiplier p)"

definition hex_digit :: "byte \<Rightarrow> char" where
  "hex_digit d = ''0123456789ABCDEF'' ! unat d"

definition to_mac_address_str :: "byte list \<Rightarrow> string" where
  "to_mac_address_str bs =
     (if bs \<noteq> [] \<and> length bs \<le> 16
      then butlast (concat (map (\<lambda>b. [hex_digit (b div 16), hex_digit (b mod 16), CHR '':'']) bs))
      else [])"

definition v2g_session_id_from_exi :: "byte list \<Rightarrow> u64" where
  "v2g_session_id_from_exi bs = foldr (\<lambda>b w. push_bit 8 w OR ucast b) (take 8 bs) 0"

text \<open>The session identifier is copied into the header of a response as it lies in memory, low byte first.\<close>

definition session_id_bytes :: "u64 \<Rightarrow> byte list" where
  "session_id_bytes w = map (\<lambda>i. ucast (drop_bit (8 * i) w)) [0..<8]"

definition publish_DIN_DcEvStatus :: "din_DC_EVStatusType \<Rightarrow> v2g_context \<Rightarrow> v2g_context" where
  "publish_DIN_DcEvStatus s c =
     (if ev_status_EVErrorCode (ev_data c) \<noteq> EVErrorCode s \<or> ev_status_EVReady (ev_data c) \<noteq> EVReady s \<or>
         ev_status_EVRESSSOC (ev_data c) \<noteq> EVRESSSOC s
      then publish (publish_dc_ev_status (EVErrorCode s) (EVReady s) (EVRESSSOC s))
             (c\<lparr>ev_data := (ev_data c)\<lparr>ev_status_EVErrorCode := EVErrorCode s, ev_status_EVReady := EVReady s,
                ev_status_EVRESSSOC := EVRESSSOC s\<rparr>\<rparr>)
      else c)"

definition publish_din_charge_parameter_discovery_req ::
    "din_ChargeParameterDiscoveryReqType \<Rightarrow> v2g_context \<Rightarrow> v2g_context" where
  "publish_din_charge_parameter_discovery_req r c =
     (let mode = (if EVRequestedEnergyTransferType r \<le> 5 then EVRequestedEnergyTransferType r else 0);
          c = publish (publish_requested_energy_transfer_mode mode) c;
          p = DC_EVChargeParameter r
      in if DC_EVChargeParameter_isUsed r then
           let c = (if EVEnergyCapacity_isUsed p
                 then publish (publish_dc_ev_energy_capacity (din_physical (EVEnergyCapacity p))) c else c);
               c = (if EVEnergyRequest_isUsed p
                 then publish (publish_dc_ev_energy_request (din_physical (EVEnergyRequest p))) c else c);
               c = (if FullSOC_isUsed p then publish (publish_dc_full_soc (FullSOC p)) c else c);
               c = (if BulkSOC_isUsed p then publish (publish_dc_bulk_soc (BulkSOC p)) c else c);
               c = publish_dc_ev_maximum_limits_if_changed
                     (din_physical (cp_EVMaximumCurrentLimit p)) True
                     (din_physical (cp_EVMaximumPowerLimit p)) (cp_EVMaximumPowerLimit_isUsed p)
                     (din_physical (cp_EVMaximumVoltageLimit p)) True c
           in publish_DIN_DcEvStatus (cp_DC_EVStatus p) c
         else c)"

definition publish_din_power_delivery_req :: "din_PowerDeliveryReqType \<Rightarrow> v2g_context \<Rightarrow> v2g_context" where
  "publish_din_power_delivery_req r c =
     (if DC_EVPowerDeliveryParameter_isUsed r then
        let p = DC_EVPowerDeliveryParameter r;
            c = publish (publish_dc_charging_complete (pd_ChargingComplete p)) c;
            c = (if pd_BulkChargingComplete_isUsed p
                 then publish (publish_dc_bulk_charging_complete (pd_BulkChargingComplete p)) c else c)
        in publish_DIN_DcEvStatus (pd_DC_EVStatus p) c
      else c)"

definition publish_din_precharge_req :: "din_PreChargeReqType \<Rightarrow> v2g_context \<Rightarrow> v2g_context" where
  "publish_din_precharge_req r c =
     publish_DIN_DcEvStatus (pc_DC_EVStatus r)
       (publish_dc_ev_target_if_changed (din_physical (pc_EVTargetVoltage r)) (din_physical (pc_EVTargetCurrent r)) c)"

definition publish_din_current_demand_req :: "din_CurrentDemandReqType \<Rightarrow> v2g_context \<Rightarrow> v2g_context" where
  "publish_din_current_demand_req r c =
     (let c = (if cd_BulkChargingComplete_isUsed r \<and> bulk_charging_complete (ev_data c) \<noteq> cd_BulkChargingComplete r
           then (publish (publish_dc_bulk_charging_complete (cd_BulkChargingComplete r)) c)
                  \<lparr>ev_data := (ev_data c)\<lparr>bulk_charging_complete := cd_BulkChargingComplete r\<rparr>\<rparr>
           else c);
          c = (if charging_complete (ev_data c) \<noteq> cd_ChargingComplete r
           then (publish (publish_dc_charging_complete (cd_ChargingComplete r)) c)
                  \<lparr>ev_data := (ev_data c)\<lparr>charging_complete := cd_ChargingComplete r\<rparr>\<rparr>
           else c);
          c = publish_DIN_DcEvStatus (cd_DC_EVStatus r) c;
          c = publish_dc_ev_target_if_changed (din_physical (cd_EVTargetVoltage r)) (din_physical (cd_EVTargetCurrent r)) c;
          c = publish_dc_ev_maximum_limits_if_changed
                (din_physical (cd_EVMaximumCurrentLimit r)) (cd_EVMaximumCurrentLimit_isUsed r)
                (din_physical (cd_EVMaximumPowerLimit r)) (cd_EVMaximumPowerLimit_isUsed r)
                (din_physical (cd_EVMaximumVoltageLimit r)) (cd_EVMaximumVoltageLimit_isUsed r) c
      in publish_dc_ev_remaining_time_if_changed
           (din_physical (cd_RemainingTimeToFullSoC r)) (cd_RemainingTimeToFullSoC_isUsed r)
           (din_physical (cd_RemainingTimeToBulkSoC r)) (cd_RemainingTimeToBulkSoC_isUsed r) c)"

section \<open>Handlers\<close>

text \<open>The part of the DC status that every response takes from the context.\<close>

definition din_evse_status :: "byte \<Rightarrow> v2g_context \<Rightarrow> din_DC_EVSEStatusType" where
  "din_evse_status code c =
     \<lparr>EVSEIsolationStatus = evse_isolation_status (evse_data c),
      EVSEIsolationStatus_isUsed = evse_isolation_status_is_used (evse_data c),
      EVSEStatusCode = code,
      NotificationMaxDelay = notification_max_delay (evse_data c),
      EVSENotification = evse_notification (evse_data c)\<rparr>"

definition din_phase_status :: "charging_phase \<Rightarrow> v2g_context \<Rightarrow> byte" where
  "din_phase_status phase c =
     (if intl_emergency_shutdown c then EVSE_EmergencyShutdown else evse_status_code (evse_data c) phase)"

definition din_processing :: "charging_phase \<Rightarrow> v2g_context \<Rightarrow> byte" where
  "din_processing phase c =
     (if evse_processing (evse_data c) phase = 0 then EVSEProcessing_Finished else EVSEProcessing_Ongoing)"

definition handle_din_session_setup ::
    "u64 \<Rightarrow> int \<Rightarrow> byte list \<Rightarrow> v2g_context \<Rightarrow> v2g_event \<times> din_SessionSetupResType \<times> v2g_context" where
  "handle_din_session_setup rnd now evccid c =
     (let c = publish (publish_evcc_id (to_mac_address_str evccid)) c;
          c = (if session_id (evse_data c) = 0 then c\<lparr>evse_data := (evse_data c)\<lparr>session_id := rnd\<rparr>\<rparr> else c);
          (event, code, c) = din_validate_response_code din_responseCodeType_OK_NewSessionEstablished c
      in (event,
          \<lparr>ss_ResponseCode = code, ss_EVSEID = take 32 (evse_id (evse_data c)), ss_DateTimeNow = now,
           ss_DateTimeNow_isUsed = date_time_now_is_used (evse_data c)\<rparr>,
          c\<lparr>state := WAIT_FOR_SERVICEDISCOVERY\<rparr>))"

definition handle_din_service_discovery ::
    "v2g_context \<Rightarrow> v2g_event \<times> din_ServiceDiscoveryResType \<times> v2g_context" where
  "handle_din_service_discovery c =
     (let mode = charge_service_EnergyTransferMode0 (evse_data c);
          c = (if mode \<noteq> EnergyTransfer_DC_core \<and> mode \<noteq> EnergyTransfer_DC_extended
               then c\<lparr>evse_data := (evse_data c)\<lparr>charge_service_EnergyTransferMode0 := EnergyTransfer_DC_extended\<rparr>\<rparr>
               else c);
          (event, code, c) = din_validate_response_code din_responseCodeType_OK c
      in (event,
          \<lparr>sd_ResponseCode = code, sd_ServiceID = charge_service_ServiceID (evse_data c),
           sd_FreeService = charge_service_FreeService (evse_data c),
           sd_EnergyTransferType = charge_service_EnergyTransferMode0 (evse_data c),
           sd_PaymentOptions = [din_paymentOptionType_ExternalPayment]\<rparr>,
          c\<lparr>state := WAIT_FOR_PAYMENTSERVICESELECTION\<rparr>))"

definition handle_din_service_payment_selection ::
    "din_ServicePaymentSelectionReqType \<Rightarrow> v2g_context \<Rightarrow> v2g_event \<times> din_responseCodeType \<times> v2g_context" where
  "handle_din_service_payment_selection r c =
     (let code = (if SelectedPaymentOption r \<noteq> din_paymentOptionType_ExternalPayment
                  then din_responseCodeType_FAILED_PaymentSelectionInvalid else din_responseCodeType_OK);
          code = (if SelectedService_ServiceIDs r = [charge_service_ServiceID (evse_data c)]
                  then code else din_responseCodeType_FAILED_ServiceSelectionInvalid);
          (event, code, c) = din_validate_response_code code c
      in (event, code, c\<lparr>state := WAIT_FOR_AUTHORIZATION\<rparr>))"

definition handle_din_contract_authentication ::
    "v2g_context \<Rightarrow> v2g_event \<times> din_ContractAuthenticationResType \<times> v2g_context" where
  "handle_din_contract_authentication c =
     (let code = (if authorization_rejected (session c) then din_responseCodeType_FAILED else din_responseCodeType_OK);
          processing = din_processing PHASE_AUTH c;
          (event, code, c) = din_validate_response_code code c
      in (event, \<lparr>ca_ResponseCode = code, ca_EVSEProcessing = processing\<rparr>,
          c\<lparr>state := (if processing = EVSEProcessing_Ongoing then WAIT_FOR_AUTHORIZATION
                      else WAIT_FOR_CHARGEPARAMETERDISCOVERY)\<rparr>))"

definition SHRT_MAX :: int where
  "SHRT_MAX = 32767"

definition SA_SCHEDULE_DURATION :: u32 where
  "SA_SCHEDULE_DURATION = 86400"

definition SASCHEDULETUPLEID :: int where
  "SASCHEDULETUPLEID = 1"

text \<open>The conversion of a floating point number into an integer truncates towards zero.\<close>

definition truncate_rat :: "rat \<Rightarrow> int" where
  "truncate_rat q = (if q \<ge> 0 then \<lfloor>q\<rfloor> else \<lceil>q\<rceil>)"

definition din_pmax :: "v2g_context \<Rightarrow> int" where
  "din_pmax c =
     (let p = pc_max_power (power_capabilities (evse_data c));
          v = calc_physical_value (Value p) (Multiplier p)
      in if evse_maximum_power_limit_is_used (evse_data c)
         then (if of_int SHRT_MAX < v then SHRT_MAX else truncate_rat v) else SHRT_MAX)"

definition din_charge_parameter_response :: "v2g_context \<Rightarrow> din_ChargeParameterDiscoveryResType" where
  "din_charge_parameter_response c =
     (let d = evse_data c; p = power_capabilities d
      in \<lparr>cpr_ResponseCode = din_responseCodeType_OK,
          cpr_EVSEProcessing = din_processing PHASE_PARAMETER c,
          cpr_DC_EVSEChargeParameter =
            \<lparr>cpr_DC_EVSEStatus = din_evse_status (din_phase_status PHASE_PARAMETER c) c,
             cpr_EVSEMaximumCurrentLimit = load_din_physical_value (pc_max_current p),
             cpr_EVSEMaximumPowerLimit = load_din_physical_value (pc_max_power p),
             cpr_EVSEMaximumPowerLimit_isUsed = evse_maximum_power_limit_is_used d,
             cpr_EVSEMaximumVoltageLimit = load_din_physical_value (pc_max_voltage p),
             cpr_EVSEMinimumCurrentLimit = load_din_physical_value (pc_min_current p),
             cpr_EVSEMinimumVoltageLimit = load_din_physical_value (pc_min_voltage p),
             cpr_EVSECurrentRegulationTolerance = (if evse_current_regulation_tolerance_is_used d
               then Some (load_din_physical_value (evse_current_regulation_tolerance d)) else None),
             cpr_EVSEPeakCurrentRipple = load_din_physical_value (evse_peak_current_ripple d),
             cpr_EVSEEnergyToBeDelivered = load_din_physical_value (evse_energy_to_be_delivered d),
             cpr_EVSEEnergyToBeDelivered_isUsed = evse_energy_to_be_delivered_is_used d\<rparr>,
          cpr_SAScheduleTupleID = SASCHEDULETUPLEID, cpr_PMaxScheduleID = 1,
          cpr_PMax = din_pmax c,
          cpr_duration = (if no_energy_pause d = NoPause then SA_SCHEDULE_DURATION else 60 * 30),
          cpr_start = 0\<rparr>)"

definition set_cpr_status ::
    "(din_DC_EVSEStatusType \<Rightarrow> din_DC_EVSEStatusType) \<Rightarrow> din_ChargeParameterDiscoveryResType \<Rightarrow>
     din_ChargeParameterDiscoveryResType" where
  "set_cpr_status f res = res\<lparr>cpr_DC_EVSEChargeParameter := (cpr_DC_EVSEChargeParameter res)
     \<lparr>cpr_DC_EVSEStatus := f (cpr_DC_EVSEStatus (cpr_DC_EVSEChargeParameter res))\<rparr>\<rparr>"

text \<open>The response of \<open>handle_din_charge_parameter\<close> before its code is checked.\<close>

definition din_charge_parameter_checks ::
    "bool \<Rightarrow> din_ChargeParameterDiscoveryReqType \<Rightarrow> v2g_context \<Rightarrow> din_ChargeParameterDiscoveryResType" where
  "din_charge_parameter_checks first_req r c =
     (let res = din_charge_parameter_response c;
          type_ok = ((EVRequestedEnergyTransferType r = EnergyTransfer_DC_core \<or>
                      EVRequestedEnergyTransferType r = EnergyTransfer_DC_extended) \<and>
                     charge_service_EnergyTransferMode0 (evse_data c) = EVRequestedEnergyTransferType r);
          res = (if \<not> type_ok \<and> \<not> is_fake_dc c
                 then res\<lparr>cpr_ResponseCode := din_responseCodeType_FAILED_WrongEnergyTransferType\<rparr> else res);
          res = (if AC_EVChargeParameter_isUsed r
                 then res\<lparr>cpr_ResponseCode := din_responseCodeType_FAILED_WrongChargeParameter\<rparr> else res);
          p = DC_EVChargeParameter r;
          q = cpr_DC_EVSEChargeParameter res;
          res = (if din_physical (cp_EVMaximumCurrentLimit p) \<le> din_physical (cpr_EVSEMinimumCurrentLimit q) \<or>
                    din_physical (cp_EVMaximumVoltageLimit p) \<le> din_physical (cpr_EVSEMinimumVoltageLimit q)
                 then set_cpr_status (\<lambda>s. s\<lparr>EVSEStatusCode := EVSE_Shutdown\<rparr>)
                        (res\<lparr>cpr_ResponseCode := din_responseCodeType_FAILED_WrongChargeParameter\<rparr>)
                 else res);
          res = (if cpr_EVSEProcessing res = EVSEProcessing_Finished \<and> no_energy_pause (evse_data c) \<noteq> NoPause
                 then set_cpr_status (\<lambda>s. s\<lparr>EVSENotification := EVSENotification_StopCharging,
                                           NotificationMaxDelay := 0\<rparr>) res
                 else res)
      in if is_fake_dc c
         then let res = set_cpr_status (\<lambda>s. s\<lparr>EVSENotification := EVSENotification_StopCharging,
                    NotificationMaxDelay := 0, EVSEStatusCode := EVSE_Shutdown\<rparr>) res
              in if first_req then res\<lparr>cpr_EVSEProcessing := EVSEProcessing_Ongoing\<rparr>
                 else res\<lparr>cpr_ResponseCode := din_responseCodeType_FAILED\<rparr>
         else res)"

definition handle_din_charge_parameter ::
    "din_ChargeParameterDiscoveryReqType \<Rightarrow> v2g_context \<Rightarrow>
     v2g_event \<times> din_ChargeParameterDiscoveryResType \<times> v2g_context" where
  "handle_din_charge_parameter r c =
     (let first_req = last_v2g_msg c \<noteq> V2G_CHARGE_PARAMETER_DISCOVERY_MSG;
          c = publish_din_charge_parameter_discovery_req r c;
          res = din_charge_parameter_checks first_req r c;
          (event, code, c) = din_validate_response_code (cpr_ResponseCode res) c;
          next_state = (if cpr_EVSEProcessing res = EVSEProcessing_Finished
                  then (if no_energy_pause (evse_data c) = BeforeCableCheck \<or>
                           no_energy_pause (evse_data c) = AfterCableCheckPreCharge
                        then WAIT_FOR_SESSIONSTOP else WAIT_FOR_CABLECHECK)
                  else WAIT_FOR_CHARGEPARAMETERDISCOVERY)
      in (event, res\<lparr>cpr_ResponseCode := code\<rparr>, c\<lparr>state := next_state\<rparr>))"

definition shut_down_status :: "byte \<Rightarrow> byte" where
  "shut_down_status code = (if code = EVSE_NotReady \<or> code = EVSE_Ready then EVSE_Shutdown else code)"

text \<open>The first part of \<open>handle_din_power_delivery\<close>: it ends or sets up the charging loop.\<close>

definition din_power_delivery_switch :: "din_PowerDeliveryReqType \<Rightarrow> v2g_context \<Rightarrow> v2g_context" where
  "din_power_delivery_switch r c =
     (let codes = evse_status_code (evse_data c)
      in if ReadyToChargeState r = 0
         then let c = c\<lparr>evse_data := (evse_data c)\<lparr>evse_status_code :=
                    codes(PHASE_CHARGE := shut_down_status (codes PHASE_CHARGE),
                          PHASE_WELDING := shut_down_status (codes PHASE_WELDING))\<rparr>\<rparr>;
                  c = publish publish_current_demand_finished c;
                  c = publish publish_dc_open_contactor c
              in c\<lparr>session := (session c)\<lparr>is_charging := False\<rparr>\<rparr>
         else publish publish_v2g_setup_finished c)"

definition handle_din_power_delivery ::
    "din_PowerDeliveryReqType \<Rightarrow> v2g_context \<Rightarrow> v2g_event \<times> din_PowerDeliveryResType \<times> v2g_context" where
  "handle_din_power_delivery r c =
     (let c = din_power_delivery_switch r (publish_din_power_delivery_req r c);
          status = din_evse_status (din_phase_status PHASE_CHARGE c) c;
          code = (if ChargingProfile_isUsed r \<and> ChargingProfile_SAScheduleTupleID r \<noteq> SASCHEDULETUPLEID
                  then din_responseCodeType_FAILED_TariffSelectionInvalid else din_responseCodeType_OK);
          code = (if ReadyToChargeState r = 1 \<and> EVSEStatusCode status \<noteq> EVSE_Ready
                  then din_responseCodeType_FAILED_PowerDeliveryNotApplied else code);
          (event, code, c) = din_validate_response_code code c
      in if ReadyToChargeState r = 1 \<and> last_v2g_msg c \<noteq> V2G_CURRENT_DEMAND_MSG
         then (event, \<lparr>pdr_ResponseCode = code, pdr_DC_EVSEStatus = status\<rparr>, c\<lparr>state := WAIT_FOR_CURRENTDEMAND\<rparr>)
         else if ReadyToChargeState r = 1
         then (V2G_EVENT_SEND_AND_TERMINATE, \<lparr>pdr_ResponseCode = din_responseCodeType_FAILED, pdr_DC_EVSEStatus = status\<rparr>,
               c\<lparr>state := WAIT_FOR_WELDINGDETECTION_SESSIONSTOP\<rparr>)
         else (event, \<lparr>pdr_ResponseCode = code, pdr_DC_EVSEStatus = status\<rparr>,
               c\<lparr>state := WAIT_FOR_WELDINGDETECTION_SESSIONSTOP\<rparr>))"

definition handle_din_cable_check ::
    "din_DC_EVStatusType \<Rightarrow> v2g_context \<Rightarrow> v2g_event \<times> din_CableCheckResType \<times> v2g_context" where
  "handle_din_cable_check ev_status c =
     (let c = publish_DIN_DcEvStatus ev_status c;
          processing = din_processing PHASE_ISOLATION c;
          status_code = (if intl_emergency_shutdown c \<or> error_shutdown c then EVSE_EmergencyShutdown
                         else if processing = EVSEProcessing_Finished then EVSE_Ready
                         else evse_status_code (evse_data c) PHASE_ISOLATION);
          status = din_evse_status status_code c;
          (event, code, c) = din_validate_response_code din_responseCodeType_OK c;
          next_state = (if processing = EVSEProcessing_Finished \<and> EVSEIsolationStatus_isUsed status \<and>
                     (EVSEIsolationStatus status = isolation_Valid \<or> EVSEIsolationStatus status = isolation_Warning) \<and>
                     EVSEStatusCode status = EVSE_Ready
                  then WAIT_FOR_PRECHARGE else WAIT_FOR_CABLECHECK)
      in (event, \<lparr>cc_ResponseCode = code, cc_DC_EVSEStatus = status, cc_EVSEProcessing = processing\<rparr>,
          c\<lparr>state := next_state\<rparr>))"

definition handle_din_pre_charge ::
    "din_PreChargeReqType \<Rightarrow> v2g_context \<Rightarrow> v2g_event \<times> din_PreChargeResType \<times> v2g_context" where
  "handle_din_pre_charge r c =
     (let c = publish_din_precharge_req r c;
          status = din_evse_status (din_phase_status PHASE_PRECHARGE c) c;
          voltage = load_din_physical_value (evse_present_voltage (evse_data c));
          (event, code, c) = din_validate_response_code din_responseCodeType_OK c
      in (event, \<lparr>pcr_ResponseCode = code, pcr_DC_EVSEStatus = status, pcr_EVSEPresentVoltage = voltage\<rparr>,
          c\<lparr>state := WAIT_FOR_PRECHARGE_POWERDELIVERY\<rparr>))"

definition handle_din_current_demand ::
    "din_CurrentDemandReqType \<Rightarrow> v2g_context \<Rightarrow> v2g_event \<times> din_CurrentDemandResType \<times> v2g_context" where
  "handle_din_current_demand r c =
     (let c = publish_din_current_demand_req r c;
          d = evse_data c;
          res = \<lparr>cdr_ResponseCode = din_responseCodeType_OK,
            cdr_DC_EVSEStatus = din_evse_status (din_phase_status PHASE_CHARGE c) c,
            cdr_EVSEPresentVoltage = load_din_physical_value (evse_present_voltage d),
            cdr_EVSEPresentCurrent = load_din_physical_value (evse_present_current d),
            cdr_EVSECurrentLimitAchieved = evse_current_limit_achieved d,
            cdr_EVSEVoltageLimitAchieved = evse_voltage_limit_achieved d,
            cdr_EVSEPowerLimitAchieved = evse_power_limit_achieved d,
            cdr_EVSEMaximumVoltageLimit = load_din_physical_value (evse_maximum_voltage_limit d),
            cdr_EVSEMaximumVoltageLimit_isUsed = evse_maximum_voltage_limit_is_used d,
            cdr_EVSEMaximumCurrentLimit = load_din_physical_value (evse_maximum_current_limit d),
            cdr_EVSEMaximumCurrentLimit_isUsed = evse_maximum_current_limit_is_used d,
            cdr_EVSEMaximumPowerLimit = load_din_physical_value (evse_maximum_power_limit d),
            cdr_EVSEMaximumPowerLimit_isUsed = evse_maximum_power_limit_is_used d\<rparr>;
          (event, code, c) = din_validate_response_code din_responseCodeType_OK c
      in (event, res\<lparr>cdr_ResponseCode := code\<rparr>, c\<lparr>state := WAIT_FOR_CURRENTDEMAND_POWERDELIVERY\<rparr>))"

definition handle_din_welding_detection ::
    "din_DC_EVStatusType \<Rightarrow> v2g_context \<Rightarrow> v2g_event \<times> din_WeldingDetectionResType \<times> v2g_context" where
  "handle_din_welding_detection ev_status c =
     (let c = publish_DIN_DcEvStatus ev_status c;
          status = din_evse_status (din_phase_status PHASE_WELDING c) c;
          voltage = load_din_physical_value (evse_present_voltage (evse_data c));
          (event, code, c) = din_validate_response_code din_responseCodeType_OK c
      in (event, \<lparr>wd_ResponseCode = code, wd_DC_EVSEStatus = status, wd_EVSEPresentVoltage = voltage\<rparr>,
          c\<lparr>state := WAIT_FOR_WELDINGDETECTION_SESSIONSTOP\<rparr>))"

definition handle_din_session_stop :: "v2g_connection \<Rightarrow> v2g_event \<times> din_responseCodeType \<times> v2g_connection" where
  "handle_din_session_stop conn =
     (let (event, code, c) = din_validate_response_code din_responseCodeType_OK (ctx conn)
      in (V2G_EVENT_SEND_AND_TERMINATE, code,
          conn\<lparr>ctx := c\<lparr>state := WAIT_FOR_TERMINATED_SESSION\<rparr>,
               session_stop_res_pending := (if code = din_responseCodeType_OK then SESSION_STOP_TERMINATE
                                            else session_stop_res_pending conn),
               d_link_action := D_LINK_ACTION_TERMINATE\<rparr>))"

section \<open>Dispatch\<close>

definition with_ctx ::
    "('r \<Rightarrow> din_response) \<Rightarrow> v2g_connection \<Rightarrow> v2g_event \<times> 'r \<times> v2g_context \<Rightarrow>
     v2g_event \<times> din_response option \<times> v2g_connection" where
  "with_ctx mk conn = (\<lambda>(event, res, c). (event, Some (mk res), conn\<lparr>ctx := c\<rparr>))"

definition ignore_msg :: "v2g_connection \<Rightarrow> v2g_event \<times> din_response option \<times> v2g_connection" where
  "ignore_msg conn = (V2G_EVENT_IGNORE_MSG, None, conn\<lparr>ctx := (ctx conn)\<lparr>current_v2g_msg := V2G_UNKNOWN_MSG\<rparr>\<rparr>)"

definition publish_when :: "bool \<Rightarrow> charger_event \<Rightarrow> v2g_context \<Rightarrow> v2g_context" where
  "publish_when b e c = (if b then publish e c else c)"

definition din_dispatch ::
    "u64 \<Rightarrow> int \<Rightarrow> v2g_connection \<Rightarrow> din_request \<Rightarrow> v2g_event \<times> din_response option \<times> v2g_connection" where
  "din_dispatch rnd now conn req =
     (let c = ctx conn; last = last_v2g_msg c
      in case req of
        CurrentDemandReq r \<Rightarrow>
          with_ctx CurrentDemandRes conn
            (let c = (if last = V2G_POWER_DELIVERY_MSG
                      then (publish publish_current_demand_started c)\<lparr>session := (session c)\<lparr>is_charging := True\<rparr>\<rparr>
                      else c)
             in handle_din_current_demand r (c\<lparr>current_v2g_msg := V2G_CURRENT_DEMAND_MSG\<rparr>))
      | SessionSetupReq evccid \<Rightarrow>
          with_ctx SessionSetupRes conn
            (handle_din_session_setup rnd now evccid (c\<lparr>current_v2g_msg := V2G_SESSION_SETUP_MSG\<rparr>))
      | ServiceDiscoveryReq \<Rightarrow>
          with_ctx ServiceDiscoveryRes conn
            (handle_din_service_discovery (c\<lparr>current_v2g_msg := V2G_SERVICE_DISCOVERY_MSG\<rparr>))
      | ServicePaymentSelectionReq r \<Rightarrow>
          with_ctx ServicePaymentSelectionRes conn
            (handle_din_service_payment_selection r (c\<lparr>current_v2g_msg := V2G_PAYMENT_SERVICE_SELECTION_MSG\<rparr>))
      | ContractAuthenticationReq \<Rightarrow>
          with_ctx ContractAuthenticationRes conn
            (handle_din_contract_authentication
               (publish_when (last \<noteq> V2G_AUTHORIZATION_MSG) publish_require_auth_eim
                  (c\<lparr>current_v2g_msg := V2G_AUTHORIZATION_MSG\<rparr>)))
      | PaymentDetailsReq \<Rightarrow> ignore_msg conn
      | ServiceDetailReq \<Rightarrow> ignore_msg conn
      | ChargeParameterDiscoveryReq r \<Rightarrow>
          with_ctx ChargeParameterDiscoveryRes conn
            (handle_din_charge_parameter r (c\<lparr>current_v2g_msg := V2G_CHARGE_PARAMETER_DISCOVERY_MSG\<rparr>))
      | CableCheckReq ev_status \<Rightarrow>
          with_ctx CableCheckRes conn
            (handle_din_cable_check ev_status
               (publish_when (last = V2G_CHARGE_PARAMETER_DISCOVERY_MSG) publish_start_cable_check
                  (c\<lparr>current_v2g_msg := V2G_CABLE_CHECK_MSG\<rparr>)))
      | PreChargeReq r \<Rightarrow>
          with_ctx PreChargeRes conn
            (handle_din_pre_charge r
               (publish_when (last = V2G_CABLE_CHECK_MSG) publish_start_pre_charge
                  (c\<lparr>current_v2g_msg := V2G_PRE_CHARGE_MSG\<rparr>)))
      | PowerDeliveryReq r \<Rightarrow>
          with_ctx PowerDeliveryRes conn
            (handle_din_power_delivery r (c\<lparr>current_v2g_msg := V2G_POWER_DELIVERY_MSG\<rparr>))
      | ChargingStatusReq \<Rightarrow> ignore_msg conn
      | MeteringReceiptReq \<Rightarrow> ignore_msg conn
      | CertificateUpdateReq \<Rightarrow> ignore_msg conn
      | CertificateInstallationReq \<Rightarrow> ignore_msg conn
      | WeldingDetectionReq ev_status \<Rightarrow>
          with_ctx WeldingDetectionRes conn
            (handle_din_welding_detection ev_status (c\<lparr>current_v2g_msg := V2G_WELDING_DETECTION_MSG\<rparr>))
      | SessionStopReq \<Rightarrow>
          (case handle_din_session_stop (conn\<lparr>ctx := c\<lparr>current_v2g_msg := V2G_SESSION_STOP_MSG\<rparr>\<rparr>) of
             (event, code, conn) \<Rightarrow> (event, Some (SessionStopRes code), conn))
      | OtherReq \<Rightarrow> (V2G_EVENT_IGNORE_MSG, None, conn))"

definition din_handle_request ::
    "u64 \<Rightarrow> int \<Rightarrow> v2g_connection \<Rightarrow> din_in_document \<Rightarrow> v2g_event \<times> din_out_document \<times> v2g_connection" where
  "din_handle_request rnd now conn exi_in =
     (let c = ctx conn;
          conn = conn\<lparr>ctx := c\<lparr>ev_data := (ev_data c)
            \<lparr>received_session_id := v2g_session_id_from_exi (in_SessionID_bytes exi_in)\<rparr>\<rparr>\<rparr>;
          (event, body, conn) = din_dispatch rnd now conn (in_body exi_in)
      in if event \<noteq> V2G_EVENT_IGNORE_MSG
         then (event, \<lparr>out_SessionID_bytes = session_id_bytes (session_id (evse_data (ctx conn))), out_body = body\<rparr>,
               conn\<lparr>ctx := (ctx conn)\<lparr>last_v2g_msg := current_v2g_msg (ctx conn)\<rparr>\<rparr>)
         else (event, \<lparr>out_SessionID_bytes = [], out_body = body\<rparr>, conn))"

end
