(* ===== verification/Din_Session.thy ===== *)
theory Din_Session
  imports Din_Server
begin

text \<open>
  What the DIN 70121 session guarantees. The check of the response code is characterised
  exactly; a run of a session is a sequence of requests with changes of the context by other
  parts of the charger in between, and the invariant relates the state of the session to the
  milestones its accepted responses have passed.
\<close>

section \<open>Accepted requests\<close>

lemma din_validate_state_table:
  "din_validate_state 0 m = (if m = V2G_SESSION_SETUP_MSG then din_responseCodeType_OK else din_responseCodeType_FAILED_SequenceError)"
  "din_validate_state 1 m = (if m \<in> {V2G_SERVICE_DISCOVERY_MSG, V2G_SESSION_STOP_MSG} then din_responseCodeType_OK else din_responseCodeType_FAILED_SequenceError)"
  "din_validate_state 2 m = (if m \<in> {V2G_PAYMENT_SERVICE_SELECTION_MSG, V2G_SESSION_STOP_MSG} then din_responseCodeType_OK else din_responseCodeType_FAILED_SequenceError)"
  "din_validate_state 3 m = (if m \<in> {V2G_AUTHORIZATION_MSG, V2G_SESSION_STOP_MSG} then din_responseCodeType_OK else din_responseCodeType_FAILED_SequenceError)"
  "din_validate_state 4 m = (if m \<in> {V2G_CHARGE_PARAMETER_DISCOVERY_MSG, V2G_SESSION_STOP_MSG} then din_responseCodeType_OK else din_responseCodeType_FAILED_SequenceError)"
  "din_validate_state 5 m = (if m \<in> {V2G_CABLE_CHECK_MSG, V2G_SESSION_STOP_MSG} then din_responseCodeType_OK else din_responseCodeType_FAILED_SequenceError)"
  "din_validate_state 6 m = (if m \<in> {V2G_PRE_CHARGE_MSG, V2G_SESSION_STOP_MSG} then din_responseCodeType_OK else din_responseCodeType_FAILED_SequenceError)"
  "din_validate_state 7 m = (if m \<in> {V2G_POWER_DELIVERY_MSG, V2G_PRE_CHARGE_MSG, V2G_SESSION_STOP_MSG} then din_responseCodeType_OK else din_responseCodeType_FAILED_SequenceError)"
  "din_validate_state 8 m = (if m = V2G_CURRENT_DEMAND_MSG then din_responseCodeType_OK else din_responseCodeType_FAILED_SequenceError)"
  "din_validate_state 9 m = (if m \<in> {V2G_CURRENT_DEMAND_MSG, V2G_POWER_DELIVERY_MSG} then din_responseCodeType_OK else din_responseCodeType_FAILED_SequenceError)"
  "din_validate_state 10 m = (if m \<in> {V2G_WELDING_DETECTION_MSG, V2G_SESSION_STOP_MSG} then din_responseCodeType_OK else din_responseCodeType_FAILED_SequenceError)"
  "din_validate_state 11 m = (if m = V2G_SESSION_STOP_MSG then din_responseCodeType_OK else din_responseCodeType_FAILED_SequenceError)"
  "din_validate_state 12 m = din_responseCodeType_FAILED_SequenceError"
  by (cases m; simp add: din_validate_state_def din_states_def requests_mask_def bit_simps; fail)+

text \<open>
  The verdict on a response: the code is kept when nothing speaks against the request; else
  an unknown session comes before a request out of sequence, and that before a stop of the
  charger.
\<close>

definition shutdown_refused :: "v2g_context \<Rightarrow> bool" where
  "shutdown_refused c \<longleftrightarrow> stop_hlc c \<or> intl_emergency_shutdown c \<or>
     (error_shutdown c \<and> error_shutdown_reported c \<and>
      current_v2g_msg c \<in> {V2G_CABLE_CHECK_MSG, V2G_PRE_CHARGE_MSG, V2G_CURRENT_DEMAND_MSG})"

definition known_session :: "v2g_context \<Rightarrow> bool" where
  "known_session c \<longleftrightarrow> current_v2g_msg c = V2G_SESSION_SETUP_MSG \<or>
     session_id (evse_data c) = received_session_id (ev_data c)"

definition in_sequence :: "v2g_context \<Rightarrow> bool" where
  "in_sequence c \<longleftrightarrow> din_validate_state (state c) (current_v2g_msg c) = din_responseCodeType_OK"

definition verdict :: "din_responseCodeType \<Rightarrow> v2g_context \<Rightarrow> din_responseCodeType" where
  "verdict code c =
     (if \<not> known_session c then din_responseCodeType_FAILED_UnknownSession
      else if \<not> in_sequence c then din_responseCodeType_FAILED_SequenceError
      else if shutdown_refused c then din_responseCodeType_FAILED
      else code)"

lemma din_ok_codes [simp]:
  "din_responseCodeType_OK < din_responseCodeType_FAILED"
  "din_responseCodeType_OK_NewSessionEstablished < din_responseCodeType_FAILED"
  by (simp_all add: less_din_responseCodeType_def)

lemma din_failure_codes [simp]:
  "din_responseCodeType_FAILED \<le> din_responseCodeType_FAILED_SequenceError"
  "din_responseCodeType_FAILED \<le> din_responseCodeType_FAILED_UnknownSession"
  "din_responseCodeType_FAILED \<le> din_responseCodeType_FAILED_PaymentSelectionInvalid"
  "din_responseCodeType_FAILED \<le> din_responseCodeType_FAILED_ServiceSelectionInvalid"
  "din_responseCodeType_FAILED \<le> din_responseCodeType_FAILED_WrongEnergyTransferType"
  "din_responseCodeType_FAILED \<le> din_responseCodeType_FAILED_WrongChargeParameter"
  "din_responseCodeType_FAILED \<le> din_responseCodeType_FAILED_TariffSelectionInvalid"
  "din_responseCodeType_FAILED \<le> din_responseCodeType_FAILED_PowerDeliveryNotApplied"
  by (simp_all add: less_eq_din_responseCodeType_def)

lemmas din_codes_apart [simp] = din_ok_codes [THEN less_le_not_le [THEN iffD1], THEN conjunct2] din_failure_codes [THEN leD]

lemma din_validate_state_values:
  "din_validate_state s m \<ge> din_responseCodeType_FAILED \<longleftrightarrow> din_validate_state s m \<noteq> din_responseCodeType_OK"
  "din_validate_state s m \<noteq> din_responseCodeType_OK \<Longrightarrow> din_validate_state s m = din_responseCodeType_FAILED_SequenceError"
  by (simp_all add: din_validate_state_def split: if_splits)

lemma verdict_ok_iff:
  "verdict code c < din_responseCodeType_FAILED \<longleftrightarrow>
     known_session c \<and> in_sequence c \<and> \<not> shutdown_refused c \<and> code < din_responseCodeType_FAILED"
  by (simp add: verdict_def not_less)

lemma din_validate_response_code_verdict:
  assumes "\<not> is_connection_terminated c"
  shows "din_validate_response_code code c =
    (if verdict code c \<ge> din_responseCodeType_FAILED \<and> terminate_connection_on_failed_response c
       then V2G_EVENT_SEND_AND_TERMINATE else V2G_EVENT_NO_EVENT,
     verdict code c,
     c\<lparr>error_shutdown_reported := error_shutdown_reported c \<or>
         (error_shutdown c \<and> verdict code c < din_responseCodeType_FAILED)\<rparr>)"
proof -
  have code: "fst (snd (din_validate_response_code code c)) = verdict code c"
    using assms by (auto simp: din_validate_response_code_def verdict_def known_session_def in_sequence_def
      shutdown_refused_def din_validate_state_values Let_def)
  show ?thesis
    using assms code by (auto simp: din_validate_response_code_def Let_def)
qed

section \<open>What publishing leaves alone\<close>

text \<open>Publishing received values changes only the record of publications and the stored values.\<close>

definition control :: "v2g_context \<Rightarrow> v2g_context" where
  "control c = c\<lparr>published := [], ev_data :=
     \<lparr>bulk_charging_complete = 0, charging_complete = 0, received_session_id = received_session_id (ev_data c),
      ev_status_EVErrorCode = 0, ev_status_EVReady = 0, ev_status_EVRESSSOC = 0,
      ev_maximum_current_limit = None, ev_maximum_power_limit = None, ev_maximum_voltage_limit = None,
      v2g_target_current = None, v2g_target_voltage = None,
      remaining_time_to_bulk_soc = None, remaining_time_to_full_soc = None\<rparr>\<rparr>"

lemma control_fields:
  assumes "control a = control b"
  shows "state a = state b \<and> last_v2g_msg a = last_v2g_msg b \<and> current_v2g_msg a = current_v2g_msg b \<and>
    stop_hlc a = stop_hlc b \<and> intl_emergency_shutdown a = intl_emergency_shutdown b \<and>
    error_shutdown a = error_shutdown b \<and> error_shutdown_reported a = error_shutdown_reported b \<and>
    is_connection_terminated a = is_connection_terminated b \<and>
    terminate_connection_on_failed_response a = terminate_connection_on_failed_response b \<and>
    is_fake_dc a = is_fake_dc b \<and> evse_data a = evse_data b \<and> session a = session b \<and>
    received_session_id (ev_data a) = received_session_id (ev_data b)"
  using assms unfolding control_def by (cases a; cases b) simp

lemma control_publish: "control (publish e c) = control c"
  by (simp add: control_def publish_def)

lemma ev_data_publish: "ev_data (publish e c) = ev_data c"
  by (simp add: publish_def)

lemma control_publish_when: "control (publish_when b e c) = control c"
  by (simp add: publish_when_def control_publish)

lemma control_ev_data:
  "received_session_id d = received_session_id (ev_data c) \<Longrightarrow> control (c\<lparr>ev_data := d\<rparr>) = control c"
  by (simp add: control_def)

lemma control_publish_DIN_DcEvStatus: "control (publish_DIN_DcEvStatus s c) = control c"
  by (simp add: publish_DIN_DcEvStatus_def control_publish control_ev_data)

lemma control_publish_dc_ev_maximum_limits_if_changed:
  "control (publish_dc_ev_maximum_limits_if_changed a b d e f g c) = control c"
  by (simp add: publish_dc_ev_maximum_limits_if_changed_def control_publish control_ev_data Let_def)

lemma control_publish_dc_ev_target_if_changed: "control (publish_dc_ev_target_if_changed v i c) = control c"
  by (simp add: publish_dc_ev_target_if_changed_def control_publish control_ev_data)

lemma control_publish_dc_ev_remaining_time_if_changed:
  "control (publish_dc_ev_remaining_time_if_changed a b d e c) = control c"
  by (simp add: publish_dc_ev_remaining_time_if_changed_def control_publish control_ev_data Let_def)

lemmas control_publications = control_publish control_publish_when control_ev_data ev_data_publish
  control_publish_DIN_DcEvStatus control_publish_dc_ev_maximum_limits_if_changed
  control_publish_dc_ev_target_if_changed control_publish_dc_ev_remaining_time_if_changed

lemma control_publish_din_charge_parameter_discovery_req:
  "control (publish_din_charge_parameter_discovery_req r c) = control c"
  by (simp add: publish_din_charge_parameter_discovery_req_def control_publications Let_def)

lemma control_publish_din_power_delivery_req: "control (publish_din_power_delivery_req r c) = control c"
  by (simp add: publish_din_power_delivery_req_def control_publications Let_def)

lemma control_publish_din_precharge_req: "control (publish_din_precharge_req r c) = control c"
  by (simp add: publish_din_precharge_req_def control_publications)

lemma control_publish_din_current_demand_req: "control (publish_din_current_demand_req r c) = control c"
  by (simp add: publish_din_current_demand_req_def control_publications Let_def)

lemmas publication_frame [simp] =
  control_publish [THEN control_fields] control_publish_when [THEN control_fields]
  control_publish_DIN_DcEvStatus [THEN control_fields]
  control_publish_dc_ev_maximum_limits_if_changed [THEN control_fields]
  control_publish_dc_ev_target_if_changed [THEN control_fields]
  control_publish_dc_ev_remaining_time_if_changed [THEN control_fields]
  control_publish_din_charge_parameter_discovery_req [THEN control_fields]
  control_publish_din_power_delivery_req [THEN control_fields]
  control_publish_din_precharge_req [THEN control_fields]
  control_publish_din_current_demand_req [THEN control_fields]

section \<open>Milestones of a session\<close>

datatype milestone =
    SessionEstablished
  | ServiceSelected
  | Authorized
  | ParametersAgreed
  | CableChecked
  | PreCharged
  | PowerDelivered

fun request_msg :: "din_request \<Rightarrow> V2gMsgTypeId" where
  "request_msg (SessionSetupReq _) = V2G_SESSION_SETUP_MSG"
| "request_msg ServiceDiscoveryReq = V2G_SERVICE_DISCOVERY_MSG"
| "request_msg (ServicePaymentSelectionReq _) = V2G_PAYMENT_SERVICE_SELECTION_MSG"
| "request_msg ContractAuthenticationReq = V2G_AUTHORIZATION_MSG"
| "request_msg (ChargeParameterDiscoveryReq _) = V2G_CHARGE_PARAMETER_DISCOVERY_MSG"
| "request_msg (CableCheckReq _) = V2G_CABLE_CHECK_MSG"
| "request_msg (PreChargeReq _) = V2G_PRE_CHARGE_MSG"
| "request_msg (PowerDeliveryReq _) = V2G_POWER_DELIVERY_MSG"
| "request_msg (CurrentDemandReq _) = V2G_CURRENT_DEMAND_MSG"
| "request_msg (WeldingDetectionReq _) = V2G_WELDING_DETECTION_MSG"
| "request_msg SessionStopReq = V2G_SESSION_STOP_MSG"
| "request_msg _ = V2G_UNKNOWN_MSG"

definition cable_check_passed :: "din_CableCheckResType \<Rightarrow> bool" where
  "cable_check_passed res \<longleftrightarrow> cc_EVSEProcessing res = EVSEProcessing_Finished \<and>
     EVSEIsolationStatus_isUsed (cc_DC_EVSEStatus res) \<and>
     EVSEIsolationStatus (cc_DC_EVSEStatus res) \<in> {isolation_Valid, isolation_Warning} \<and>
     EVSEStatusCode (cc_DC_EVSEStatus res) = EVSE_Ready"

text \<open>The milestone that an exchange of a request and an accepting response passes.\<close>

fun passed :: "din_request \<times> din_response \<Rightarrow> milestone set" where
  "passed (_, SessionSetupRes r) = (if ss_ResponseCode r < din_responseCodeType_FAILED then {SessionEstablished} else {})"
| "passed (_, ServicePaymentSelectionRes code) = (if code < din_responseCodeType_FAILED then {ServiceSelected} else {})"
| "passed (_, ContractAuthenticationRes r) =
     (if ca_ResponseCode r < din_responseCodeType_FAILED \<and> ca_EVSEProcessing r = EVSEProcessing_Finished
      then {Authorized} else {})"
| "passed (_, ChargeParameterDiscoveryRes r) =
     (if cpr_ResponseCode r < din_responseCodeType_FAILED \<and> cpr_EVSEProcessing r = EVSEProcessing_Finished
      then {ParametersAgreed} else {})"
| "passed (_, CableCheckRes r) =
     (if cc_ResponseCode r < din_responseCodeType_FAILED \<and> cable_check_passed r then {CableChecked} else {})"
| "passed (_, PreChargeRes r) = (if pcr_ResponseCode r < din_responseCodeType_FAILED then {PreCharged} else {})"
| "passed (PowerDeliveryReq q, PowerDeliveryRes r) =
     (if pdr_ResponseCode r < din_responseCodeType_FAILED \<and> ReadyToChargeState q = 1 \<and>
         EVSEStatusCode (pdr_DC_EVSEStatus r) = EVSE_Ready
      then {PowerDelivered} else {})"
| "passed _ = {}"

text \<open>What must have been passed before a message is accepted.\<close>

fun needs :: "V2gMsgTypeId \<Rightarrow> milestone set" where
  "needs V2G_SERVICE_DISCOVERY_MSG = {SessionEstablished}"
| "needs V2G_PAYMENT_SERVICE_SELECTION_MSG = {SessionEstablished}"
| "needs V2G_AUTHORIZATION_MSG = {SessionEstablished, ServiceSelected}"
| "needs V2G_CHARGE_PARAMETER_DISCOVERY_MSG = {SessionEstablished, ServiceSelected, Authorized}"
| "needs V2G_CABLE_CHECK_MSG = {SessionEstablished, ServiceSelected, Authorized, ParametersAgreed}"
| "needs V2G_PRE_CHARGE_MSG = {SessionEstablished, ServiceSelected, Authorized, ParametersAgreed, CableChecked}"
| "needs V2G_POWER_DELIVERY_MSG =
     {SessionEstablished, ServiceSelected, Authorized, ParametersAgreed, CableChecked, PreCharged}"
| "needs V2G_CURRENT_DEMAND_MSG =
     {SessionEstablished, ServiceSelected, Authorized, ParametersAgreed, CableChecked, PreCharged, PowerDelivered}"
| "needs V2G_WELDING_DETECTION_MSG =
     {SessionEstablished, ServiceSelected, Authorized, ParametersAgreed, CableChecked, PreCharged}"
| "needs V2G_SESSION_STOP_MSG = {SessionEstablished}"
| "needs _ = {}"

definition stage :: "nat \<Rightarrow> milestone set" where
  "stage s = [{}, needs V2G_SERVICE_DISCOVERY_MSG, needs V2G_PAYMENT_SERVICE_SELECTION_MSG,
     needs V2G_AUTHORIZATION_MSG, needs V2G_CHARGE_PARAMETER_DISCOVERY_MSG, needs V2G_CABLE_CHECK_MSG,
     needs V2G_PRE_CHARGE_MSG, needs V2G_POWER_DELIVERY_MSG, needs V2G_CURRENT_DEMAND_MSG,
     needs V2G_CURRENT_DEMAND_MSG, needs V2G_WELDING_DETECTION_MSG, needs V2G_CABLE_CHECK_MSG, {}] ! s"

lemma din_state_cases:
  "s \<le> (12::nat) \<Longrightarrow> s = 0 \<or> s = 1 \<or> s = 2 \<or> s = 3 \<or> s = 4 \<or> s = 5 \<or> s = 6 \<or> s = 7 \<or> s = 8 \<or> s = 9 \<or>
     s = 10 \<or> s = 11 \<or> s = 12"
  by presburger

lemma stage_simps [simp]:
  "stage 0 = {}" "stage (Suc 0) = needs V2G_SERVICE_DISCOVERY_MSG" "stage 2 = needs V2G_PAYMENT_SERVICE_SELECTION_MSG"
  "stage 3 = needs V2G_AUTHORIZATION_MSG" "stage 4 = needs V2G_CHARGE_PARAMETER_DISCOVERY_MSG"
  "stage 5 = needs V2G_CABLE_CHECK_MSG" "stage 6 = needs V2G_PRE_CHARGE_MSG" "stage 7 = needs V2G_POWER_DELIVERY_MSG"
  "stage 8 = needs V2G_CURRENT_DEMAND_MSG" "stage 9 = needs V2G_CURRENT_DEMAND_MSG"
  "stage 10 = needs V2G_WELDING_DETECTION_MSG" "stage 11 = needs V2G_CABLE_CHECK_MSG" "stage 12 = {}"
  by (simp_all add: stage_def)

lemma in_sequence_stage:
  assumes "s \<le> 12" and "din_validate_state s m = din_responseCodeType_OK"
  shows "needs m \<subseteq> stage s"
  using din_state_cases [OF assms(1)] assms(2)
  by (elim disjE; cases m; simp add: din_validate_state_table [simplified])

section \<open>One exchange\<close>

text \<open>What a handler owes to the check of its response code.\<close>

definition checked :: "v2g_context \<Rightarrow> v2g_event \<Rightarrow> din_responseCodeType \<Rightarrow> v2g_context \<Rightarrow> bool" where
  "checked c event code c' \<longleftrightarrow>
     event \<in> {V2G_EVENT_NO_EVENT, V2G_EVENT_SEND_AND_TERMINATE, V2G_EVENT_TERMINATE_CONNECTION} \<and>
     (event \<noteq> V2G_EVENT_TERMINATE_CONNECTION \<and> code < din_responseCodeType_FAILED \<longrightarrow> \<not> is_connection_terminated c) \<and>
     terminate_connection_on_failed_response c' = terminate_connection_on_failed_response c \<and>
     (terminate_connection_on_failed_response c \<and> event = V2G_EVENT_NO_EVENT \<longrightarrow>
        \<not> is_connection_terminated c \<and> code < din_responseCodeType_FAILED) \<and>
     (\<not> is_connection_terminated c \<and> code < din_responseCodeType_FAILED \<longrightarrow> in_sequence c)"

lemma validate_checked:
  "din_validate_response_code code c = (event, code', c') \<Longrightarrow> checked c event code' c'"
proof (cases "is_connection_terminated c")
  case False
  assume "din_validate_response_code code c = (event, code', c')"
  then show ?thesis
    by (auto simp: din_validate_response_code_verdict [OF False] checked_def verdict_ok_iff not_le False split: if_splits)
qed (simp add: checked_def din_validate_response_code_def)

lemma checked_state [simp]: "checked c event code (c'\<lparr>state := s\<rparr>) = checked c event code c'"
  by (simp add: checked_def)

lemma checked_control: "control a = control b \<Longrightarrow> checked a event code c' = checked b event code c'"
  using control_fields [of a b] by (simp add: checked_def in_sequence_def)

lemma checked_evse_data [simp]: "checked (c\<lparr>evse_data := d\<rparr>) event code c' = checked c event code c'"
  by (simp add: checked_def in_sequence_def)

lemma checked_session [simp]: "checked (c\<lparr>session := d\<rparr>) event code c' = checked c event code c'"
  by (simp add: checked_def in_sequence_def)

lemma checked_power_delivery_switch:
  "checked (din_power_delivery_switch r c) event code c' = checked c event code c'"
  by (simp add: din_power_delivery_switch_def Let_def checked_control [OF control_publish])

lemmas checked_publications = checked_control [OF control_publish] checked_control [OF control_publish_when]
  checked_control [OF control_publish_DIN_DcEvStatus]
  checked_control [OF control_publish_din_charge_parameter_discovery_req]
  checked_control [OF control_publish_din_power_delivery_req]
  checked_control [OF control_publish_din_precharge_req]
  checked_control [OF control_publish_din_current_demand_req]
  checked_power_delivery_switch

lemma session_setup_checked:
  "handle_din_session_setup rnd now e c = (event, res, c') \<Longrightarrow>
     checked c event (ss_ResponseCode res) c' \<and> state c' = WAIT_FOR_SERVICEDISCOVERY"
  by (auto simp: handle_din_session_setup_def Let_def checked_publications
      dest!: validate_checked split: prod.splits if_splits)

lemma service_discovery_checked:
  "handle_din_service_discovery c = (event, res, c') \<Longrightarrow>
     checked c event (sd_ResponseCode res) c' \<and> state c' = WAIT_FOR_PAYMENTSERVICESELECTION"
  by (auto simp: handle_din_service_discovery_def Let_def checked_publications
      dest!: validate_checked split: prod.splits if_splits)

lemma service_payment_selection_checked:
  "handle_din_service_payment_selection r c = (event, code, c') \<Longrightarrow>
     checked c event code c' \<and> state c' = WAIT_FOR_AUTHORIZATION"
  by (auto simp: handle_din_service_payment_selection_def Let_def
      dest!: validate_checked split: prod.splits)

lemma contract_authentication_checked:
  "handle_din_contract_authentication c = (event, res, c') \<Longrightarrow>
     checked c event (ca_ResponseCode res) c' \<and>
     state c' = (if ca_EVSEProcessing res = EVSEProcessing_Finished then WAIT_FOR_CHARGEPARAMETERDISCOVERY
                 else WAIT_FOR_AUTHORIZATION)"
  by (auto simp: handle_din_contract_authentication_def din_processing_def Let_def
      dest!: validate_checked split: prod.splits)

lemma charge_parameter_checked:
  "handle_din_charge_parameter r c = (event, res, c') \<Longrightarrow>
     checked c event (cpr_ResponseCode res) c' \<and>
     state c' \<in> (if cpr_EVSEProcessing res = EVSEProcessing_Finished then {WAIT_FOR_SESSIONSTOP, WAIT_FOR_CABLECHECK}
                 else {WAIT_FOR_CHARGEPARAMETERDISCOVERY})"
  by (auto simp: handle_din_charge_parameter_def Let_def checked_publications
      dest!: validate_checked split: prod.splits if_splits)

lemma cable_check_checked:
  "handle_din_cable_check s c = (event, res, c') \<Longrightarrow>
     checked c event (cc_ResponseCode res) c' \<and>
     state c' = (if cable_check_passed res then WAIT_FOR_PRECHARGE else WAIT_FOR_CABLECHECK)"
  unfolding handle_din_cable_check_def Let_def cable_check_passed_def
  by (auto simp: checked_publications simp del: if_split dest!: validate_checked split: prod.splits)

lemma pre_charge_checked:
  "handle_din_pre_charge r c = (event, res, c') \<Longrightarrow>
     checked c event (pcr_ResponseCode res) c' \<and> state c' = WAIT_FOR_PRECHARGE_POWERDELIVERY"
  by (auto simp: handle_din_pre_charge_def Let_def checked_publications
      dest!: validate_checked split: prod.splits)

lemma current_demand_checked:
  "handle_din_current_demand r c = (event, res, c') \<Longrightarrow>
     checked c event (cdr_ResponseCode res) c' \<and> state c' = WAIT_FOR_CURRENTDEMAND_POWERDELIVERY"
  by (auto simp: handle_din_current_demand_def Let_def checked_publications
      dest!: validate_checked split: prod.splits)

lemma welding_detection_checked:
  "handle_din_welding_detection s c = (event, res, c') \<Longrightarrow>
     checked c event (wd_ResponseCode res) c' \<and> state c' = WAIT_FOR_WELDINGDETECTION_SESSIONSTOP"
  by (auto simp: handle_din_welding_detection_def Let_def checked_publications
      dest!: validate_checked split: prod.splits)

lemma power_delivery_checked:
  assumes "handle_din_power_delivery r c = (event, res, c')"
  shows "checked c event (pdr_ResponseCode res) c' \<and>
    state c' \<in> {WAIT_FOR_CURRENTDEMAND, WAIT_FOR_WELDINGDETECTION_SESSIONSTOP} \<and>
    (state c' = WAIT_FOR_CURRENTDEMAND \<and> \<not> is_connection_terminated c \<and>
     pdr_ResponseCode res < din_responseCodeType_FAILED \<longrightarrow>
       ReadyToChargeState r = 1 \<and> EVSEStatusCode (pdr_DC_EVSEStatus res) = EVSE_Ready)"
proof -
  define c0 where "c0 = din_power_delivery_switch r (publish_din_power_delivery_req r c)"
  define status where "status = din_evse_status (din_phase_status PHASE_CHARGE c0) c0"
  define code where "code = (if ReadyToChargeState r = 1 \<and> EVSEStatusCode status \<noteq> EVSE_Ready
    then din_responseCodeType_FAILED_PowerDeliveryNotApplied
    else if ChargingProfile_isUsed r \<and> ChargingProfile_SAScheduleTupleID r \<noteq> SASCHEDULETUPLEID
    then din_responseCodeType_FAILED_TariffSelectionInvalid else din_responseCodeType_OK)"
  obtain e1 code1 c1 where val: "din_validate_response_code code c0 = (e1, code1, c1)"
    by (cases "din_validate_response_code code c0")
  have chk: "checked c e1 code1 c1"
    using validate_checked [OF val] by (simp add: c0_def checked_publications)
  have live: "is_connection_terminated c0 = is_connection_terminated c"
    by (simp add: c0_def din_power_delivery_switch_def Let_def)
  have ready: "EVSEStatusCode status = EVSE_Ready"
    if "\<not> is_connection_terminated c" "code1 < din_responseCodeType_FAILED" "ReadyToChargeState r = 1"
    using that val live by (auto simp: din_validate_response_code_verdict verdict_ok_iff code_def not_less split: if_splits)
  show ?thesis
    using assms chk ready val
    by (auto simp: handle_din_power_delivery_def Let_def c0_def [symmetric] status_def [symmetric] code_def [symmetric]
        split: if_splits) (auto simp: checked_def)
qed

lemma session_stop_event:
  "handle_din_session_stop conn = (event, code, conn') \<Longrightarrow>
     event = V2G_EVENT_SEND_AND_TERMINATE \<and> state (ctx conn') = WAIT_FOR_TERMINATED_SESSION \<and>
     (\<not> is_connection_terminated (ctx conn) \<and> code < din_responseCodeType_FAILED \<longrightarrow> in_sequence (ctx conn))"
  by (auto simp: handle_din_session_stop_def checked_def dest!: validate_checked split: prod.splits)

lemma checked_current:
  "checked (c\<lparr>current_v2g_msg := m\<rparr>) event code c' \<Longrightarrow> \<not> is_connection_terminated c \<Longrightarrow>
     code < din_responseCodeType_FAILED \<Longrightarrow> din_validate_state (state c) m = din_responseCodeType_OK"
  by (simp add: checked_def in_sequence_def)

lemma checked_charging_started:
  "checked ((publish e c)\<lparr>session := d, current_v2g_msg := m\<rparr>) event code c' =
   checked (c\<lparr>current_v2g_msg := m\<rparr>) event code c'"
  by (simp add: checked_def in_sequence_def)

lemma dispatch_checked:
  assumes "din_dispatch rnd now conn req = (event, Some res, conn')" and "req \<noteq> SessionStopReq"
  shows "checked ((ctx conn)\<lparr>current_v2g_msg := request_msg req\<rparr>) event (din_response_code res) (ctx conn')"
  using assms
  by (cases req)
     (auto simp: din_dispatch_def with_ctx_def ignore_msg_def Let_def checked_publications checked_charging_started
        dest!: session_setup_checked service_discovery_checked service_payment_selection_checked
          contract_authentication_checked charge_parameter_checked cable_check_checked pre_charge_checked
          power_delivery_checked current_demand_checked welding_detection_checked
        split: prod.splits if_splits)

lemma dispatch_session_stop:
  assumes "din_dispatch rnd now conn req = (event, Some res, conn')" and "req = SessionStopReq"
    and "\<not> is_connection_terminated (ctx conn)" and "din_response_code res < din_responseCodeType_FAILED"
  shows "din_validate_state (state (ctx conn)) (request_msg req) = din_responseCodeType_OK"
  using assms
  by (auto simp: din_dispatch_def Let_def in_sequence_def split: prod.splits dest!: session_stop_event)

lemma dispatch_stage:
  assumes "din_dispatch rnd now conn req = (event, Some res, conn')"
    and "\<not> is_connection_terminated (ctx conn)" and "din_response_code res < din_responseCodeType_FAILED"
  shows "state (ctx conn') \<le> 12 \<and> stage (state (ctx conn')) \<subseteq> needs (request_msg req) \<union> passed (req, res)"
  using assms
  by (cases req)
     (auto simp: din_dispatch_def with_ctx_def ignore_msg_def Let_def
        dest!: session_setup_checked service_discovery_checked service_payment_selection_checked
          contract_authentication_checked charge_parameter_checked cable_check_checked pre_charge_checked
          power_delivery_checked current_demand_checked welding_detection_checked session_stop_event
        split: prod.splits if_splits)

section \<open>Runs of a session\<close>

text \<open>
  A run lists the exchanges of a connection that stays open. Between two exchanges other parts
  of the charger may change anything in the context but the state of the session, which they
  may only reset, and the configuration.
\<close>

inductive din_run :: "(din_request \<times> din_response) list \<Rightarrow> v2g_connection \<Rightarrow> bool" where
  start: "state (ctx conn) = 0 \<Longrightarrow> terminate_connection_on_failed_response (ctx conn) \<Longrightarrow> din_run [] conn"
| environment: "din_run tr conn \<Longrightarrow>
    terminate_connection_on_failed_response (ctx conn') = terminate_connection_on_failed_response (ctx conn) \<Longrightarrow>
    state (ctx conn') = state (ctx conn) \<or> state (ctx conn') = 0 \<Longrightarrow> din_run tr conn'"
| exchange: "din_run tr conn \<Longrightarrow> din_handle_request rnd now conn doc = (V2G_EVENT_NO_EVENT, out, conn') \<Longrightarrow>
    out_body out = Some res \<Longrightarrow> din_run (tr @ [(in_body doc, res)]) conn'"
| ignored: "din_run tr conn \<Longrightarrow> din_handle_request rnd now conn doc = (V2G_EVENT_IGNORE_MSG, out, conn') \<Longrightarrow>
    din_run tr conn'"

definition passed_in :: "(din_request \<times> din_response) list \<Rightarrow> milestone set" where
  "passed_in tr = (\<Union>x \<in> set tr. passed x)"

lemma passed_in_snoc [simp]: "passed_in (tr @ [x]) = passed_in tr \<union> passed x"
  by (auto simp: passed_in_def)

definition with_received :: "v2g_connection \<Rightarrow> din_in_document \<Rightarrow> v2g_connection" where
  "with_received conn doc = conn\<lparr>ctx := (ctx conn)\<lparr>ev_data := (ev_data (ctx conn))
     \<lparr>received_session_id := v2g_session_id_from_exi (in_SessionID_bytes doc)\<rparr>\<rparr>\<rparr>"

lemma with_received_simps [simp]:
  "state (ctx (with_received conn doc)) = state (ctx conn)"
  "is_connection_terminated (ctx (with_received conn doc)) = is_connection_terminated (ctx conn)"
  "terminate_connection_on_failed_response (ctx (with_received conn doc)) =
     terminate_connection_on_failed_response (ctx conn)"
  by (simp_all add: with_received_def)

lemma din_handle_request_dispatch:
  assumes "din_handle_request rnd now conn doc = (event, out, conn')"
  obtains conn1 where "din_dispatch rnd now (with_received conn doc) (in_body doc) = (event, out_body out, conn1)"
    and "state (ctx conn') = state (ctx conn1)"
    and "terminate_connection_on_failed_response (ctx conn') = terminate_connection_on_failed_response (ctx conn1)"
  using assms that
  by (auto simp: din_handle_request_def with_received_def Let_def split: prod.splits if_splits)

lemma dispatch_ignored:
  assumes "din_dispatch rnd now conn req = (V2G_EVENT_IGNORE_MSG, body, conn')"
  shows "state (ctx conn') = state (ctx conn) \<and>
    terminate_connection_on_failed_response (ctx conn') = terminate_connection_on_failed_response (ctx conn)"
proof (cases "body = None")
  case True
  then show ?thesis
    using assms by (cases req) (auto simp: din_dispatch_def with_ctx_def ignore_msg_def Let_def split: prod.splits)
next
  case False
  then obtain res where "din_dispatch rnd now conn req = (V2G_EVENT_IGNORE_MSG, Some res, conn')"
    using assms by auto
  moreover from this have "req \<noteq> SessionStopReq"
    by (auto simp: din_dispatch_def Let_def split: prod.splits dest: session_stop_event)
  ultimately show ?thesis
    using dispatch_checked by (fastforce simp: checked_def)
qed

lemma accepted_in_sequence:
  assumes "din_handle_request rnd now conn doc = (event, out, conn')" and "out_body out = Some res"
    and "\<not> is_connection_terminated (ctx conn)" and "din_response_code res < din_responseCodeType_FAILED"
  shows "din_validate_state (state (ctx conn)) (request_msg (in_body doc)) = din_responseCodeType_OK"
proof -
  obtain conn1 where d: "din_dispatch rnd now (with_received conn doc) (in_body doc) = (event, Some res, conn1)"
    using assms(1,2) by (metis din_handle_request_dispatch)
  show ?thesis
    using checked_current [OF dispatch_checked [OF d]] dispatch_session_stop [OF d] assms(3,4)
    by (cases "in_body doc = SessionStopReq") auto
qed

lemma din_run_invariant:
  assumes "din_run tr conn"
  shows "terminate_connection_on_failed_response (ctx conn) \<and> state (ctx conn) \<le> 12 \<and>
    stage (state (ctx conn)) \<subseteq> passed_in tr"
  using assms
proof induction
  case (exchange tr conn rnd now doc out conn' res)
  from exchange.hyps(2) obtain conn1
    where d: "din_dispatch rnd now (with_received conn doc) (in_body doc) = (V2G_EVENT_NO_EVENT, Some res, conn1)"
      and s: "state (ctx conn') = state (ctx conn1)"
      and t: "terminate_connection_on_failed_response (ctx conn') = terminate_connection_on_failed_response (ctx conn1)"
    using exchange.hyps(3) by (metis din_handle_request_dispatch)
  have "in_body doc \<noteq> SessionStopReq"
    using d by (auto simp: din_dispatch_def Let_def split: prod.splits dest: session_stop_event)
  note chk = dispatch_checked [OF d this]
  have ok: "\<not> is_connection_terminated (ctx conn)" "din_response_code res < din_responseCodeType_FAILED"
    using chk exchange.IH by (auto simp: checked_def)
  have "needs (request_msg (in_body doc)) \<subseteq> stage (state (ctx conn))"
    using in_sequence_stage checked_current [OF chk] ok exchange.IH by simp
  with dispatch_stage [OF d] ok exchange.IH chk s t show ?case
    by (auto simp: checked_def)
next
  case (ignored tr conn rnd now doc out conn')
  from ignored.hyps(2) obtain conn1
    where "din_dispatch rnd now (with_received conn doc) (in_body doc) = (V2G_EVENT_IGNORE_MSG, out_body out, conn1)"
      and "state (ctx conn') = state (ctx conn1)"
      and "terminate_connection_on_failed_response (ctx conn') = terminate_connection_on_failed_response (ctx conn1)"
    by (rule din_handle_request_dispatch)
  then show ?case
    using ignored.IH dispatch_ignored by auto
qed auto

section \<open>A session that charges\<close>

text \<open>A charger that is ready to charge, and requests that fit to it.\<close>

definition ready :: "v2g_context \<Rightarrow> bool" where
  "ready c \<longleftrightarrow> \<not> is_connection_terminated c \<and> \<not> stop_hlc c \<and> \<not> intl_emergency_shutdown c \<and> \<not> error_shutdown c \<and>
     \<not> is_fake_dc c \<and> \<not> authorization_rejected (session c) \<and>
     evse_processing (evse_data c) PHASE_AUTH = 0 \<and> evse_processing (evse_data c) PHASE_PARAMETER = 0 \<and>
     evse_processing (evse_data c) PHASE_ISOLATION = 0 \<and>
     evse_isolation_status_is_used (evse_data c) \<and> evse_isolation_status (evse_data c) = isolation_Valid \<and>
     evse_status_code (evse_data c) PHASE_CHARGE = EVSE_Ready \<and>
     charge_service_EnergyTransferMode0 (evse_data c) \<in> {EnergyTransfer_DC_core, EnergyTransfer_DC_extended} \<and>
     no_energy_pause (evse_data c) = NoPause"

definition fits :: "evse_v2g_data \<Rightarrow> din_request \<Rightarrow> bool" where
  "fits d req = (case req of
     ServicePaymentSelectionReq r \<Rightarrow> SelectedPaymentOption r = din_paymentOptionType_ExternalPayment \<and>
       SelectedService_ServiceIDs r = [charge_service_ServiceID d]
   | ChargeParameterDiscoveryReq r \<Rightarrow>
       EVRequestedEnergyTransferType r = charge_service_EnergyTransferMode0 d \<and>
       \<not> AC_EVChargeParameter_isUsed r \<and>
       din_physical (cp_EVMaximumCurrentLimit (DC_EVChargeParameter r)) >
         din_physical (load_din_physical_value (pc_min_current (power_capabilities d))) \<and>
       din_physical (cp_EVMaximumVoltageLimit (DC_EVChargeParameter r)) >
         din_physical (load_din_physical_value (pc_min_voltage (power_capabilities d)))
   | PowerDeliveryReq r \<Rightarrow> ReadyToChargeState r = 1 \<and>
       (ChargingProfile_isUsed r \<longrightarrow> ChargingProfile_SAScheduleTupleID r = SASCHEDULETUPLEID)
   | _ \<Rightarrow> True)"

fun next_state :: "din_request \<Rightarrow> nat" where
  "next_state (SessionSetupReq _) = WAIT_FOR_SERVICEDISCOVERY"
| "next_state ServiceDiscoveryReq = WAIT_FOR_PAYMENTSERVICESELECTION"
| "next_state (ServicePaymentSelectionReq _) = WAIT_FOR_AUTHORIZATION"
| "next_state ContractAuthenticationReq = WAIT_FOR_CHARGEPARAMETERDISCOVERY"
| "next_state (ChargeParameterDiscoveryReq _) = WAIT_FOR_CABLECHECK"
| "next_state (CableCheckReq _) = WAIT_FOR_PRECHARGE"
| "next_state (PreChargeReq _) = WAIT_FOR_PRECHARGE_POWERDELIVERY"
| "next_state (PowerDeliveryReq _) = WAIT_FOR_CURRENTDEMAND"
| "next_state (CurrentDemandReq _) = WAIT_FOR_CURRENTDEMAND_POWERDELIVERY"
| "next_state _ = WAIT_FOR_TERMINATED_SESSION"

definition progresses :: "u64 \<Rightarrow> din_request \<Rightarrow> v2g_context \<Rightarrow> v2g_event \<times> din_response \<times> v2g_context \<Rightarrow> bool" where
  "progresses rnd req c = (\<lambda>(event, res, c').
     event = V2G_EVENT_NO_EVENT \<and> din_response_code res < din_responseCodeType_FAILED \<and> ready c' \<and>
     state c' = next_state req \<and> current_v2g_msg c' = request_msg req \<and>
     evse_data c' = (evse_data c)\<lparr>session_id := (if (\<exists>e. req = SessionSetupReq e) \<and> session_id (evse_data c) = 0 then rnd
                                                else session_id (evse_data c))\<rparr>)"

lemma ready_control: "control a = control b \<Longrightarrow> ready a = ready b"
  using control_fields [of a b] by (simp add: ready_def)

lemma ready_verdict:
  assumes "ready c" and "in_sequence c" and "known_session c"
  shows "din_validate_response_code code c =
    (if code \<ge> din_responseCodeType_FAILED \<and> terminate_connection_on_failed_response c
       then V2G_EVENT_SEND_AND_TERMINATE else V2G_EVENT_NO_EVENT, code, c)"
  using assms
  by (simp add: din_validate_response_code_verdict ready_def verdict_def shutdown_refused_def)

lemmas ready_rules = ready_verdict in_sequence_def known_session_def ready_def

lemma ready_session_setup:
  assumes "ready c" "din_validate_state (state c) V2G_SESSION_SETUP_MSG = din_responseCodeType_OK"
    and "handle_din_session_setup rnd now e (c\<lparr>current_v2g_msg := V2G_SESSION_SETUP_MSG\<rparr>) = (event, res, c')"
  shows "progresses rnd (SessionSetupReq e) c (event, SessionSetupRes res, c')"
  using assms by (auto simp: handle_din_session_setup_def progresses_def Let_def ready_rules)

lemma ready_service_discovery:
  assumes "ready c" "din_validate_state (state c) V2G_SERVICE_DISCOVERY_MSG = din_responseCodeType_OK"
    and "session_id (evse_data c) = received_session_id (ev_data c)"
    and "handle_din_service_discovery (c\<lparr>current_v2g_msg := V2G_SERVICE_DISCOVERY_MSG\<rparr>) = (event, res, c')"
  shows "progresses rnd (ServiceDiscoveryReq) c (event, ServiceDiscoveryRes res, c')"
  using assms by (auto simp: handle_din_service_discovery_def progresses_def Let_def ready_rules)

lemma ready_service_payment_selection:
  assumes "ready c" "din_validate_state (state c) V2G_PAYMENT_SERVICE_SELECTION_MSG = din_responseCodeType_OK"
    and "session_id (evse_data c) = received_session_id (ev_data c)" and "fits (evse_data c) (ServicePaymentSelectionReq r)"
    and "handle_din_service_payment_selection r (c\<lparr>current_v2g_msg := V2G_PAYMENT_SERVICE_SELECTION_MSG\<rparr>) = (event, res, c')"
  shows "progresses rnd (ServicePaymentSelectionReq r) c (event, ServicePaymentSelectionRes res, c')"
  using assms by (auto simp: handle_din_service_payment_selection_def fits_def progresses_def Let_def ready_rules)

lemma ready_contract_authentication:
  assumes "ready c" "din_validate_state (state c) V2G_AUTHORIZATION_MSG = din_responseCodeType_OK"
    and "session_id (evse_data c) = received_session_id (ev_data c)"
    and "handle_din_contract_authentication
           (publish_when b publish_require_auth_eim (c\<lparr>current_v2g_msg := V2G_AUTHORIZATION_MSG\<rparr>)) = (event, res, c')"
  shows "progresses rnd (ContractAuthenticationReq) c (event, ContractAuthenticationRes res, c')"
  using assms by (auto simp: handle_din_contract_authentication_def din_processing_def progresses_def Let_def ready_rules)

lemma ready_charge_parameter:
  assumes "ready c" "din_validate_state (state c) V2G_CHARGE_PARAMETER_DISCOVERY_MSG = din_responseCodeType_OK"
    and "session_id (evse_data c) = received_session_id (ev_data c)" and "fits (evse_data c) (ChargeParameterDiscoveryReq r)"
    and "handle_din_charge_parameter r (c\<lparr>current_v2g_msg := V2G_CHARGE_PARAMETER_DISCOVERY_MSG\<rparr>) = (event, res, c')"
  shows "progresses rnd (ChargeParameterDiscoveryReq r) c (event, ChargeParameterDiscoveryRes res, c')"
  using assms by (auto simp: handle_din_charge_parameter_def din_charge_parameter_checks_def
      din_charge_parameter_response_def din_processing_def fits_def not_le [symmetric] progresses_def Let_def ready_rules)

lemma ready_cable_check:
  assumes "ready c" "din_validate_state (state c) V2G_CABLE_CHECK_MSG = din_responseCodeType_OK"
    and "session_id (evse_data c) = received_session_id (ev_data c)"
    and "handle_din_cable_check s
           (publish_when b publish_start_cable_check (c\<lparr>current_v2g_msg := V2G_CABLE_CHECK_MSG\<rparr>)) = (event, res, c')"
  shows "progresses rnd (CableCheckReq s) c (event, CableCheckRes res, c')"
  using assms by (auto simp: handle_din_cable_check_def din_processing_def din_evse_status_def progresses_def Let_def ready_rules)

lemma ready_pre_charge:
  assumes "ready c" "din_validate_state (state c) V2G_PRE_CHARGE_MSG = din_responseCodeType_OK"
    and "session_id (evse_data c) = received_session_id (ev_data c)"
    and "handle_din_pre_charge r
           (publish_when b publish_start_pre_charge (c\<lparr>current_v2g_msg := V2G_PRE_CHARGE_MSG\<rparr>)) = (event, res, c')"
  shows "progresses rnd (PreChargeReq r) c (event, PreChargeRes res, c')"
  using assms by (auto simp: handle_din_pre_charge_def progresses_def Let_def ready_rules)

lemma ready_power_delivery:
  assumes "ready c" "din_validate_state (state c) V2G_POWER_DELIVERY_MSG = din_responseCodeType_OK"
    and "session_id (evse_data c) = received_session_id (ev_data c)" and "fits (evse_data c) (PowerDeliveryReq r)"
    and "last_v2g_msg c \<noteq> V2G_CURRENT_DEMAND_MSG"
    and "handle_din_power_delivery r (c\<lparr>current_v2g_msg := V2G_POWER_DELIVERY_MSG\<rparr>) = (event, res, c')"
  shows "progresses rnd (PowerDeliveryReq r) c (event, PowerDeliveryRes res, c')"
  using assms by (auto simp: handle_din_power_delivery_def din_power_delivery_switch_def
      din_evse_status_def din_phase_status_def fits_def progresses_def Let_def ready_rules)

lemma ready_current_demand:
  assumes "ready c" "din_validate_state (state c) V2G_CURRENT_DEMAND_MSG = din_responseCodeType_OK"
    and "session_id (evse_data c) = received_session_id (ev_data c)"
    and "handle_din_current_demand r
           ((if b then (publish publish_current_demand_started c)\<lparr>session := (session c)\<lparr>is_charging := True\<rparr>\<rparr> else c)
              \<lparr>current_v2g_msg := V2G_CURRENT_DEMAND_MSG\<rparr>) = (event, res, c')"
  shows "progresses rnd (CurrentDemandReq r) c (event, CurrentDemandRes res, c')"
  using assms by (cases b) (auto simp: handle_din_current_demand_def progresses_def Let_def ready_rules)

lemmas ready_handlers = ready_session_setup ready_service_discovery ready_service_payment_selection
  ready_contract_authentication ready_charge_parameter ready_cable_check ready_pre_charge ready_power_delivery
  ready_current_demand

lemma ready_dispatch:
  assumes "ready (ctx conn)" and "fits (evse_data (ctx conn)) req" and "next_state req \<noteq> WAIT_FOR_TERMINATED_SESSION"
    and "din_validate_state (state (ctx conn)) (request_msg req) = din_responseCodeType_OK"
    and "\<not> (request_msg req = V2G_POWER_DELIVERY_MSG \<and> last_v2g_msg (ctx conn) = V2G_CURRENT_DEMAND_MSG)"
    and "request_msg req = V2G_SESSION_SETUP_MSG \<or>
         session_id (evse_data (ctx conn)) = received_session_id (ev_data (ctx conn))"
  shows "\<exists>res c'. din_dispatch rnd now conn req = (V2G_EVENT_NO_EVENT, Some res, conn\<lparr>ctx := c'\<rparr>) \<and>
    progresses rnd req (ctx conn) (V2G_EVENT_NO_EVENT, res, c')"
proof -
  obtain event body conn' where d: "din_dispatch rnd now conn req = (event, body, conn')"
    by (cases "din_dispatch rnd now conn req")
  have "\<exists>res c'. body = Some res \<and> conn' = conn\<lparr>ctx := c'\<rparr> \<and> progresses rnd req (ctx conn) (event, res, c')"
    using assms d
    by (cases req)
       (auto simp: din_dispatch_def with_ctx_def Let_def split: prod.splits
          intro!: ready_handlers simp del: if_split)
  then show ?thesis
    using d by (auto simp: progresses_def)
qed

text \<open>The exchanges of a connection with a list of requests, as long as it stays open.\<close>

fun din_exchanges ::
    "u64 \<Rightarrow> int \<Rightarrow> v2g_connection \<Rightarrow> din_in_document list \<Rightarrow>
     ((din_request \<times> din_response) list \<times> v2g_connection) option" where
  "din_exchanges rnd now conn [] = Some ([], conn)"
| "din_exchanges rnd now conn (doc # docs) =
     (case din_handle_request rnd now conn doc of
        (V2G_EVENT_NO_EVENT, out, conn') \<Rightarrow>
          (case out_body out of
             None \<Rightarrow> None
           | Some res \<Rightarrow> map_option (apfst ((#) (in_body doc, res))) (din_exchanges rnd now conn' docs))
      | _ \<Rightarrow> None)"

lemma din_exchanges_run:
  assumes "din_run tr conn" and "din_exchanges rnd now conn docs = Some (tr', conn')"
  shows "din_run (tr @ tr') conn'"
  using assms
proof (induction docs arbitrary: tr conn tr')
  case (Cons doc docs)
  then show ?case
    by (fastforce split: prod.splits v2g_event.splits option.splits dest: exchange)
qed simp

lemma ready_exchange:
  assumes "ready (ctx conn)" and "fits (evse_data (ctx conn)) req" and "next_state req \<noteq> WAIT_FOR_TERMINATED_SESSION"
    and "din_validate_state (state (ctx conn)) (request_msg req) = din_responseCodeType_OK"
    and "\<not> (request_msg req = V2G_POWER_DELIVERY_MSG \<and> last_v2g_msg (ctx conn) = V2G_CURRENT_DEMAND_MSG)"
    and "request_msg req = V2G_SESSION_SETUP_MSG \<or> session_id (evse_data (ctx conn)) = v2g_session_id_from_exi sid"
  obtains out res conn' where
    "din_handle_request rnd now conn \<lparr>in_SessionID_bytes = sid, in_body = req\<rparr> = (V2G_EVENT_NO_EVENT, out, conn')"
    "out_body out = Some res" "din_response_code res < din_responseCodeType_FAILED" "ready (ctx conn')"
    "state (ctx conn') = next_state req" "last_v2g_msg (ctx conn') = request_msg req"
    "conn' = conn\<lparr>ctx := ctx conn'\<rparr>"
    "evse_data (ctx conn') = (evse_data (ctx conn))\<lparr>session_id :=
       (if (\<exists>e. req = SessionSetupReq e) \<and> session_id (evse_data (ctx conn)) = 0 then rnd
        else session_id (evse_data (ctx conn)))\<rparr>"
proof -
  define conn0 where "conn0 = with_received conn \<lparr>in_SessionID_bytes = sid, in_body = req\<rparr>"
  have "ready (ctx conn0)" "fits (evse_data (ctx conn0)) req"
    using assms by (simp_all add: conn0_def with_received_def ready_def fits_def cong: din_request.case_cong)
  then obtain res c' where d: "din_dispatch rnd now conn0 req = (V2G_EVENT_NO_EVENT, Some res, conn0\<lparr>ctx := c'\<rparr>)"
      and p: "progresses rnd req (ctx conn0) (V2G_EVENT_NO_EVENT, res, c')"
    using ready_dispatch [of conn0 req rnd now] assms by (auto simp: conn0_def with_received_def)
  show thesis
    by (rule that) (use d p in \<open>auto simp: din_handle_request_def with_received_def conn0_def progresses_def ready_def Let_def\<close>)
qed

text \<open>Sequences of requests that follow the protocol, from the message and the state before them.\<close>

fun follows :: "V2gMsgTypeId \<Rightarrow> nat \<Rightarrow> din_request list \<Rightarrow> bool" where
  "follows prev s [] = True"
| "follows prev s (req # reqs) \<longleftrightarrow>
     din_validate_state s (request_msg req) = din_responseCodeType_OK \<and>
     next_state req \<noteq> WAIT_FOR_TERMINATED_SESSION \<and>
     \<not> (request_msg req = V2G_POWER_DELIVERY_MSG \<and> prev = V2G_CURRENT_DEMAND_MSG) \<and>
     follows (request_msg req) (next_state req) reqs"

abbreviation din_document :: "byte list \<Rightarrow> din_request \<Rightarrow> din_in_document" where
  "din_document sid req \<equiv> \<lparr>in_SessionID_bytes = sid, in_body = req\<rparr>"

lemma next_state_pos: "next_state req \<noteq> 0 \<and> next_state req \<le> 12"
  by (cases req) auto

lemma only_first_setup:
  assumes "s \<noteq> 0" "s \<le> 12" "din_validate_state s (request_msg req) = din_responseCodeType_OK"
  shows "\<not> (\<exists>e. req = SessionSetupReq e)"
  using din_state_cases [OF assms(2)] assms(1,3) by (auto simp: din_validate_state_table [simplified])

lemma fits_session_id [simp]: "fits (d\<lparr>session_id := i\<rparr>) = fits d"
  by (rule ext) (simp add: fits_def cong: din_request.case_cong)

definition accepted :: "din_request list \<Rightarrow> (din_request \<times> din_response) list \<Rightarrow> bool" where
  "accepted reqs tr \<longleftrightarrow> map fst tr = reqs \<and>
     (\<forall>x \<in> set tr. din_response_code (snd x) < din_responseCodeType_FAILED)"

lemma ready_follows:
  assumes "ready (ctx conn)" "state (ctx conn) \<noteq> 0" "state (ctx conn) \<le> 12"
    and "session_id (evse_data (ctx conn)) = v2g_session_id_from_exi sid"
    and "list_all (fits (evse_data (ctx conn))) reqs"
    and "follows (last_v2g_msg (ctx conn)) (state (ctx conn)) reqs"
  shows "\<exists>tr conn'. din_exchanges rnd now conn (map (din_document sid) reqs) = Some (tr, conn') \<and>
    accepted reqs tr \<and> ready (ctx conn') \<and>
    (reqs \<noteq> [] \<longrightarrow> session_id (evse_data (ctx conn')) = v2g_session_id_from_exi sid \<and>
       state (ctx conn') = next_state (last reqs))"
  using assms
proof (induction reqs arbitrary: conn)
  case (Cons req reqs)
  have no_setup: "\<not> (\<exists>e. req = SessionSetupReq e)"
    using Cons.prems only_first_setup by simp
  obtain out res conn' where h: "din_handle_request rnd now conn (din_document sid req) = (V2G_EVENT_NO_EVENT, out, conn')"
      "out_body out = Some res" "din_response_code res < din_responseCodeType_FAILED"
    and r: "ready (ctx conn')" "state (ctx conn') = next_state req" "last_v2g_msg (ctx conn') = request_msg req"
    and d: "evse_data (ctx conn') = (evse_data (ctx conn))\<lparr>session_id :=
       (if (\<exists>e. req = SessionSetupReq e) \<and> session_id (evse_data (ctx conn)) = 0 then rnd
        else session_id (evse_data (ctx conn)))\<rparr>"
    by (rule ready_exchange [of conn req sid rnd now]) (use Cons.prems in auto)
  have "\<exists>tr conn''. din_exchanges rnd now conn' (map (din_document sid) reqs) = Some (tr, conn'') \<and>
      accepted reqs tr \<and> ready (ctx conn'') \<and>
      (reqs \<noteq> [] \<longrightarrow> session_id (evse_data (ctx conn'')) = v2g_session_id_from_exi sid \<and>
         state (ctx conn'') = next_state (last reqs))"
    using Cons.prems r d no_setup next_state_pos by (intro Cons.IH) auto
  then show ?case
    using h r d no_setup Cons.prems by (auto simp: accepted_def)
qed (simp add: accepted_def)

lemma ready_session:
  assumes "ready (ctx conn)" and "state (ctx conn) = 0"
    and "v2g_session_id_from_exi sid =
      (if session_id (evse_data (ctx conn)) = 0 then rnd else session_id (evse_data (ctx conn)))"
    and "list_all (fits (evse_data (ctx conn))) reqs" and "follows (last_v2g_msg (ctx conn)) 0 reqs"
  shows "\<exists>tr conn'. din_exchanges rnd now conn (map (din_document sid) reqs) = Some (tr, conn') \<and>
    accepted reqs tr \<and> ready (ctx conn') \<and>
    (reqs \<noteq> [] \<longrightarrow> session_id (evse_data (ctx conn')) = v2g_session_id_from_exi sid \<and>
       state (ctx conn') = next_state (last reqs))"
proof (cases reqs)
  case (Cons req rest)
  then obtain e where req: "req = SessionSetupReq e"
    using assms(5) by (cases req) (auto simp: din_validate_state_table)
  obtain out res conn' where h: "din_handle_request rnd now conn (din_document sid req) = (V2G_EVENT_NO_EVENT, out, conn')"
      "out_body out = Some res" "din_response_code res < din_responseCodeType_FAILED"
    and r: "ready (ctx conn')" "state (ctx conn') = next_state req" "last_v2g_msg (ctx conn') = request_msg req"
    and d: "evse_data (ctx conn') = (evse_data (ctx conn))\<lparr>session_id :=
       (if (\<exists>e. req = SessionSetupReq e) \<and> session_id (evse_data (ctx conn)) = 0 then rnd
        else session_id (evse_data (ctx conn)))\<rparr>"
    by (rule ready_exchange [of conn req sid rnd now]) (use assms Cons req in auto)
  have "\<exists>tr conn''. din_exchanges rnd now conn' (map (din_document sid) rest) = Some (tr, conn'') \<and>
      accepted rest tr \<and> ready (ctx conn'') \<and>
      (rest \<noteq> [] \<longrightarrow> session_id (evse_data (ctx conn'')) = v2g_session_id_from_exi sid \<and>
         state (ctx conn'') = next_state (last rest))"
    using assms Cons req r d by (intro ready_follows) auto
  then show ?thesis
    using h r d req assms Cons by (auto simp: accepted_def split: if_splits)
qed (simp add: accepted_def assms)

subsection \<open>The session identifier\<close>

lemma bit_little_endian:
  "bit (foldr (\<lambda>b (w :: u64). push_bit 8 w OR ucast (b :: byte)) bs 0) n \<longleftrightarrow>
     n < 64 \<and> n div 8 < length bs \<and> bit (bs ! (n div 8)) (n mod 8)"
proof (induction bs arbitrary: n)
  case (Cons b bs)
  show ?case
  proof (cases "n < 8")
    case True
    then show ?thesis
      by (simp add: bit_simps)
  next
    case False
    then have "n div 8 = Suc ((n - 8) div 8)" "n mod 8 = (n - 8) mod 8"
      by (simp_all add: le_div_geq le_mod_geq)
    moreover have "\<not> bit b n"
      using False bit_imp_le_length [of b n] by auto
    ultimately show ?thesis
      using False by (auto simp: bit_simps Cons.IH)
  qed
qed simp

lemma session_id_bytes_roundtrip: "v2g_session_id_from_exi (session_id_bytes w) = w"
proof (rule bit_word_eqI)
  fix n :: nat
  assume "n < LENGTH(64)"
  then have "n div 8 < 8" "n < 64" "8 * (n div 8) + n mod 8 = n"
    by simp_all
  then show "bit (v2g_session_id_from_exi (session_id_bytes w)) n = bit w n"
    by (simp add: v2g_session_id_from_exi_def session_id_bytes_def bit_little_endian bit_simps
        less_mult_imp_div_less)
qed

lemma validate_evse_data:
  "din_validate_response_code code c = (event, code', c') \<Longrightarrow> evse_data c' = evse_data c"
  by (auto simp: din_validate_response_code_def Let_def split: if_splits)

lemma power_delivery_switch_session_id [simp]:
  "session_id (evse_data (din_power_delivery_switch r c)) = session_id (evse_data c)"
  by (simp add: din_power_delivery_switch_def Let_def)

lemma dispatch_session_id:
  assumes "din_dispatch rnd now conn req = (event, body, conn')"
  shows "session_id (evse_data (ctx conn')) =
    (if request_msg req = V2G_SESSION_SETUP_MSG \<and> session_id (evse_data (ctx conn)) = 0 then rnd
     else session_id (evse_data (ctx conn)))"
  using assms
  by (cases req)
     (auto simp: din_dispatch_def with_ctx_def ignore_msg_def handle_din_session_setup_def handle_din_service_discovery_def
        handle_din_service_payment_selection_def handle_din_contract_authentication_def handle_din_charge_parameter_def
        handle_din_cable_check_def handle_din_pre_charge_def handle_din_power_delivery_def handle_din_current_demand_def
        handle_din_welding_detection_def handle_din_session_stop_def Let_def
        dest!: validate_evse_data split: prod.splits if_splits)

text \<open>A positive answer to anything but a session setup is given to the known session only.\<close>

lemma validate_known_session:
  "din_validate_response_code code c = (event, code', c') \<Longrightarrow> \<not> is_connection_terminated c \<Longrightarrow>
     code' < din_responseCodeType_FAILED \<Longrightarrow> known_session c"
  using verdict_ok_iff [of code c] by (auto simp: din_validate_response_code_verdict)

lemma power_delivery_known_session:
  assumes "handle_din_power_delivery r c = (event, res, c')" and "\<not> is_connection_terminated c"
    and "pdr_ResponseCode res < din_responseCodeType_FAILED"
  shows "known_session c"
proof -
  obtain code1 e1 code2 c1 where v:
      "din_validate_response_code code1 (din_power_delivery_switch r (publish_din_power_delivery_req r c)) = (e1, code2, c1)"
      "code2 < din_responseCodeType_FAILED"
    using assms by (auto simp: handle_din_power_delivery_def Let_def split: prod.splits if_splits)
  have "known_session (din_power_delivery_switch r (publish_din_power_delivery_req r c))"
    by (rule validate_known_session [OF v(1) _ v(2)]) (simp add: din_power_delivery_switch_def Let_def assms(2))
  then show ?thesis
    by (simp add: known_session_def din_power_delivery_switch_def Let_def split: if_splits)
qed

lemma dispatch_known_session:
  assumes "din_dispatch rnd now conn req = (event, Some res, conn')" and "\<not> is_connection_terminated (ctx conn)"
    and "din_response_code res < din_responseCodeType_FAILED" and "request_msg req \<noteq> V2G_SESSION_SETUP_MSG"
  shows "received_session_id (ev_data (ctx conn)) = session_id (evse_data (ctx conn))"
  using assms
  by (cases req)
     (auto simp: din_dispatch_def with_ctx_def ignore_msg_def handle_din_service_discovery_def
        handle_din_service_payment_selection_def handle_din_contract_authentication_def handle_din_charge_parameter_def
        handle_din_cable_check_def handle_din_pre_charge_def handle_din_current_demand_def
        handle_din_welding_detection_def handle_din_session_stop_def known_session_def Let_def
        dest!: validate_known_session power_delivery_known_session split: prod.splits if_splits)

section \<open>An example\<close>

definition example_value :: "int \<Rightarrow> din_PhysicalValueType" where
  "example_value v = \<lparr>din_Multiplier = 0, din_Unit = din_unit_A, din_Unit_isUsed = True, din_Value = v\<rparr>"

definition example_status :: din_DC_EVStatusType where
  "example_status = \<lparr>EVReady = 1, EVErrorCode = 0, EVRESSSOC = 50\<rparr>"

definition example_power_delivery :: din_PowerDeliveryReqType where
  "example_power_delivery =
     \<lparr>ReadyToChargeState = 1, ChargingProfile_SAScheduleTupleID = 1, ChargingProfile_isUsed = True,
      DC_EVPowerDeliveryParameter = \<lparr>pd_DC_EVStatus = example_status, pd_BulkChargingComplete = 0,
        pd_BulkChargingComplete_isUsed = False, pd_ChargingComplete = 0\<rparr>,
      DC_EVPowerDeliveryParameter_isUsed = True\<rparr>"

definition example_current_demand :: din_CurrentDemandReqType where
  "example_current_demand =
     \<lparr>cd_DC_EVStatus = example_status, cd_EVTargetCurrent = example_value 100,
      cd_EVMaximumVoltageLimit = example_value 450, cd_EVMaximumVoltageLimit_isUsed = True,
      cd_EVMaximumCurrentLimit = example_value 200, cd_EVMaximumCurrentLimit_isUsed = True,
      cd_EVMaximumPowerLimit = example_value 0, cd_EVMaximumPowerLimit_isUsed = False,
      cd_BulkChargingComplete = 0, cd_BulkChargingComplete_isUsed = False, cd_ChargingComplete = 0,
      cd_RemainingTimeToFullSoC = example_value 0, cd_RemainingTimeToFullSoC_isUsed = False,
      cd_RemainingTimeToBulkSoC = example_value 0, cd_RemainingTimeToBulkSoC_isUsed = False,
      cd_EVTargetVoltage = example_value 400\<rparr>"

definition example_requests :: "din_request list" where
  "example_requests =
     [SessionSetupReq [1, 2, 3, 4, 5, 6], ServiceDiscoveryReq,
      ServicePaymentSelectionReq \<lparr>SelectedPaymentOption = din_paymentOptionType_ExternalPayment,
        SelectedService_ServiceIDs = [1]\<rparr>,
      ContractAuthenticationReq,
      ChargeParameterDiscoveryReq
        \<lparr>EVRequestedEnergyTransferType = EnergyTransfer_DC_extended, AC_EVChargeParameter_isUsed = False,
         DC_EVChargeParameter = \<lparr>cp_DC_EVStatus = example_status, cp_EVMaximumCurrentLimit = example_value 200,
           cp_EVMaximumPowerLimit = example_value 0, cp_EVMaximumPowerLimit_isUsed = False,
           cp_EVMaximumVoltageLimit = example_value 450, EVEnergyCapacity = example_value 0,
           EVEnergyCapacity_isUsed = False, EVEnergyRequest = example_value 0, EVEnergyRequest_isUsed = False,
           FullSOC = 0, FullSOC_isUsed = False, BulkSOC = 0, BulkSOC_isUsed = False\<rparr>,
         DC_EVChargeParameter_isUsed = True\<rparr>,
      CableCheckReq example_status,
      PreChargeReq \<lparr>pc_DC_EVStatus = example_status, pc_EVTargetVoltage = example_value 400,
        pc_EVTargetCurrent = example_value 1\<rparr>,
      PowerDeliveryReq example_power_delivery,
      CurrentDemandReq example_current_demand]"

lemma example_ready:
  "ready (ctx (example_connection m))" "state (ctx (example_connection m)) = 0"
  "terminate_connection_on_failed_response (ctx (example_connection m))"
  "session_id (evse_data (ctx (example_connection m))) = 0"
  "last_v2g_msg (ctx (example_connection m)) = V2G_UNKNOWN_MSG"
  by (simp_all add: example_connection_def example_context_def ready_def Let_def)

lemma example_requests_fit:
  "list_all (fits (evse_data (ctx (example_connection m)))) example_requests"
  "follows V2G_UNKNOWN_MSG 0 example_requests"
  by (simp_all add: example_requests_def example_connection_def example_context_def fits_def din_physical_def
      calc_physical_value_def example_value_def load_din_physical_value_def init_physical_value_def
      example_power_delivery_def SASCHEDULETUPLEID_def din_validate_state_table [simplified] Let_def)

lemma example_session_id: "v2g_session_id_from_exi [7] = 7"
  by (simp add: v2g_session_id_from_exi_def)

lemma butlast_fits: "list_all P xs \<Longrightarrow> list_all P (butlast xs)"
  by (auto simp: list_all_iff dest: in_set_butlastD)

lemma butlast_follows: "follows prev s reqs \<Longrightarrow> follows prev s (butlast reqs)"
  by (induction reqs arbitrary: prev s) auto

lemma example_reaches_current_demand:
  "\<exists>tr conn. din_run tr conn \<and> ready (ctx conn) \<and> state (ctx conn) = WAIT_FOR_CURRENTDEMAND \<and>
     session_id (evse_data (ctx conn)) = v2g_session_id_from_exi [7]"
proof -
  have "\<exists>tr conn'. din_exchanges 7 0 (example_connection 1) (map (din_document [7]) (butlast example_requests)) = Some (tr, conn') \<and>
      accepted (butlast example_requests) tr \<and> ready (ctx conn') \<and>
      (butlast example_requests \<noteq> [] \<longrightarrow> session_id (evse_data (ctx conn')) = v2g_session_id_from_exi [7] \<and>
        state (ctx conn') = next_state (last (butlast example_requests)))"
    by (rule ready_session)
       (simp_all add: example_ready example_requests_fit(1) [THEN butlast_fits] example_requests_fit(2) [THEN butlast_follows]
          example_session_id)
  moreover have "butlast example_requests \<noteq> []" "next_state (last (butlast example_requests)) = WAIT_FOR_CURRENTDEMAND"
    by (simp_all add: example_requests_def)
  ultimately show ?thesis
    using din_exchanges_run [OF start, of "example_connection 1"] by (simp add: example_ready) blast
qed

lemma refused_power_delivery:
  assumes "ready (ctx conn)" and "\<not> terminate_connection_on_failed_response (ctx conn)"
    and "state (ctx conn) = WAIT_FOR_SERVICEDISCOVERY" and "last_v2g_msg (ctx conn) = V2G_SESSION_SETUP_MSG"
    and "session_id (evse_data (ctx conn)) = v2g_session_id_from_exi sid" and "ReadyToChargeState pd = 1"
  shows "\<exists>out conn1 r.
    din_handle_request rnd now conn (din_document sid (PowerDeliveryReq pd)) = (V2G_EVENT_NO_EVENT, out, conn1) \<and>
    out_body out = Some (PowerDeliveryRes r) \<and> pdr_ResponseCode r = din_responseCodeType_FAILED_SequenceError \<and>
    ready (ctx conn1) \<and> state (ctx conn1) = WAIT_FOR_CURRENTDEMAND \<and>
    last_v2g_msg (ctx conn1) = V2G_POWER_DELIVERY_MSG \<and>
    session_id (evse_data (ctx conn1)) = v2g_session_id_from_exi sid"
  using assms
  by (simp add: din_handle_request_def din_dispatch_def with_ctx_def handle_din_power_delivery_def
      din_power_delivery_switch_def din_validate_response_code_verdict ready_def verdict_def in_sequence_def
      known_session_def din_validate_state_table [simplified] Let_def)

lemma accepted_current_demand:
  assumes "ready (ctx conn)" and "state (ctx conn) = WAIT_FOR_CURRENTDEMAND"
    and "last_v2g_msg (ctx conn) = V2G_POWER_DELIVERY_MSG"
    and "session_id (evse_data (ctx conn)) = v2g_session_id_from_exi sid"
  shows "\<exists>out conn1 r.
    din_handle_request rnd now conn (din_document sid (CurrentDemandReq cd)) = (V2G_EVENT_NO_EVENT, out, conn1) \<and>
    out_body out = Some (CurrentDemandRes r) \<and> cdr_ResponseCode r = din_responseCodeType_OK \<and>
    is_charging (session (ctx conn1))"
  using assms
  by (simp add: din_handle_request_def din_dispatch_def with_ctx_def handle_din_current_demand_def
      din_validate_response_code_verdict ready_def verdict_def in_sequence_def shutdown_refused_def
      known_session_def din_validate_state_table [simplified] Let_def)

lemma validate_terminated [simp]:
  "is_connection_terminated (snd (snd (din_validate_response_code code c))) = is_connection_terminated c"
  by (simp add: din_validate_response_code_def Let_def)

lemma session_stop_request:
  "\<exists>out conn1 code. din_handle_request rnd now conn (din_document sid SessionStopReq) =
      (V2G_EVENT_SEND_AND_TERMINATE, out, conn1) \<and> out_body out = Some (SessionStopRes code) \<and>
      d_link_action conn1 = D_LINK_ACTION_TERMINATE \<and> state (ctx conn1) = WAIT_FOR_TERMINATED_SESSION \<and>
      is_connection_terminated (ctx conn1) = is_connection_terminated (ctx conn)"
  by (simp add: din_handle_request_def din_dispatch_def handle_din_session_stop_def Let_def case_prod_beta)

lemma service_discovery_answered:
  "\<exists>event out conn1 res. din_handle_request rnd now conn (din_document sid ServiceDiscoveryReq) = (event, out, conn1) \<and>
     out_body out = Some res"
  by (simp add: din_handle_request_def din_dispatch_def with_ctx_def Let_def case_prod_beta)

definition shutting_down :: "v2g_connection \<Rightarrow> byte list \<Rightarrow> bool" where
  "shutting_down conn sid \<longleftrightarrow> error_shutdown (ctx conn) \<and> \<not> is_connection_terminated (ctx conn) \<and>
     \<not> stop_hlc (ctx conn) \<and> \<not> intl_emergency_shutdown (ctx conn) \<and> state (ctx conn) = WAIT_FOR_CABLECHECK \<and>
     v2g_session_id_from_exi sid = session_id (evse_data (ctx conn))"

lemma cable_check_shutting_down:
  assumes "shutting_down conn sid"
  shows "\<exists>event out conn' r. din_handle_request rnd now conn (din_document sid (CableCheckReq s)) = (event, out, conn') \<and>
    out_body out = Some (CableCheckRes r) \<and> EVSEStatusCode (cc_DC_EVSEStatus r) = EVSE_EmergencyShutdown \<and>
    cc_ResponseCode r = (if error_shutdown_reported (ctx conn) then din_responseCodeType_FAILED else din_responseCodeType_OK) \<and>
    event = (if error_shutdown_reported (ctx conn) \<and> terminate_connection_on_failed_response (ctx conn)
             then V2G_EVENT_SEND_AND_TERMINATE else V2G_EVENT_NO_EVENT) \<and>
    shutting_down conn' sid \<and> error_shutdown_reported (ctx conn') \<and>
    terminate_connection_on_failed_response (ctx conn') = terminate_connection_on_failed_response (ctx conn)"
  using assms
  by (auto simp: shutting_down_def din_handle_request_def din_dispatch_def with_ctx_def handle_din_cable_check_def
      din_validate_response_code_verdict verdict_def in_sequence_def shutdown_refused_def known_session_def
      din_evse_status_def din_validate_state_table [simplified] Let_def)

section \<open>Properties\<close>

text \<open>
  C21: the order of the protocol is enforced. In every run of a connection that ends on
  failed responses, with any changes of the context by the rest of the charger in between, a
  request is only answered positively when everything that must precede it has been passed
  on this connection: current is only delivered after the session was set up, the service was
  selected, the authorization, the charge parameters and the cable check with a valid isolation
  were finished, the pre-charge was answered and the power delivery was confirmed by a ready
  charger.
\<close>

theorem din_sequence_enforced:
  assumes "din_run tr conn" and "\<not> is_connection_terminated (ctx conn)"
    and "din_handle_request rnd now conn doc = (event, out, conn')"
    and "out_body out = Some res" and "din_response_code res < din_responseCodeType_FAILED"
  shows "needs (request_msg (in_body doc)) \<subseteq> passed_in tr"
  using din_run_invariant [OF assms(1)] accepted_in_sequence [OF assms(3,4,2,5)] in_sequence_stage by blast

theorem din_sequence_enforced_witness:
  "\<exists>tr conn out conn' res. din_run tr conn \<and>
     din_handle_request 7 0 conn (din_document [7] (CurrentDemandReq example_current_demand)) =
       (V2G_EVENT_NO_EVENT, out, conn') \<and>
     out_body out = Some res \<and> din_response_code res < din_responseCodeType_FAILED \<and>
     needs V2G_CURRENT_DEMAND_MSG \<subseteq> passed_in tr"
proof -
  obtain tr conn where "din_run tr conn" "ready (ctx conn)" "state (ctx conn) = WAIT_FOR_CURRENTDEMAND"
    "session_id (evse_data (ctx conn)) = v2g_session_id_from_exi [7]"
    using example_reaches_current_demand by blast
  moreover from this obtain out res conn' where
    "din_handle_request 7 0 conn (din_document [7] (CurrentDemandReq example_current_demand)) =
       (V2G_EVENT_NO_EVENT, out, conn')"
    "out_body out = Some res" "din_response_code res < din_responseCodeType_FAILED"
    by (rule_tac ready_exchange [of conn "CurrentDemandReq example_current_demand" "[7]" 7 0])
       (auto simp: fits_def din_validate_state_table)
  ultimately show ?thesis
    using din_sequence_enforced [of tr conn 7 0 "din_document [7] (CurrentDemandReq example_current_demand)"]
    by (fastforce simp: ready_def)
qed





text \<open>
  C24: the session identifier holds for the whole session. A response carries the identifier of the
  charger in a form that the vehicle can return; only a session setup without a previous
  session draws a new one; and every other request is only answered positively when it
  carries that identifier.
\<close>

theorem din_session_identified:
  assumes "din_handle_request rnd now conn doc = (event, out, conn')" and "event \<noteq> V2G_EVENT_IGNORE_MSG"
  shows "v2g_session_id_from_exi (out_SessionID_bytes out) = session_id (evse_data (ctx conn')) \<and>
    session_id (evse_data (ctx conn')) =
      (if request_msg (in_body doc) = V2G_SESSION_SETUP_MSG \<and> session_id (evse_data (ctx conn)) = 0 then rnd
       else session_id (evse_data (ctx conn))) \<and>
    (\<forall>res. out_body out = Some res \<and> din_response_code res < din_responseCodeType_FAILED \<and>
       \<not> is_connection_terminated (ctx conn) \<and> request_msg (in_body doc) \<noteq> V2G_SESSION_SETUP_MSG \<longrightarrow>
       v2g_session_id_from_exi (in_SessionID_bytes doc) = session_id (evse_data (ctx conn)))"
proof -
  obtain body conn1 where d: "din_dispatch rnd now (with_received conn doc) (in_body doc) = (event, body, conn1)"
    and out: "out_body out = body" "out_SessionID_bytes out = session_id_bytes (session_id (evse_data (ctx conn1)))"
      "session_id (evse_data (ctx conn')) = session_id (evse_data (ctx conn1))"
    using assms by (auto simp: din_handle_request_def with_received_def Let_def split: prod.splits if_splits)
  have "session_id (evse_data (ctx conn1)) =
      (if request_msg (in_body doc) = V2G_SESSION_SETUP_MSG \<and> session_id (evse_data (ctx conn)) = 0 then rnd
       else session_id (evse_data (ctx conn)))"
    using dispatch_session_id [OF d] by (simp add: with_received_def)
  then show ?thesis
    using out d dispatch_known_session [of rnd now "with_received conn doc" "in_body doc" event _ conn1]
    by (auto simp: session_id_bytes_roundtrip with_received_def)
qed

theorem din_session_identified_witness:
  "\<exists>out conn'. din_handle_request 7 0 (example_connection 1) (din_document [] (SessionSetupReq [1])) =
      (V2G_EVENT_NO_EVENT, out, conn') \<and> v2g_session_id_from_exi (out_SessionID_bytes out) = 7"
proof -
  obtain out res conn' where h: "din_handle_request 7 0 (example_connection 1) (din_document [] (SessionSetupReq [1])) =
      (V2G_EVENT_NO_EVENT, out, conn')"
    by (rule ready_exchange [of "example_connection 1" "SessionSetupReq [1]" "[]" 7 0])
       (auto simp: example_ready fits_def din_validate_state_table)
  show ?thesis
    using din_session_identified [OF h] h by (simp add: example_ready)
qed

text \<open>
  C25: an error of the charger is announced before it is enforced. While the charger shuts down
  because of an error, the first cable check is answered positively with the status code for
  an emergency shutdown, so that the vehicle can react; the next one is refused. The cable
  check is not left in either case.
\<close>

theorem din_error_shutdown_announced:
  assumes "error_shutdown (ctx conn)" and "\<not> error_shutdown_reported (ctx conn)"
    and "\<not> is_connection_terminated (ctx conn)" and "\<not> stop_hlc (ctx conn)" and "\<not> intl_emergency_shutdown (ctx conn)"
    and "state (ctx conn) = WAIT_FOR_CABLECHECK"
    and "v2g_session_id_from_exi sid = session_id (evse_data (ctx conn))"
  shows "\<exists>out conn1 r out' conn2 r'.
    din_handle_request rnd now conn (din_document sid (CableCheckReq s)) = (V2G_EVENT_NO_EVENT, out, conn1) \<and>
    out_body out = Some (CableCheckRes r) \<and> cc_ResponseCode r = din_responseCodeType_OK \<and>
    EVSEStatusCode (cc_DC_EVSEStatus r) = EVSE_EmergencyShutdown \<and> state (ctx conn1) = WAIT_FOR_CABLECHECK \<and>
    din_handle_request rnd now conn1 (din_document sid (CableCheckReq s')) =
      (if terminate_connection_on_failed_response (ctx conn) then V2G_EVENT_SEND_AND_TERMINATE else V2G_EVENT_NO_EVENT,
       out', conn2) \<and>
    out_body out' = Some (CableCheckRes r') \<and> cc_ResponseCode r' = din_responseCodeType_FAILED \<and>
    state (ctx conn2) = WAIT_FOR_CABLECHECK"
proof -
  obtain out conn1 r where first:
    "din_handle_request rnd now conn (din_document sid (CableCheckReq s)) = (V2G_EVENT_NO_EVENT, out, conn1)"
    "out_body out = Some (CableCheckRes r)" "cc_ResponseCode r = din_responseCodeType_OK"
    "EVSEStatusCode (cc_DC_EVSEStatus r) = EVSE_EmergencyShutdown"
    and shut: "shutting_down conn1 sid" and c1: "error_shutdown_reported (ctx conn1)"
      "terminate_connection_on_failed_response (ctx conn1) = terminate_connection_on_failed_response (ctx conn)"
    using cable_check_shutting_down [of conn sid rnd now s] assms by (auto simp: shutting_down_def)
  then show ?thesis
    using cable_check_shutting_down [OF shut, of rnd now s'] by (auto simp: shutting_down_def)
qed

theorem din_error_shutdown_announced_witness:
  "let conn = (example_connection 1)\<lparr>ctx := (ctx (example_connection 1))\<lparr>
         error_shutdown := True, state := WAIT_FOR_CABLECHECK\<rparr>\<rparr>
   in \<exists>out conn1 r out' conn2 r'.
    din_handle_request 7 0 conn (din_document [] (CableCheckReq example_status)) = (V2G_EVENT_NO_EVENT, out, conn1) \<and>
    out_body out = Some (CableCheckRes r) \<and> cc_ResponseCode r = din_responseCodeType_OK \<and>
    EVSEStatusCode (cc_DC_EVSEStatus r) = EVSE_EmergencyShutdown \<and> state (ctx conn1) = WAIT_FOR_CABLECHECK \<and>
    din_handle_request 7 0 conn1 (din_document [] (CableCheckReq example_status)) =
      (if terminate_connection_on_failed_response (ctx conn) then V2G_EVENT_SEND_AND_TERMINATE else V2G_EVENT_NO_EVENT,
       out', conn2) \<and>
    out_body out' = Some (CableCheckRes r') \<and> cc_ResponseCode r' = din_responseCodeType_FAILED \<and>
    state (ctx conn2) = WAIT_FOR_CABLECHECK"
  unfolding Let_def
  by (rule din_error_shutdown_announced)
     (simp_all add: example_connection_def example_context_def v2g_session_id_from_exi_def Let_def)



end
