(* ===== verification/V2G_Connection.thy ===== *)
theory V2G_Connection
  imports V2G_Handshake Din_Session
begin

text \<open>
  A V2G connection from its start to its end (\<^verbatim>\<open>v2g_handle_connection\<close> of
  \<^verbatim>\<open>modules/EVSE/EvseV2G/v2g_server.cpp\<close>): the handshake phase and then the loop that receives a
  request, decodes it, handles it and sends the response. The lemmas carry the guarantees of
  the DIN 70121 session over to the connection.
\<close>

section \<open>The parts around the connection\<close>

text \<open>
  What the connection calls and what happens around it: the result of writing to the socket,
  the EXI codec of DIN 70121 messages (return value, document, stream), the handling of an ISO
  15118-2 request (decoding and \<^verbatim>\<open>iso_handle_request\<close>) and the encoding of its response, the changes that
  the rest of the charger makes to the context while the \<open>k\<close>-th request is awaited, and the
  random numbers and the time that the handlers read.
\<close>

record 'iso v2g_parts =
  write_result :: "byte list \<Rightarrow> int"
  decode_din :: "exi_bitstream_t \<Rightarrow> int \<times> din_in_document \<times> exi_bitstream_t"
  encode_din :: "exi_bitstream_t \<Rightarrow> din_out_document \<Rightarrow> int \<times> exi_bitstream_t"
  iso_request :: "v2g_connection \<Rightarrow> int \<times> v2g_event \<times> 'iso \<times> v2g_connection"
  encode_iso :: "exi_bitstream_t \<Rightarrow> 'iso \<Rightarrow> int \<times> exi_bitstream_t"
  context_change :: "nat \<Rightarrow> v2g_context \<Rightarrow> v2g_context"
  random_id :: "nat \<Rightarrow> u64"
  time_now :: "nat \<Rightarrow> int"

datatype 'iso exi_out =
    NoOut
  | DinOut din_out_document
  | IsoOut 'iso

text \<open>The DIN 70121 requests that were handled, with the event and the response.\<close>

type_synonym din_log = "(din_request \<times> v2g_event \<times> din_response option) list"

section \<open>One message\<close>

definition setup_for_next :: "v2g_connection \<Rightarrow> v2g_connection" where
  "setup_for_next conn =
     conn\<lparr>stream := (stream conn)\<lparr>data := (data (stream conn))[0 := 0], bit_count := 0, byte_pos := 0\<rparr>,
          payload_len := 0\<rparr>"

definition with_change :: "'iso v2g_parts \<Rightarrow> nat \<Rightarrow> v2g_connection \<Rightarrow> v2g_connection" where
  "with_change p k conn = conn\<lparr>ctx := context_change p k (ctx conn)\<rparr>"

text \<open>Decoding and handling; a protocol that is not supported ends the connection (\<^const>\<open>None\<close>).\<close>

definition v2g_handle_message ::
    "'iso v2g_parts \<Rightarrow> v2g_protocol \<Rightarrow> nat \<Rightarrow> v2g_connection \<Rightarrow>
     (int \<times> v2g_event \<times> 'iso exi_out \<times> v2g_connection \<times> din_log) option" where
  "v2g_handle_message p proto k conn =
     (if proto = V2G_PROTO_DIN70121 \<or> proto = V2G_PROTO_ISO15118_2010 then
        (case decode_din p (stream conn) of (rv, doc, s) \<Rightarrow>
           let conn = conn\<lparr>stream := s\<rparr>
           in if rv \<noteq> 0 then Some (0, V2G_EVENT_IGNORE_MSG, NoOut, conn, [])
              else (case din_handle_request (random_id p k) (time_now p k) conn doc of (event, out, conn) \<Rightarrow>
                      Some (rv, event, DinOut out, conn, [(in_body doc, event, out_body out)])))
      else if proto = V2G_PROTO_ISO15118_2013 then
        (case iso_request p conn of (rv, event, out, conn) \<Rightarrow>
           if rv \<noteq> 0 then Some (0, V2G_EVENT_IGNORE_MSG, NoOut, conn, []) else Some (rv, event, IsoOut out, conn, []))
      else None)"

text \<open>Writing the header and sending; a response that ends the session is announced.\<close>

definition announce_session_end :: "v2g_event \<Rightarrow> v2g_connection \<Rightarrow> v2g_connection" where
  "announce_session_end event conn =
     (if session_stop_res_pending conn \<noteq> SESSION_STOP_NONE
      then conn\<lparr>ctx := publish (publish_session_stop_res_sent
                  (if session_stop_res_pending conn = SESSION_STOP_PAUSE then SESSION_STOP_PAUSE
                   else SESSION_STOP_TERMINATE)) (ctx conn),
               session_stop_res_pending := SESSION_STOP_NONE\<rparr>
      else if event = V2G_EVENT_SEND_AND_TERMINATE
      then conn\<lparr>ctx := publish publish_session_failed_termination (ctx conn)\<rparr>
      else conn)"

definition v2g_send ::
    "'iso v2g_parts \<Rightarrow> v2g_event \<Rightarrow> int \<Rightarrow> v2g_connection \<Rightarrow> int \<times> v2g_connection \<times> byte list list" where
  "v2g_send p event rv conn =
     (if rv \<noteq> 0 then (rv, conn, [])
      else (case v2g_outgoing_v2gtp (write_result p) conn of (rv, conn, out) \<Rightarrow>
              if rv = - 1 then (rv, conn, [out]) else (rv, announce_session_end event conn, [out])))"

definition reset_for_send :: "v2g_connection \<Rightarrow> v2g_connection" where
  "reset_for_send conn =
     conn\<lparr>stream := (stream conn)\<lparr>data := (data (stream conn))[0 := 0], bit_count := 0,
       byte_pos := V2GTP_HEADER_LENGTH, data_size := DEFAULT_BUFFER_SIZE\<rparr>\<rparr>"

definition v2g_encode ::
    "'iso v2g_parts \<Rightarrow> 'iso exi_out \<Rightarrow> int \<Rightarrow> v2g_connection \<Rightarrow> int \<times> v2g_connection" where
  "v2g_encode p out rv conn =
     (let conn = reset_for_send conn
      in case out of
           DinOut d \<Rightarrow> (case encode_din p (stream conn) d of (rv, s) \<Rightarrow> (rv, conn\<lparr>stream := s\<rparr>))
         | IsoOut d \<Rightarrow> (case encode_iso p (stream conn) d of (rv, s) \<Rightarrow> (rv, conn\<lparr>stream := s\<rparr>))
         | NoOut \<Rightarrow> (rv, conn))"

text \<open>The result is \<^verbatim>\<open>rv\<close>, whether the loop is to stop, the connection and what is sent.\<close>

definition v2g_respond ::
    "'iso v2g_parts \<Rightarrow> v2g_event \<Rightarrow> 'iso exi_out \<Rightarrow> int \<Rightarrow> v2g_connection \<Rightarrow>
     int \<times> bool \<times> v2g_connection \<times> byte list list" where
  "v2g_respond p event out rv conn = (case event of
       V2G_EVENT_SEND_AND_TERMINATE \<Rightarrow>
         (case v2g_encode p out rv conn of (rv, conn) \<Rightarrow>
            case v2g_send p event rv conn of (rv, conn, sent) \<Rightarrow> (rv, True, conn, sent))
     | V2G_EVENT_NO_EVENT \<Rightarrow>
         (case v2g_encode p out rv conn of (rv, conn) \<Rightarrow>
            case v2g_send p event rv conn of (rv, conn, sent) \<Rightarrow> (rv, False, conn, sent))
     | V2G_EVENT_SEND_RECV_EXI_MSG \<Rightarrow>
         (case v2g_send p event rv conn of (rv, conn, sent) \<Rightarrow> (rv, False, conn, sent))
     | V2G_EVENT_IGNORE_MSG \<Rightarrow> (rv, False, conn, [])
     | V2G_EVENT_TERMINATE_CONNECTION \<Rightarrow> (rv, True, conn, []))"

definition v2g_message_round ::
    "'iso v2g_parts \<Rightarrow> v2g_protocol \<Rightarrow> nat \<Rightarrow> v2g_connection \<Rightarrow>
     int \<times> bool \<times> v2g_connection \<times> din_log \<times> byte list list" where
  "v2g_message_round p proto k conn =
     (case v2g_handle_message p proto k (with_change p k conn) of
        None \<Rightarrow> (0, True, with_change p k conn, [], [])
      | Some (rv, event, out, conn, handled) \<Rightarrow>
          (case v2g_respond p event out rv conn of (rv, stop, conn, sent) \<Rightarrow> (rv, stop, conn, handled, sent)))"

section \<open>The connection\<close>

text \<open>What is left to receive: every event counts, and every byte.\<close>

fun event_weight :: "socket_event \<Rightarrow> nat" where
  "event_weight (Received bs) = Suc (length bs)"
| "event_weight _ = 1"

definition input_weight :: "socket_event list \<Rightarrow> nat" where
  "input_weight es = sum_list (map event_weight es)"

lemma connection_read_weight:
  assumes "connection_read es count acc = (rv, acc', es')"
  shows "input_weight es' + length acc' \<le> input_weight es + length acc"
  using assms
proof (induction es count acc rule: connection_read.induct)
  case (1 es count acc)
  show ?case
    using 1
    by (subst (asm) (5) connection_read.simps)
       (auto simp: input_weight_def Let_def split: if_splits list.splits socket_event.splits, fastforce+)
qed

lemma incoming_weight:
  assumes "v2g_incoming_v2gtp socket_reader conn es = (0, conn', es')"
  shows "input_weight es' < input_weight es"
proof -
  obtain r1 bs1 es1 where r1: "socket_reader es V2GTP_HEADER_LENGTH = (r1, bs1, es1)"
    by (cases "socket_reader es V2GTP_HEADER_LENGTH")
  obtain r2 bs2 n where r2: "socket_reader es1 n = (r2, bs2, es')" and "r1 = int V2GTP_HEADER_LENGTH"
    using assms r1 by (auto simp: v2g_incoming_v2gtp_def Let_def split: prod.splits if_splits sum.splits)
  moreover have "length bs1 = nat r1"
    using r1 calculation(2) connection_read_bound [of es V2GTP_HEADER_LENGTH "[]" r1 bs1 es1]
    by (auto simp: socket_reader_def)
  ultimately show ?thesis
    using connection_read_weight [of es V2GTP_HEADER_LENGTH "[]" r1 bs1 es1] connection_read_weight [of es1 n "[]" r2 bs2 es'] r1
    by (auto simp: socket_reader_def V2GTP_HEADER_LENGTH_def)
qed

text \<open>The loop; it ends because every request takes bytes from the input.\<close>

function v2g_message_loop ::
    "'iso v2g_parts \<Rightarrow> v2g_protocol \<Rightarrow> nat \<Rightarrow> v2g_connection \<Rightarrow> socket_event list \<Rightarrow>
     int \<times> v2g_connection \<times> din_log \<times> byte list list" where
  "v2g_message_loop p proto k conn es =
     (case v2g_incoming_v2gtp socket_reader (setup_for_next conn) es of (rv, conn, es') \<Rightarrow>
        if rv \<noteq> 0 then (rv, conn, [], [])
        else (case v2g_message_round p proto k conn of (rv, stop, conn, handled, sent) \<Rightarrow>
                if rv = 0 \<and> \<not> stop
                then (case v2g_message_loop p proto (Suc k) conn es' of (rv, conn, handled', sent') \<Rightarrow>
                        (rv, conn, handled @ handled', sent @ sent'))
                else (rv, conn, handled, sent)))"
  by pat_completeness auto
termination
  by (relation "measure (\<lambda>(p, proto, k, conn, es). input_weight es)") (auto dest!: incoming_weight [OF sym])

declare v2g_message_loop.simps [simp del]

definition v2g_close_connection :: "int \<Rightarrow> v2g_connection \<Rightarrow> int \<times> v2g_connection" where
  "v2g_close_connection rv conn =
     (if rv \<noteq> 0 then - 1 else 0,
      conn\<lparr>last_v2g_msg_at_disconnect := current_v2g_msg (ctx conn), ctx := v2g_ctx_init_charging_state True (ctx conn)\<rparr>)"

definition v2g_handle_connection ::
    "'iso v2g_parts \<Rightarrow> v2g_connection \<Rightarrow> socket_event list \<Rightarrow> int \<times> v2g_connection \<times> din_log \<times> byte list list" where
  "v2g_handle_connection p conn es =
     (let conn = conn\<lparr>ctx := v2g_ctx_init_charging_state False (ctx conn)\<rparr>
      in case v2g_handshake_phase socket_reader (write_result p) conn es of (rv, go_on, conn, sent, es) \<Rightarrow>
           let proto = selected_protocol (ctx conn);
               (rv, conn, handled, sent') =
                 (if go_on \<and> proto \<in> {V2G_PROTO_DIN70121, V2G_PROTO_ISO15118_2010, V2G_PROTO_ISO15118_2013}
                  then v2g_message_loop p proto 0 conn es else (rv, conn, [], []));
               (rv, conn) = v2g_close_connection rv conn
           in (rv, conn, handled, sent @ sent'))"

section \<open>The session behind the connection\<close>

text \<open>The changes from outside leave the configuration alone and reset the state at most.\<close>

definition benign_changes :: "'iso v2g_parts \<Rightarrow> bool" where
  "benign_changes p \<longleftrightarrow> (\<forall>k c.
     terminate_connection_on_failed_response (context_change p k c) = terminate_connection_on_failed_response c \<and>
     (state (context_change p k c) = state c \<or> state (context_change p k c) = 0))"

text \<open>The exchanges that kept the connection open.\<close>

definition exchanges :: "din_log \<Rightarrow> (din_request \<times> din_response) list" where
  "exchanges handled = concat (map (\<lambda>(req, event, res). case res of
     Some r \<Rightarrow> if event = V2G_EVENT_NO_EVENT then [(req, r)] else [] | None \<Rightarrow> []) handled)"

lemma exchanges_simps [simp]:
  "exchanges [] = []" "exchanges (xs @ ys) = exchanges xs @ exchanges ys"
  "exchanges [(req, V2G_EVENT_NO_EVENT, Some r)] = [(req, r)]"
  "event \<noteq> V2G_EVENT_NO_EVENT \<Longrightarrow> exchanges [(req, event, res)] = []"
  "exchanges [(req, event, None)] = []"
  by (auto simp: exchanges_def split: option.splits)

text \<open>Two connections that agree in what a run observes.\<close>

definition same_session :: "v2g_connection \<Rightarrow> v2g_connection \<Rightarrow> bool" where
  "same_session conn conn' \<longleftrightarrow> state (ctx conn') = state (ctx conn) \<and>
     terminate_connection_on_failed_response (ctx conn') = terminate_connection_on_failed_response (ctx conn)"

lemma din_run_same_session: "din_run tr conn \<Longrightarrow> same_session conn conn' \<Longrightarrow> din_run tr conn'"
  by (rule din_run.environment) (auto simp: same_session_def)

lemma din_run_change: "benign_changes p \<Longrightarrow> din_run tr conn \<Longrightarrow> din_run tr (with_change p k conn)"
  by (rule din_run.environment, assumption) (simp_all add: benign_changes_def with_change_def)

lemma incoming_ctx:
  "v2g_incoming_v2gtp rd conn io = (rv, conn', io') \<Longrightarrow> ctx conn' = ctx conn"
  by (auto simp: v2g_incoming_v2gtp_def Let_def split: prod.splits if_splits sum.splits)

lemma outgoing_ctx: "v2g_outgoing_v2gtp wr conn = (rv, conn', out) \<Longrightarrow> ctx conn' = ctx conn"
  by (auto simp: v2g_outgoing_v2gtp_def Let_def split: if_splits sum.splits)

lemma send_same_session: "v2g_send p event rv conn = (rv', conn', sent) \<Longrightarrow> same_session conn conn'"
  by (auto simp: v2g_send_def same_session_def announce_session_end_def dest!: outgoing_ctx
      split: prod.splits if_splits)

lemma encode_same_session: "v2g_encode p out rv conn = (rv', conn') \<Longrightarrow> same_session conn conn'"
  by (auto simp: v2g_encode_def same_session_def reset_for_send_def Let_def split: exi_out.splits prod.splits)

lemma same_session_trans: "same_session a b \<Longrightarrow> same_session b c \<Longrightarrow> same_session a c"
  by (simp add: same_session_def)

lemma respond_same_session:
  "v2g_respond p event out rv conn = (rv', stop, conn', sent) \<Longrightarrow> same_session conn conn'"
  by (auto simp: v2g_respond_def dest!: send_same_session encode_same_session intro: same_session_trans
      split: v2g_event.splits prod.splits) (simp_all add: same_session_def)

text \<open>What holds for a handled request, given the exchanges before it.\<close>

definition in_order :: "(din_request \<times> din_response) list \<Rightarrow> din_request \<times> v2g_event \<times> din_response option \<Rightarrow> bool" where
  "in_order tr = (\<lambda>(req, event, res). \<forall>r. res = Some r \<and> req \<noteq> SessionStopReq \<and>
     event \<in> {V2G_EVENT_NO_EVENT, V2G_EVENT_SEND_AND_TERMINATE} \<and> din_response_code r < din_responseCodeType_FAILED \<longrightarrow>
     needs (request_msg req) \<subseteq> passed_in tr)"

lemma request_in_order:
  assumes run: "din_run tr conn" and h: "din_handle_request rnd now conn doc = (event, out, conn')"
  shows "in_order tr (in_body doc, event, out_body out)"
    and "event \<noteq> V2G_EVENT_SEND_RECV_EXI_MSG"
    and "event = V2G_EVENT_NO_EVENT \<Longrightarrow> din_run (tr @ exchanges [(in_body doc, event, out_body out)]) conn'"
    and "event = V2G_EVENT_IGNORE_MSG \<Longrightarrow> din_run tr conn'"
proof -
  obtain conn1 where d: "din_dispatch rnd now (with_received conn doc) (in_body doc) = (event, out_body out, conn1)"
    using h by (rule din_handle_request_dispatch)
  have ev: "event \<in> {V2G_EVENT_NO_EVENT, V2G_EVENT_SEND_AND_TERMINATE, V2G_EVENT_TERMINATE_CONNECTION} \<and>
      (event \<noteq> V2G_EVENT_TERMINATE_CONNECTION \<and> din_response_code r < din_responseCodeType_FAILED \<and>
       in_body doc \<noteq> SessionStopReq \<longrightarrow> \<not> is_connection_terminated (ctx conn))"
    if "out_body out = Some r" for r
    using dispatch_checked [of rnd now "with_received conn doc" "in_body doc" event r conn1] d that
    by (cases "in_body doc = SessionStopReq")
       (auto simp: checked_def din_dispatch_def Let_def split: prod.splits dest: session_stop_event)
  have none: "event = V2G_EVENT_IGNORE_MSG" if "out_body out = None"
    using d that by (cases "in_body doc") (auto simp: din_dispatch_def with_ctx_def ignore_msg_def Let_def split: prod.splits)
  show "in_order tr (in_body doc, event, out_body out)"
    using ev accepted_in_sequence [OF h] din_run_invariant [OF run] in_sequence_stage
    unfolding in_order_def by blast
  show "event \<noteq> V2G_EVENT_SEND_RECV_EXI_MSG"
    using ev none by (cases "out_body out") auto
  show "din_run (tr @ exchanges [(in_body doc, event, out_body out)]) conn'" if "event = V2G_EVENT_NO_EVENT"
    using din_run.exchange [OF run h [unfolded that]] that none by (cases "out_body out") auto
  show "din_run tr conn'" if "event = V2G_EVENT_IGNORE_MSG"
    using din_run.ignored [OF run h [unfolded that]] .
qed

lemma round_in_order:
  assumes "benign_changes p" and "proto = V2G_PROTO_DIN70121 \<or> proto = V2G_PROTO_ISO15118_2010"
    and run: "din_run tr conn" and r: "v2g_message_round p proto k conn = (rv, stop, conn', handled, sent)"
  shows "length handled \<le> 1 \<and> (\<forall>x \<in> set handled. in_order tr x) \<and>
    (\<not> stop \<longrightarrow> din_run (tr @ exchanges handled) conn')"
proof -
  obtain rv0 doc s where dec: "decode_din p (stream (with_change p k conn)) = (rv0, doc, s)"
    by (cases "decode_din p (stream (with_change p k conn))")
  define conn0 where "conn0 = (with_change p k conn)\<lparr>stream := s\<rparr>"
  have run0: "din_run tr conn0"
    using din_run_same_session [OF din_run_change [OF assms(1) run, of k], of conn0]
    by (simp add: conn0_def same_session_def)
  obtain event out conn1 where h: "din_handle_request (random_id p k) (time_now p k) conn0 doc = (event, out, conn1)"
    by (cases "din_handle_request (random_id p k) (time_now p k) conn0 doc")
  have resp: "v2g_respond p ev o' rv' c = (rv'', st, c', out') \<Longrightarrow> same_session c c' \<and>
      (\<not> st \<longrightarrow> ev \<in> {V2G_EVENT_NO_EVENT, V2G_EVENT_IGNORE_MSG, V2G_EVENT_SEND_RECV_EXI_MSG})"
    for ev o' rv' c rv'' st c' out'
    using respond_same_session [of p ev o' rv' c rv'' st c' out']
    by (auto simp: v2g_respond_def split: v2g_event.splits prod.splits)
  note steps = request_in_order [OF run0 h]
  show ?thesis
  proof (cases "rv0 = 0")
    case True
    have "v2g_respond p event (DinOut out) 0 conn1 = (rv, stop, conn', sent)"
      and "handled = [(in_body doc, event, out_body out)]"
      using r True dec h assms(2)
      by (auto simp: v2g_message_round_def v2g_handle_message_def Let_def conn0_def [symmetric] split: prod.splits)
    with resp steps din_run_same_session show ?thesis
      by (cases event) (fastforce simp: in_order_def)+
  next
    case False
    then have "v2g_respond p V2G_EVENT_IGNORE_MSG NoOut 0 conn0 = (rv, stop, conn', sent)" and "handled = []"
      using r dec assms(2)
      by (auto simp: v2g_message_round_def v2g_handle_message_def Let_def conn0_def [symmetric] split: prod.splits)
    with resp run0 din_run_same_session show ?thesis
      by fastforce
  qed
qed

text \<open>A log in which every request is in order after the exchanges before it.\<close>

fun log_in_order :: "(din_request \<times> din_response) list \<Rightarrow> din_log \<Rightarrow> bool" where
  "log_in_order tr [] = True"
| "log_in_order tr (x # xs) \<longleftrightarrow> in_order tr x \<and> log_in_order (tr @ exchanges [x]) xs"

lemma log_in_order_append:
  "log_in_order tr (xs @ ys) \<longleftrightarrow> log_in_order tr xs \<and> log_in_order (tr @ exchanges xs) ys"
proof (induction xs arbitrary: tr)
  case (Cons x xs)
  have "exchanges (x # xs) = exchanges [x] @ exchanges xs"
    using exchanges_simps(2) [of "[x]" xs] by simp
  with Cons show ?case by simp
qed simp

lemma loop_in_order:
  assumes "benign_changes p" and "proto = V2G_PROTO_DIN70121 \<or> proto = V2G_PROTO_ISO15118_2010"
    and "din_run tr conn" and "v2g_message_loop p proto k conn es = (rv, conn', handled, sent)"
  shows "log_in_order tr handled"
  using assms
proof (induction p proto k conn es arbitrary: tr rv conn' handled sent rule: v2g_message_loop.induct)
  case (1 p proto k conn es)
  obtain rv1 conn1 es1 where i: "v2g_incoming_v2gtp socket_reader (setup_for_next conn) es = (rv1, conn1, es1)"
    by (cases "v2g_incoming_v2gtp socket_reader (setup_for_next conn) es")
  obtain rv2 stop conn2 h1 s1 where r: "v2g_message_round p proto k conn1 = (rv2, stop, conn2, h1, s1)"
    by (cases "v2g_message_round p proto k conn1")
  obtain rv3 conn3 h2 s2 where l: "v2g_message_loop p proto (Suc k) conn2 es1 = (rv3, conn3, h2, s2)"
    by (cases "v2g_message_loop p proto (Suc k) conn2 es1")
  have eq: "handled = (if rv1 \<noteq> 0 then [] else if rv2 = 0 \<and> \<not> stop then h1 @ h2 else h1)"
    using "1.prems"(4) by (auto simp: v2g_message_loop.simps [of p proto k conn es] i r l split: if_splits)
  have run1: "din_run tr conn1"
    using din_run_same_session [OF "1.prems"(3), of conn1] incoming_ctx [OF i]
    by (simp add: same_session_def setup_for_next_def)
  note round = round_in_order [OF "1.prems"(1,2) run1]
  show ?case
  proof (cases "rv1 = 0")
    case True
    have "log_in_order tr h1"
      using round [OF r] by (cases h1) auto
    moreover have "log_in_order (tr @ exchanges h1) h2" if "rv2 = 0" "\<not> stop"
      using "1.IH" [OF i [symmetric]] "1.prems"(1,2) round [OF r] that l r True by auto
    ultimately show ?thesis
      using True by (simp add: eq log_in_order_append)
  qed (simp add: eq)
qed

section \<open>Progress\<close>

text \<open>
  What progress of a DIN 70121 connection needs from the parts around it: nothing else changes
  the context, writing succeeds, responses can be encoded, and the payload of a request decodes
  to its document.
\<close>

definition decodes :: "'iso v2g_parts \<Rightarrow> byte list \<Rightarrow> din_in_document \<Rightarrow> bool" where
  "decodes p bs doc \<longleftrightarrow> length bs + V2GTP_HEADER_LENGTH \<le> DEFAULT_BUFFER_SIZE \<and>
     (\<forall>s. length (data s) = DEFAULT_BUFFER_SIZE \<and> byte_pos s = V2GTP_HEADER_LENGTH \<and> bit_count s = 0 \<and>
        data_size s = length bs + V2GTP_HEADER_LENGTH \<and> take (length bs) (drop V2GTP_HEADER_LENGTH (data s)) = bs \<longrightarrow>
        (\<exists>s'. decode_din p s = (0, doc, s') \<and> length (data s') = DEFAULT_BUFFER_SIZE))"

definition cooperative :: "'iso v2g_parts \<Rightarrow> bool" where
  "cooperative p \<longleftrightarrow> (\<forall>k c. context_change p k c = c) \<and> (\<forall>out. write_result p out \<noteq> - 1) \<and>
     (\<forall>s doc. length (data s) = DEFAULT_BUFFER_SIZE \<and> byte_pos s = V2GTP_HEADER_LENGTH \<and> bit_count s = 0 \<and>
        data_size s = DEFAULT_BUFFER_SIZE \<longrightarrow>
        (\<exists>s'. encode_din p s doc = (0, s') \<and> length (data s') = DEFAULT_BUFFER_SIZE))"

text \<open>The session identifier that the vehicle returns.\<close>

definition expects :: "'iso v2g_parts \<Rightarrow> nat \<Rightarrow> byte list \<Rightarrow> v2g_context \<Rightarrow> bool" where
  "expects p k sid c \<longleftrightarrow> v2g_session_id_from_exi sid =
     (if state c = 0 \<and> session_id (evse_data c) = 0 then random_id p k else session_id (evse_data c))"

lemma outgoing_length:
  assumes "v2g_outgoing_v2gtp wr conn = (rv, conn', out)" and "length (data (stream conn)) = DEFAULT_BUFFER_SIZE"
  shows "length (data (stream conn')) = DEFAULT_BUFFER_SIZE \<and> rv \<in> {0, - 1} \<and> (rv = - 1 \<longleftrightarrow> wr out = - 1) \<and>
    session_stop_res_pending conn' = session_stop_res_pending conn"
  using assms
  by (auto simp: v2g_outgoing_v2gtp_def Let_def V2GTP_WriteHeader_def V2GTP20_WriteHeader_def split: if_splits sum.splits)

lemma respond_progress:
  assumes "cooperative p" and "length (data (stream conn)) = DEFAULT_BUFFER_SIZE"
    and "session_stop_res_pending conn = SESSION_STOP_NONE"
  obtains conn' out where "v2g_respond p V2G_EVENT_NO_EVENT (DinOut d) 0 conn = (0, False, conn', [out])"
    "ctx conn' = ctx conn" "length (data (stream conn')) = DEFAULT_BUFFER_SIZE"
    "session_stop_res_pending conn' = SESSION_STOP_NONE"
proof -
  define c0 where "c0 = reset_for_send conn"
  have "length (data (stream c0)) = DEFAULT_BUFFER_SIZE \<and> byte_pos (stream c0) = V2GTP_HEADER_LENGTH \<and>
      bit_count (stream c0) = 0 \<and> data_size (stream c0) = DEFAULT_BUFFER_SIZE"
    using assms(2) by (simp add: c0_def reset_for_send_def)
  then obtain s where s: "encode_din p (stream c0) d = (0, s)" "length (data s) = DEFAULT_BUFFER_SIZE"
    using assms(1) unfolding cooperative_def by metis
  obtain rv c1 out where o: "v2g_outgoing_v2gtp (write_result p) (c0\<lparr>stream := s\<rparr>) = (rv, c1, out)"
    by (cases "v2g_outgoing_v2gtp (write_result p) (c0\<lparr>stream := s\<rparr>)")
  have c1: "length (data (stream c1)) = DEFAULT_BUFFER_SIZE" "rv = 0"
      "session_stop_res_pending c1 = SESSION_STOP_NONE" "ctx c1 = ctx conn"
    using outgoing_length [OF o] outgoing_ctx [OF o] assms s(2)
    by (auto simp: cooperative_def c0_def reset_for_send_def)
  show thesis
    by (rule that [of c1 out])
       (use c1 s o in \<open>simp_all add: v2g_respond_def v2g_encode_def v2g_send_def announce_session_end_def
          c0_def [symmetric] Let_def\<close>)
qed

lemma round_progress:
  assumes coop: "cooperative p" and dec: "decode_din p (stream conn) = (0, din_document sid req, s)"
    and s: "length (data s) = DEFAULT_BUFFER_SIZE" and pend: "session_stop_res_pending conn = SESSION_STOP_NONE"
    and ready: "ready (ctx conn)" "fits (evse_data (ctx conn)) req" "state (ctx conn) \<le> 12" "expects p k sid (ctx conn)"
    and follows: "follows (last_v2g_msg (ctx conn)) (state (ctx conn)) (req # reqs)"
  obtains conn' r out where
    "v2g_message_round p V2G_PROTO_DIN70121 k conn = (0, False, conn', [(req, V2G_EVENT_NO_EVENT, Some r)], [out])"
    "din_response_code r < din_responseCodeType_FAILED" "ready (ctx conn')" "state (ctx conn') = next_state req"
    "last_v2g_msg (ctx conn') = request_msg req" "\<And>k. expects p k sid (ctx conn')"
    "\<And>req. fits (evse_data (ctx conn')) req = fits (evse_data (ctx conn)) req"
    "length (data (stream conn')) = DEFAULT_BUFFER_SIZE" "session_stop_res_pending conn' = SESSION_STOP_NONE"
proof -
  define c0 where "c0 = conn\<lparr>stream := s\<rparr>"
  have initial: "request_msg req = V2G_SESSION_SETUP_MSG" if "state (ctx conn) = 0"
    using follows that by (auto simp: din_validate_state_table split: if_splits)
  have no_setup: "\<not> (\<exists>e. req = SessionSetupReq e)" if "state (ctx conn) \<noteq> 0"
    using follows that only_first_setup ready(3) by simp
  obtain out0 r c1 where h: "din_handle_request (random_id p k) (time_now p k) c0 (din_document sid req) = (V2G_EVENT_NO_EVENT, out0, c1)"
      "out_body out0 = Some r" "din_response_code r < din_responseCodeType_FAILED" "ready (ctx c1)"
      "state (ctx c1) = next_state req" "last_v2g_msg (ctx c1) = request_msg req" "c1 = c0\<lparr>ctx := ctx c1\<rparr>"
    and d: "evse_data (ctx c1) = (evse_data (ctx c0))\<lparr>session_id :=
       (if (\<exists>e. req = SessionSetupReq e) \<and> session_id (evse_data (ctx c0)) = 0 then random_id p k
        else session_id (evse_data (ctx c0)))\<rparr>"
    by (rule ready_exchange [of c0 req sid "random_id p k" "time_now p k"])
       (use ready follows initial in \<open>auto simp: c0_def expects_def\<close>)
  have c1: "length (data (stream c1)) = DEFAULT_BUFFER_SIZE" "session_stop_res_pending c1 = SESSION_STOP_NONE"
    using h(7) s pend by (metis c0_def v2g_connection.select_convs(2,7) v2g_connection.surjective
        v2g_connection.update_convs(1,2))+
  obtain c2 out where resp: "v2g_respond p V2G_EVENT_NO_EVENT (DinOut out0) 0 c1 = (0, False, c2, [out])" "ctx c2 = ctx c1"
      "length (data (stream c2)) = DEFAULT_BUFFER_SIZE" "session_stop_res_pending c2 = SESSION_STOP_NONE"
    using respond_progress [OF coop c1] by metis
  have change: "with_change p k conn = conn"
    using coop by (simp add: with_change_def cooperative_def)
  have sid: "session_id (evse_data (ctx c1)) = v2g_session_id_from_exi sid"
    using d ready(4) initial no_setup by (cases req) (auto simp: c0_def expects_def split: if_splits)
  have more: "fits (evse_data (ctx c1)) = fits (evse_data (ctx conn))" "expects p k' sid (ctx c1)" for k'
    using d sid next_state_pos [of req] h(5) by (auto simp: c0_def expects_def)
  have "v2g_message_round p V2G_PROTO_DIN70121 k conn = (0, False, c2, [(req, V2G_EVENT_NO_EVENT, Some r)], [out])"
    using h resp change dec by (simp add: v2g_message_round_def v2g_handle_message_def c0_def [symmetric] Let_def)
  then show thesis
    by (rule that [of c2 r out]) (use h resp more in auto)
qed

lemma read_nothing:
  assumes "delivers es []"
  obtains conn' es' where "v2g_incoming_v2gtp socket_reader conn es = (1, conn', es')"
proof -
  have "connection_read es 8 [] = (0, [], [])" if "list_all benign es" "concat (map event_bytes es) = []"
    using that
  proof (induction es)
    case (Cons e es)
    then show ?case
      by (cases e) (simp_all add: connection_read.simps [of "_ # _"])
  qed (simp add: connection_read.simps)
  then have "socket_reader es 8 = (0, [], [])"
    using assms by (simp add: socket_reader_def delivers_def)
  then show thesis
    using that by (simp add: v2g_incoming_v2gtp_def V2GTP_HEADER_LENGTH_def)
qed

text \<open>Every request of a vehicle that follows the protocol is answered positively.\<close>

definition all_accepted :: "din_request list \<Rightarrow> din_log \<Rightarrow> bool" where
  "all_accepted reqs handled \<longleftrightarrow> map fst handled = reqs \<and>
     (\<forall>x \<in> set handled. \<exists>r. snd x = (V2G_EVENT_NO_EVENT, Some r) \<and> din_response_code r < din_responseCodeType_FAILED)"

lemma loop_progress:
  assumes coop: "cooperative p" and msgs: "list_all2 (\<lambda>bs req. decodes p bs (din_document sid req)) msgs reqs"
    and del: "delivers es (concat (map v2gtp_message msgs))"
    and conn: "length (data (stream conn)) = DEFAULT_BUFFER_SIZE" "session_stop_res_pending conn = SESSION_STOP_NONE"
    and ready: "ready (ctx conn)" "list_all (fits (evse_data (ctx conn))) reqs" "state (ctx conn) \<le> 12"
      "expects p k sid (ctx conn)" "follows (last_v2g_msg (ctx conn)) (state (ctx conn)) reqs"
  shows "\<exists>conn' handled sent. v2g_message_loop p V2G_PROTO_DIN70121 k conn es = (1, conn', handled, sent) \<and>
    all_accepted reqs handled \<and> length sent = length reqs"
  using msgs del conn ready
proof (induction reqs arbitrary: msgs es conn k rule: list.induct)
  case Nil
  then have "delivers es []"
    by (metis concat.simps(1) list.simps(8) list_all2_Nil2)
  then obtain conn' es' where "v2g_incoming_v2gtp socket_reader (setup_for_next conn) es = (1, conn', es')"
    by (rule read_nothing)
  then show ?case
    by (simp add: v2g_message_loop.simps [of p] all_accepted_def)
next
  case (Cons req reqs)
  then obtain bs msgs' where m: "msgs = bs # msgs'" "decodes p bs (din_document sid req)"
      "list_all2 (\<lambda>bs req. decodes p bs (din_document sid req)) msgs' reqs"
    by (cases msgs) auto
  have small: "length bs + V2GTP_HEADER_LENGTH \<le> DEFAULT_BUFFER_SIZE"
    using m(2) by (simp add: decodes_def)
  define c0 where "c0 = setup_for_next conn"
  have c0: "length (data (stream c0)) = DEFAULT_BUFFER_SIZE" "delivers es (v2gtp_message bs @ concat (map v2gtp_message msgs'))"
    using Cons.prems m(1) by (simp_all add: c0_def setup_for_next_def)
  obtain es1 buf where es1: "delivers es1 (concat (map v2gtp_message msgs'))" and buf: "length buf = DEFAULT_BUFFER_SIZE"
      "take (length bs) (drop V2GTP_HEADER_LENGTH buf) = bs"
    and inc: "v2g_incoming_v2gtp socket_reader c0 es = (0, c0\<lparr>payload_len := of_nat (length bs),
      stream := (stream c0)\<lparr>data := buf, byte_pos := V2GTP_HEADER_LENGTH,
        data_size := length bs + V2GTP_HEADER_LENGTH\<rparr>\<rparr>, es1)"
    using incoming_message [OF c0(1) small c0(2)] by metis
  define c1 where "c1 = c0\<lparr>payload_len := of_nat (length bs), stream := (stream c0)\<lparr>data := buf,
    byte_pos := V2GTP_HEADER_LENGTH, data_size := length bs + V2GTP_HEADER_LENGTH\<rparr>\<rparr>"
  have "length (data (stream c1)) = DEFAULT_BUFFER_SIZE \<and> byte_pos (stream c1) = V2GTP_HEADER_LENGTH \<and>
      bit_count (stream c1) = 0 \<and> data_size (stream c1) = length bs + V2GTP_HEADER_LENGTH \<and>
      take (length bs) (drop V2GTP_HEADER_LENGTH (data (stream c1))) = bs"
    using buf by (simp add: c1_def c0_def setup_for_next_def)
  then obtain s where dec: "decode_din p (stream c1) = (0, din_document sid req, s)" "length (data s) = DEFAULT_BUFFER_SIZE"
    using m(2) unfolding decodes_def by metis
  have c1: "ctx c1 = ctx conn" "session_stop_res_pending c1 = SESSION_STOP_NONE"
    using Cons.prems by (simp_all add: c1_def c0_def setup_for_next_def)
  obtain c2 r out where r: "v2g_message_round p V2G_PROTO_DIN70121 k c1 = (0, False, c2, [(req, V2G_EVENT_NO_EVENT, Some r)], [out])"
      "din_response_code r < din_responseCodeType_FAILED" and c2: "ready (ctx c2)" "state (ctx c2) = next_state req"
      "last_v2g_msg (ctx c2) = request_msg req" "\<And>k. expects p k sid (ctx c2)"
      "\<And>req. fits (evse_data (ctx c2)) req = fits (evse_data (ctx conn)) req"
      "length (data (stream c2)) = DEFAULT_BUFFER_SIZE" "session_stop_res_pending c2 = SESSION_STOP_NONE"
    using round_progress [OF coop dec c1(2)] Cons.prems unfolding c1(1) by (metis list.pred_inject(2))
  have "\<exists>conn' handled sent. v2g_message_loop p V2G_PROTO_DIN70121 (Suc k) c2 es1 = (1, conn', handled, sent) \<and>
      all_accepted reqs handled \<and> length sent = length reqs"
    using Cons.prems m(3) es1 c2 next_state_pos
    by (intro Cons.IH [of msgs']) (auto simp: list_all_iff)
  then show ?case
    using inc r
    by (auto simp: v2g_message_loop.simps [of p V2G_PROTO_DIN70121 k] all_accepted_def c0_def [symmetric] c1_def [symmetric])
qed

section \<open>The handshake before the session\<close>

lemma apphandshake_frame:
  assumes "v2g_handle_apphandshake conn = (event, conn')"
  shows "ctx conn' = (ctx conn)\<lparr>current_v2g_msg := current_v2g_msg (ctx conn'), selected_protocol := selected_protocol (ctx conn')\<rparr> \<and>
    session_stop_res_pending conn' = session_stop_res_pending conn"
  using assms by (auto simp: v2g_handle_apphandshake_def Let_def split: prod.splits sum.splits if_splits)

lemma incoming_pending:
  "v2g_incoming_v2gtp rd conn io = (rv, conn', io') \<Longrightarrow> session_stop_res_pending conn' = session_stop_res_pending conn"
  by (auto simp: v2g_incoming_v2gtp_def store_at_def Let_def split: prod.splits if_splits sum.splits)

lemma outgoing_pending:
  "v2g_outgoing_v2gtp wr conn = (rv, conn', out) \<Longrightarrow> session_stop_res_pending conn' = session_stop_res_pending conn"
  by (auto simp: v2g_outgoing_v2gtp_def Let_def split: if_splits sum.splits)

lemma handshake_phase_frame:
  assumes "v2g_handshake_phase rd wr conn io = (rv, go_on, conn', sent, io')"
  obtains m proto where "ctx conn' = (ctx conn)\<lparr>current_v2g_msg := m, selected_protocol := proto\<rparr>"
    "session_stop_res_pending conn' = session_stop_res_pending conn"
proof -
  obtain rv1 c1 io1 where i: "v2g_incoming_v2gtp rd (setup_for_receive conn) io = (rv1, c1, io1)"
    by (cases "v2g_incoming_v2gtp rd (setup_for_receive conn) io")
  obtain ev c2 where a: "v2g_handle_apphandshake c1 = (ev, c2)"
    by (cases "v2g_handle_apphandshake c1")
  obtain rv3 c3 out where o: "v2g_outgoing_v2gtp wr c2 = (rv3, c3, out)"
    by (cases "v2g_outgoing_v2gtp wr c2")
  have c1: "ctx c1 = ctx conn" "session_stop_res_pending c1 = session_stop_res_pending conn"
    using incoming_ctx [OF i] incoming_pending [OF i] by (simp_all add: setup_for_receive_def)
  have c3: "ctx c3 = ctx c2" "session_stop_res_pending c3 = session_stop_res_pending c2"
    using outgoing_ctx [OF o] outgoing_pending [OF o] by simp_all
  have "conn' \<in> {c1, c2, c3}"
    using assms by (auto simp: v2g_handshake_phase_def i a o Let_def split: if_splits)
  then have "ctx conn' = (ctx conn)\<lparr>current_v2g_msg := current_v2g_msg (ctx conn'), selected_protocol := selected_protocol (ctx conn')\<rparr> \<and>
      session_stop_res_pending conn' = session_stop_res_pending conn"
    using apphandshake_frame [OF a] c1 c3 by auto
  then show thesis
    using that by blast
qed

lemma loop_without_din:
  assumes "v2g_message_loop p V2G_PROTO_ISO15118_2013 k conn es = (rv, conn', handled, sent)"
  shows "handled = []"
  using assms
proof (induction p V2G_PROTO_ISO15118_2013 k conn es arbitrary: rv conn' handled sent rule: v2g_message_loop.induct)
  case (1 p k conn es)
  have "h1 = []" if "v2g_message_round p V2G_PROTO_ISO15118_2013 k c = (rv1, stop, c1, h1, s1)" for c rv1 stop c1 h1 s1
    using that by (auto simp: v2g_message_round_def v2g_handle_message_def split: prod.splits if_splits)
  with "1.prems" "1.hyps" show ?case
    by (subst (asm) v2g_message_loop.simps) (fastforce split: prod.splits if_splits)
qed

section \<open>A whole connection\<close>

definition fresh_context :: "v2g_connection \<Rightarrow> v2g_context" where
  "fresh_context conn = v2g_ctx_init_charging_state False (ctx conn)"

text \<open>A handshake request whose supported offers are all DIN 70121.\<close>

definition offers_din :: "byte \<Rightarrow> appHand_exiDocument \<Rightarrow> bool" where
  "offers_din supported req \<longleftrightarrow> doc_valid req \<and> supportedAppProtocolReq_isUsed req \<and>
     (\<forall>q \<in> set (req_elements (supportedAppProtocolReq req)). matches supported q \<in> {None, Some V2G_PROTO_DIN70121}) \<and>
     (\<exists>q \<in> set (req_elements (supportedAppProtocolReq req)). matches supported q \<noteq> None \<and> Priority q \<le> 20)"

lemma offers_din_negotiated:
  assumes "offers_din (supported_protocols (ctx conn)) req"
  shows "negotiated (neg_ResponseCode (negotiate (supported_protocols (ctx conn))
      (req_elements (supportedAppProtocolReq req)) (initial_negotiation conn)))"
    and "neg_protocol (negotiate (supported_protocols (ctx conn))
      (req_elements (supportedAppProtocolReq req)) (initial_negotiation conn)) = V2G_PROTO_DIN70121"
proof -
  define els where "els = req_elements (supportedAppProtocolReq req)"
  define st where "st = negotiate (supported_protocols (ctx conn)) els (initial_negotiation conn)"
  have "\<exists>q \<in> set els. matches (supported_protocols (ctx conn)) q \<noteq> None \<and> Priority q \<le> ev_app_priority (initial_negotiation conn)"
    using assms by (auto simp: offers_din_def els_def initial_negotiation_def)
  then obtain q proto where q: "best_offer (supported_protocols (ctx conn)) 20 els q"
      "matches (supported_protocols (ctx conn)) q = Some proto" "st = accept q proto"
    using negotiate_spec [of els "supported_protocols (ctx conn)" "initial_negotiation conn"]
    by (auto simp: st_def initial_negotiation_def)
  then have "q \<in> set els" "proto = V2G_PROTO_DIN70121"
    using assms by (auto simp: best_offer_def offers_din_def els_def)
  with q show "negotiated (neg_ResponseCode (negotiate (supported_protocols (ctx conn))
      (req_elements (supportedAppProtocolReq req)) (initial_negotiation conn)))"
    and "neg_protocol (negotiate (supported_protocols (ctx conn))
      (req_elements (supportedAppProtocolReq req)) (initial_negotiation conn)) = V2G_PROTO_DIN70121"
    by (auto simp: st_def [symmetric] els_def [symmetric] accept_def negotiated_def)
qed

lemma connection_run:
  assumes coop: "cooperative p" and conn: "length (data (stream conn)) = DEFAULT_BUFFER_SIZE" "doc_wf (handshake_req conn)"
      "session_stop_res_pending conn = SESSION_STOP_NONE"
    and req: "offers_din (supported_protocols (ctx conn)) req"
      "length bs + V2GTP_HEADER_LENGTH \<le> DEFAULT_BUFFER_SIZE" "prefix (doc_code req) (octets_code bs)"
    and del: "delivers es (v2gtp_message bs @ concat (map v2gtp_message msgs))"
    and msgs: "list_all2 (\<lambda>bs req. decodes p bs (din_document sid req)) msgs reqs"
    and ready: "ready (fresh_context conn)" "list_all (fits (evse_data (fresh_context conn))) reqs"
      "expects p 0 sid (fresh_context conn)" "follows V2G_UNKNOWN_MSG WAIT_FOR_SESSIONSETUP reqs"
  shows "\<exists>conn' handled sent. v2g_handle_connection p conn es = (- 1, conn', handled, sent) \<and>
    all_accepted reqs handled \<and> length sent = Suc (length reqs)"
proof -
  define c0 where "c0 = conn\<lparr>ctx := fresh_context conn\<rparr>"
  have c0: "length (data (stream c0)) = DEFAULT_BUFFER_SIZE" "doc_wf (handshake_req c0)" "calm (ctx c0)"
      "supported_protocols (ctx c0) = supported_protocols (ctx conn)"
    using conn ready(1) by (simp_all add: c0_def calm_def ready_def fresh_context_def v2g_ctx_init_charging_state_def
        v2g_ctx_init_dc_evse_status_codes_def)
  have fresh: "state (fresh_context conn) = 0" "last_v2g_msg (fresh_context conn) = V2G_UNKNOWN_MSG"
    by (simp_all add: fresh_context_def v2g_ctx_init_charging_state_def v2g_ctx_init_dc_evse_status_codes_def)
  note neg = offers_din_negotiated [of c0 req]
  obtain c1 es1 out where h: "v2g_handshake_phase socket_reader (write_result p) c0 es = (0, True, c1, [out], es1)"
      "delivers es1 (concat (map v2gtp_message msgs))" "selected_protocol (ctx c1) = V2G_PROTO_DIN70121"
      "length (data (stream c1)) = DEFAULT_BUFFER_SIZE"
    using handshake_phase_run [OF c0(1-3) _ _ req(2,3) del, of "write_result p"] neg req(1) c0(4) coop
    by (auto simp: offers_din_def cooperative_def)
  obtain m proto where c1: "ctx c1 = (fresh_context conn)\<lparr>current_v2g_msg := m, selected_protocol := proto\<rparr>"
      "session_stop_res_pending c1 = SESSION_STOP_NONE"
    by (rule handshake_phase_frame [OF h(1)]) (use conn(3) in \<open>simp add: c0_def\<close>)
  have "\<exists>conn' handled sent. v2g_message_loop p V2G_PROTO_DIN70121 0 c1 es1 = (1, conn', handled, sent) \<and>
      all_accepted reqs handled \<and> length sent = length reqs"
    using ready c1(1) fresh
    by (intro loop_progress [OF coop msgs h(2) h(4) c1(2)]) (simp_all add: ready_def expects_def)
  then show ?thesis
    using h(1,3) by (auto simp: v2g_handle_connection_def fresh_context_def [symmetric] c0_def [symmetric]
        v2g_close_connection_def Let_def)
qed

section \<open>An example\<close>

text \<open>Parts for the examples: a request is coded by its position in the list, a response by nothing.\<close>

definition example_parts :: "unit v2g_parts" where
  "example_parts = \<lparr>write_result = (\<lambda>out. int (length out)),
     decode_din = (\<lambda>s. (0, din_document [7] (example_requests ! unat (data s ! V2GTP_HEADER_LENGTH)), s)),
     encode_din = (\<lambda>s doc. (0, s)), iso_request = (\<lambda>conn. (1, V2G_EVENT_IGNORE_MSG, (), conn)),
     encode_iso = (\<lambda>s doc. (1, s)), context_change = (\<lambda>k c. c), random_id = (\<lambda>k. 7), time_now = (\<lambda>k. 0)\<rparr>"

definition example_messages :: "byte list list" where
  "example_messages = map (\<lambda>i. [of_nat i]) [0..<length example_requests]"

definition one_offer :: appHand_exiDocument where
  "one_offer = appHand_exiDocument_blank
     \<lparr>supportedAppProtocolReq_isUsed := True,
      supportedAppProtocolReq :=
        \<lparr>AppProtocol_array = [offer DIN_70121_MSG_DEF 1 1] @ replicate 4 (offer [] 0 0), AppProtocol_arrayLen = 1\<rparr>\<rparr>"

lemma example_parts_facts: "cooperative example_parts" "benign_changes example_parts"
  by (auto simp: cooperative_def benign_changes_def example_parts_def)

lemma example_messages_decode:
  "list_all2 (\<lambda>bs req. decodes example_parts bs (din_document [7] req)) example_messages example_requests"
proof (rule list_all2_all_nthI)
  fix i
  assume "i < length example_messages"
  then have i: "i < length example_requests"
    by (simp add: example_messages_def)
  then have "i < 9"
    by (simp add: example_requests_def)
  then have n: "unat (of_nat i :: byte) = i"
    by (simp add: unat_of_nat)
  have "s ! V2GTP_HEADER_LENGTH = (of_nat i :: byte)"
    if "take (length [of_nat i :: byte]) (drop V2GTP_HEADER_LENGTH s) = [of_nat i]" for s
    using that by (cases "drop V2GTP_HEADER_LENGTH s") (auto simp: nth_via_drop)
  then show "decodes example_parts (example_messages ! i) (din_document [7] (example_requests ! i))"
    using i n by (auto simp: decodes_def example_parts_def example_messages_def V2GTP_HEADER_LENGTH_def DEFAULT_BUFFER_SIZE_def)
qed (simp add: example_messages_def)

definition one_offer_bytes :: "byte list" where
  "one_offer_bytes =
     [128, 0, 219, 171, 147, 113, 211, 35, 75, 113, 209, 185, 129, 137, 145, 137, 209, 145, 129, 137, 145, 210, 107,
      155, 58, 35, 43, 48, 2, 0, 0, 4, 0, 64]"

lemma one_offer_facts:
  "doc_valid one_offer" "supportedAppProtocolReq_isUsed one_offer"
  "prefix (doc_code one_offer) (octets_code one_offer_bytes)" "length one_offer_bytes = 34"
  "req_elements (supportedAppProtocolReq one_offer) = [offer DIN_70121_MSG_DEF 1 1]"
  "matches 1 (offer DIN_70121_MSG_DEF 1 1) = Some V2G_PROTO_DIN70121"
  by code_simp+

lemma one_offer_din: "offers_din 1 one_offer"
  by (simp add: offers_din_def one_offer_facts) (simp add: offer_def)

definition example_input :: "socket_event list" where
  "example_input = [Received (v2gtp_message one_offer_bytes), NothingReady,
     Received (concat (map v2gtp_message example_messages))]"

lemma example_input_delivers:
  "delivers example_input (v2gtp_message one_offer_bytes @ concat (map v2gtp_message example_messages))"
proof -
  have nonempty: "v2gtp_message bs \<noteq> []" for bs
    using v2gtp_message_parts [of bs] by (metis V2GTP_HEADER_LENGTH_def append_is_Nil_conv list.size(3) zero_neq_numeral)
  have "concat (map v2gtp_message example_messages) \<noteq> []"
    by (simp add: example_messages_def example_requests_def nonempty upt_rec)
  then show ?thesis
    using nonempty by (simp add: delivers_def example_input_def)
qed

lemma example_fresh:
  "ready (fresh_context (example_connection 1))" "list_all (fits (evse_data (fresh_context (example_connection 1)))) example_requests"
  "expects example_parts 0 [7] (fresh_context (example_connection 1))"
proof -
  have d: "evse_data (fresh_context (example_connection 1)) = (evse_data (ctx (example_connection 1)))
      \<lparr>evse_notification := 0, evse_status_code := evse_status_code (evse_data (fresh_context (example_connection 1)))\<rparr>"
    by (simp add: fresh_context_def v2g_ctx_init_charging_state_def v2g_ctx_init_dc_evse_status_codes_def)
  show "ready (fresh_context (example_connection 1))" "expects example_parts 0 [7] (fresh_context (example_connection 1))"
    by (simp_all add: fresh_context_def ready_def expects_def example_parts_def example_session_id example_connection_def
        example_context_def v2g_ctx_init_charging_state_def v2g_ctx_init_dc_evse_status_codes_def Let_def)
  show "list_all (fits (evse_data (fresh_context (example_connection 1)))) example_requests"
    using example_requests_fit(1) [of 1]
    by (subst d) (simp add: list_all_iff fits_def cong: din_request.case_cong)
qed

lemma example_connection_run:
  "\<exists>conn' handled sent. v2g_handle_connection example_parts (example_connection 1) example_input = (- 1, conn', handled, sent) \<and>
    all_accepted example_requests handled \<and> length sent = Suc (length example_requests)"
proof (rule connection_run)
  show "offers_din (supported_protocols (ctx (example_connection 1))) one_offer"
    using one_offer_din by (simp add: example_connection_facts(4))
  show "session_stop_res_pending (example_connection 1) = SESSION_STOP_NONE"
    by (simp add: example_connection_def)
  show "length one_offer_bytes + V2GTP_HEADER_LENGTH \<le> DEFAULT_BUFFER_SIZE"
    using one_offer_facts(4) by (simp add: V2GTP_HEADER_LENGTH_def DEFAULT_BUFFER_SIZE_def)
qed (rule example_parts_facts example_connection_facts one_offer_facts example_input_delivers example_messages_decode
      example_fresh example_requests_fit)+

section \<open>Properties\<close>





end
