(* ===== verification/Event_System.thy ===== *)
theory Event_System
  imports Prelude
begin

text \<open>
  Reachability, invariants and refinement of systems that react to events. The components with a
  step relation interpret these locales on their own transitions: an invariant that the start
  has and every event keeps holds in every reachable state, and a system whose events map to
  steps of an abstract one only runs as the abstract one does.
\<close>

section \<open>Reachability\<close>

inductive reachable :: "('s \<Rightarrow> bool) \<Rightarrow> ('e \<Rightarrow> 's \<Rightarrow> 's \<Rightarrow> bool) \<Rightarrow> 'e list \<Rightarrow> 's \<Rightarrow> bool"
  for start :: "'s \<Rightarrow> bool" and trans :: "'e \<Rightarrow> 's \<Rightarrow> 's \<Rightarrow> bool" where
  reachable_start: "start s \<Longrightarrow> reachable start trans [] s"
| reachable_step: "reachable start trans es s \<Longrightarrow> trans e s s' \<Longrightarrow> reachable start trans (es @ [e]) s'"

locale invariant_system =
  fixes start :: "'s \<Rightarrow> bool"
    and trans :: "'e \<Rightarrow> 's \<Rightarrow> 's \<Rightarrow> bool"
    and invar :: "'s \<Rightarrow> bool"
  assumes invar_start: "start s \<Longrightarrow> invar s"
    and invar_step: "invar s \<Longrightarrow> trans e s s' \<Longrightarrow> invar s'"
begin

lemma invar_reachable: "reachable start trans es s \<Longrightarrow> invar s"
  by (induction rule: reachable.induct) (auto intro: invar_start invar_step)

end

text \<open>Every event of the concrete system maps to an event of the abstract one.\<close>

locale refined_system = invariant_system +
  fixes view :: "'s \<Rightarrow> 'a"
    and abs_event :: "'e \<Rightarrow> 'b"
    and abs_start :: "'a \<Rightarrow> bool"
    and abs_trans :: "'b \<Rightarrow> 'a \<Rightarrow> 'a \<Rightarrow> bool"
  assumes view_start: "start s \<Longrightarrow> abs_start (view s)"
    and view_step: "invar s \<Longrightarrow> trans e s s' \<Longrightarrow> abs_trans (abs_event e) (view s) (view s')"
begin

lemma view_reachable: "reachable start trans es s \<Longrightarrow> reachable abs_start abs_trans (map abs_event es) (view s)"
proof (induction rule: reachable.induct)
  case (reachable_start s)
  then show ?case
    by (simp add: reachable.reachable_start view_start)
next
  case (reachable_step es s e s')
  then show ?case
    by (auto intro: reachable.reachable_step view_step invar_reachable)
qed

end

section \<open>The last command of a kind\<close>

text \<open>What a log of outputs leaves switched on: \<open>f\<close> reads the commands it is about.\<close>

fun latest_from :: "('e \<Rightarrow> bool option) \<Rightarrow> bool \<Rightarrow> 'e list \<Rightarrow> bool" where
  "latest_from f b [] = b"
| "latest_from f b (e # es) = latest_from f (case f e of Some b' \<Rightarrow> b' | None \<Rightarrow> b) es"

definition latest :: "('e \<Rightarrow> bool option) \<Rightarrow> 'e list \<Rightarrow> bool" where
  "latest f es = latest_from f False es"

lemma latest_from_append: "latest_from f b (es @ es') = latest_from f (latest_from f b es) es'"
  by (induction f b es rule: latest_from.induct) auto

lemma latest_simps [simp]:
  "latest f [] = False"
  "latest f (es @ es') = latest_from f (latest f es) es'"
  by (simp_all add: latest_def latest_from_append)

lemma latest_from_other: "list_all (\<lambda>e. f e = None) es \<Longrightarrow> latest_from f b es = b"
  by (induction es) auto

end
