(* ===== verification/IEC_State_Machine.thy ===== *)
theory IEC_State_Machine
  imports Event_System Complex_Main
begin

text \<open>
  The control pilot state machine of a charging port
  (\<^verbatim>\<open>modules/EVSE/EvseManager/IECStateMachine.cpp\<close> and \<^verbatim>\<open>IECStateMachine.hpp\<close>, with the timer
  \<^verbatim>\<open>AsyncTimeout\<close> of \<^verbatim>\<open>Timeout.hpp\<close>): it follows the pilot states that the board support driver
  reports, decides when the contactors may close and when the plug is locked, and tells the
  charger what the vehicle does. The state is the record of the members of the class; the
  commands to the driver and the signals are recorded in order in \<open>outputs\<close>. A function models
  what runs under the mutex as one step; the timers it starts and stops right after the
  section belong to the step. Duty cycles and currents are rational numbers.
\<close>

section \<open>Data\<close>

datatype CPEvent =
    CarPluggedIn
  | CarRequestedPower
  | PowerOn
  | PowerOff
  | CarRequestedStopPower
  | CarUnplugged
  | EFtoBCD
  | BCDtoEF
  | BCDtoE

datatype RawCPState =
    CP_Disabled
  | CP_A
  | CP_B
  | CP_C
  | CP_D
  | CP_E
  | CP_F

datatype AcPhases =
    SinglePhase
  | TwoPhases
  | ThreePhases

datatype bsp_event =
    Event_A
  | Event_B
  | Event_C
  | Event_D
  | Event_E
  | Event_F
  | Event_PowerOn
  | Event_PowerOff
  | Event_Disconnected

datatype Ampacity =
    Ampacity_None
  | A_13
  | A_20
  | A_32
  | A_63_3ph_70_1ph

datatype Reason =
    DCCableCheck
  | DCPreCharge
  | FullPowerCharging
  | Reason_PowerOff

datatype TimerControl =
    do_nothing
  | timer_start
  | timer_stop

text \<open>Commands to the board support driver and signals to the charger.\<close>

datatype iec_output =
    call_cp_state_X1
  | call_cp_state_E
  | call_cp_state_F
  | call_pwm_on rat
  | call_allow_power_on bool Reason
  | call_enable bool
  | call_ac_switch_three_phases_while_charging bool
  | call_ac_set_overcurrent_limit_A rat
  | signal_event CPEvent
  | signal_lock
  | signal_unlock
  | signal_raw_cp_state_changed RawCPState
  | signal_pwm_duty_cycle rat

fun cpevent_to_string :: "CPEvent \<Rightarrow> string" where
  "cpevent_to_string CarPluggedIn = ''CarPluggedIn''"
| "cpevent_to_string CarRequestedPower = ''CarRequestedPower''"
| "cpevent_to_string PowerOn = ''PowerOn''"
| "cpevent_to_string PowerOff = ''PowerOff''"
| "cpevent_to_string CarRequestedStopPower = ''CarRequestedStopPower''"
| "cpevent_to_string CarUnplugged = ''CarUnplugged''"
| "cpevent_to_string EFtoBCD = ''EFtoBCD''"
| "cpevent_to_string BCDtoEF = ''BCDtoEF''"
| "cpevent_to_string BCDtoE = ''BCDtoE''"

text \<open>
  A running timer holds its start and its duration in milliseconds. It stays reached until it is
  stopped or started again: the waiting thread ends without clearing \<^verbatim>\<open>running\<close>.
\<close>

type_synonym async_timeout = "(int \<times> int) option"

definition timeout_reached :: "int \<Rightarrow> async_timeout \<Rightarrow> bool" where
  "timeout_reached now t = (case t of None \<Rightarrow> False | Some (start_time, duration) \<Rightarrow> now - start_time > duration)"

record iec_state =
  lock_connector_in_state_b :: bool
  pwm_running :: bool
  last_pwm_running :: bool
  ev_simplified_mode_evse_limit :: bool
  ev_simplified_mode :: bool
  has_ventilation :: bool
  power_on_allowed :: bool
  last_power_on_allowed :: bool
  last_power_on_forwarded :: bool
  power_on_reason :: Reason
  pp_ampacity :: rat
  last_amps :: rat
  max_phases :: AcPhases
  car_plugged_in :: bool
  last_cp_state :: RawCPState
  cp_state_f_requested :: bool
  signalled_raw_cp_state :: RawCPState
  timeout_state_c1 :: async_timeout
  timeout_unlock_state_F :: async_timeout
  timeout_captive_lock :: async_timeout
  use_authorized :: bool
  authorized :: bool
  keep_cable_locked :: bool
  captive_unlock_window :: bool
  keep_cable_locked_lock_delay_ms :: int
  captive_lock_delay_elapsed :: bool
  captive_latched :: bool
  is_locked :: bool
  should_be_locked :: bool
  force_unlocked :: bool
  bsp_enabled :: bool
  relais_on :: bool
  state_e_triggered_through_handle :: bool
  outputs :: "iec_output list"

definition ev_simplified_mode_evse_limit_pwm :: rat where
  "ev_simplified_mode_evse_limit_pwm = 1 / 6"

definition power_off_under_load_in_c1_timeout :: int where
  "power_off_under_load_in_c1_timeout = 6000"

definition unlock_in_state_f_timeout :: int where
  "unlock_in_state_f_timeout = 5000"

text \<open>The constructor; the defaults of the other members are those of the class.\<close>

definition iec_init :: "bool \<Rightarrow> bool \<Rightarrow> bool \<Rightarrow> int \<Rightarrow> iec_state" where
  "iec_init lock_in_b use_auth keep_locked delay_ms =
     \<lparr>lock_connector_in_state_b = lock_in_b, pwm_running = False, last_pwm_running = False,
      ev_simplified_mode_evse_limit = False, ev_simplified_mode = False, has_ventilation = False,
      power_on_allowed = False, last_power_on_allowed = False, last_power_on_forwarded = False,
      power_on_reason = Reason_PowerOff, pp_ampacity = 0, last_amps = - 1, max_phases = ThreePhases,
      car_plugged_in = False, last_cp_state = CP_Disabled, cp_state_f_requested = False,
      signalled_raw_cp_state = CP_Disabled, timeout_state_c1 = None, timeout_unlock_state_F = None,
      timeout_captive_lock = None, use_authorized = use_auth, authorized = (\<not> use_auth),
      keep_cable_locked = keep_locked, captive_unlock_window = False, keep_cable_locked_lock_delay_ms = delay_ms,
      captive_lock_delay_elapsed = False, captive_latched = False, is_locked = False, should_be_locked = False,
      force_unlocked = False, bsp_enabled = False, relais_on = False, state_e_triggered_through_handle = False,
      outputs = []\<rparr>"

section \<open>Commands\<close>

definition emit :: "iec_output \<Rightarrow> iec_state \<Rightarrow> iec_state" where
  "emit e s = s\<lparr>outputs := outputs s @ [e]\<rparr>"

definition emit_all :: "iec_output list \<Rightarrow> iec_state \<Rightarrow> iec_state" where
  "emit_all es s = s\<lparr>outputs := outputs s @ es\<rparr>"

definition call_allow_power_on_bsp :: "bool \<Rightarrow> iec_state \<Rightarrow> iec_state" where
  "call_allow_power_on_bsp value s =
     (let s = (if \<not> value then s\<lparr>power_on_allowed := False, power_on_reason := Reason_PowerOff\<rparr> else s);
          s = s\<lparr>last_power_on_forwarded := value\<rparr>
      in emit (call_allow_power_on value (power_on_reason s)) s)"

text \<open>The automatic return to X1, which must not undo a requested state F.\<close>

definition reset_to_X1 :: "iec_state \<Rightarrow> iec_state" where
  "reset_to_X1 s = (if \<not> cp_state_f_requested s then emit_all [call_cp_state_X1, signal_pwm_duty_cycle 100] s else s)"

section \<open>The connector lock\<close>

definition connector_lock :: "iec_state \<Rightarrow> iec_state" where
  "connector_lock s = s\<lparr>should_be_locked := True\<rparr>"

definition connector_unlock :: "iec_state \<Rightarrow> iec_state" where
  "connector_unlock s = s\<lparr>should_be_locked := False, force_unlocked := False\<rparr>"

definition check_connector_lock :: "iec_state \<Rightarrow> iec_state" where
  "check_connector_lock s =
     (let lock = (relais_on s \<or> (should_be_locked s \<and> \<not> force_unlocked s \<and> authorized s));
          s = (if keep_cable_locked s \<and> pp_ampacity s > 0 \<and> captive_lock_delay_elapsed s \<and> \<not> captive_unlock_window s
               then s\<lparr>captive_latched := True\<rparr> else s);
          lock = (if keep_cable_locked s then lock \<or> captive_latched s else lock)
      in if \<not> is_locked s \<and> lock then (emit signal_lock s)\<lparr>is_locked := True\<rparr>
         else if is_locked s \<and> \<not> lock then (emit signal_unlock s)\<lparr>is_locked := False\<rparr>
         else s)"

definition connector_force_unlock :: "iec_state \<Rightarrow> iec_state" where
  "connector_force_unlock s =
     (let cp = last_cp_state s;
          s = (if keep_cable_locked s
               then s\<lparr>captive_unlock_window := (pp_ampacity s > 0 \<or> captive_unlock_window s), captive_latched := False\<rparr>
               else s);
          s = (if \<not> relais_on s then (emit signal_unlock s)\<lparr>is_locked := False\<rparr> else s)
      in if cp = CP_B \<or> cp = CP_C then check_connector_lock (s\<lparr>force_unlocked := True\<rparr>) else s)"

section \<open>The state machine\<close>

text \<open>
  One function per pilot state; each returns the state, the events for the charger and what to
  do with the timer of state C1.
\<close>

type_synonym iec_result = "iec_state \<times> CPEvent list \<times> TimerControl"

definition enter_Disabled :: "iec_state \<Rightarrow> iec_result" where
  "enter_Disabled s =
     (if last_cp_state s \<noteq> CP_Disabled
      then let s = s\<lparr>pwm_running := False\<rparr>;
               s = reset_to_X1 s;
               s = s\<lparr>ev_simplified_mode := False\<rparr>;
               s = call_allow_power_on_bsp False s
           in (connector_unlock s, [], timer_stop)
      else (s, [], do_nothing))"

definition enter_A :: "iec_state \<Rightarrow> iec_result" where
  "enter_A s =
     (let prev = last_cp_state s;
          events = (if prev \<noteq> CP_A \<and> prev \<noteq> CP_Disabled then [CarUnplugged] else [])
      in if prev \<noteq> CP_A
         then let s = s\<lparr>pwm_running := False\<rparr>;
                  s = reset_to_X1 s;
                  s = s\<lparr>ev_simplified_mode := False, car_plugged_in := False\<rparr>;
                  s = call_allow_power_on_bsp False s
              in (connector_unlock s, events, timer_stop)
         else (s, events, do_nothing))"

definition enter_B :: "iec_state \<Rightarrow> iec_result" where
  "enter_B s =
     (let prev = last_cp_state s;
          s = (if lock_connector_in_state_b s then connector_lock s else connector_unlock s);
          stopped = (prev = CP_C \<or> prev = CP_D);
          plugged = (prev = CP_A \<or> prev = CP_Disabled \<or> (\<not> car_plugged_in s \<and> (prev = CP_F \<or> prev = CP_E)));
          s = (if stopped then call_allow_power_on_bsp False s else s);
          s = (if plugged then s\<lparr>car_plugged_in := True, ev_simplified_mode := False\<rparr> else s)
      in (s,
          (if stopped then [CarRequestedStopPower] else []) @ (if plugged then [CarPluggedIn] else []) @
          (if prev = CP_E \<or> prev = CP_F then [EFtoBCD] else []),
          if stopped then timer_stop else do_nothing))"

definition enter_C :: "int \<Rightarrow> iec_state \<Rightarrow> iec_result" where
  "enter_C now s =
     (let prev = last_cp_state s;
          s = connector_lock s;
          plugged = (prev = CP_A \<or> prev = CP_Disabled \<or> (\<not> car_plugged_in s \<and> prev = CP_F));
          s = (if plugged then s\<lparr>car_plugged_in := True, ev_simplified_mode := True\<rparr> else s);
          events = (if plugged then [CarPluggedIn] else if prev = CP_B then [CarRequestedPower] else []);
          timer = (if \<not> pwm_running s \<and> last_pwm_running s then timer_start else do_nothing);
          resumed = (pwm_running s \<and> \<not> last_pwm_running s);
          timer = (if resumed then timer_stop else timer);
          s = (if resumed \<and> power_on_allowed s then call_allow_power_on_bsp True s else s);
          s = (if timeout_reached now (timeout_state_c1 s) then call_allow_power_on_bsp False s else s);
          s = (if pwm_running s \<and> power_on_allowed s \<and> (\<not> last_power_on_allowed s \<or> prev = CP_B)
               then call_allow_power_on_bsp True s else s);
          events = events @ (if pwm_running s \<and> \<not> last_pwm_running s \<and> ev_simplified_mode s
                             then [CarRequestedPower] else [])
      in (s, events, timer))"

definition enter_D :: "int \<Rightarrow> iec_state \<Rightarrow> iec_result" where
  "enter_D now s =
     (let s = connector_lock s
      in if \<not> has_ventilation s then (call_allow_power_on_bsp False s, [], timer_stop) else enter_C now s)"

definition enter_E :: "iec_state \<Rightarrow> iec_result" where
  "enter_E s =
     (let prev = last_cp_state s;
          by_evse = state_e_triggered_through_handle s;
          s = s\<lparr>state_e_triggered_through_handle := False\<rparr>;
          s = (if \<not> by_evse then connector_unlock s else s)
      in if prev \<noteq> CP_E
         then let s = call_allow_power_on_bsp False s;
                  s = s\<lparr>pwm_running := False\<rparr>;
                  s = (if \<not> by_evse then reset_to_X1 s else s)
              in (s, if prev = CP_B \<or> prev = CP_C \<or> prev = CP_D
                     then BCDtoEF # (if \<not> by_evse then [BCDtoE] else []) else [], timer_stop)
         else (s, [], do_nothing))"

definition enter_F :: "int \<Rightarrow> iec_state \<Rightarrow> iec_result" where
  "enter_F now s =
     (let prev = last_cp_state s;
          s = call_allow_power_on_bsp False s;
          s = (if prev \<noteq> CP_F then s\<lparr>pwm_running := False\<rparr> else s);
          s = (if timeout_reached now (timeout_unlock_state_F s) then connector_unlock s else s)
      in (s, if prev = CP_B \<or> prev = CP_C \<or> prev = CP_D then [BCDtoEF] else [], timer_stop))"

definition timer_control :: "int \<Rightarrow> int \<Rightarrow> TimerControl \<Rightarrow> async_timeout \<Rightarrow> async_timeout" where
  "timer_control now duration c t =
     (case c of timer_start \<Rightarrow> Some (now, duration) | timer_stop \<Rightarrow> None | do_nothing \<Rightarrow> t)"

definition enter_state :: "int \<Rightarrow> RawCPState \<Rightarrow> iec_state \<Rightarrow> iec_result" where
  "enter_state now cp s = (case cp of
       CP_Disabled \<Rightarrow> enter_Disabled s
     | CP_A \<Rightarrow> enter_A s
     | CP_B \<Rightarrow> enter_B s
     | CP_C \<Rightarrow> enter_C now s
     | CP_D \<Rightarrow> enter_D now s
     | CP_E \<Rightarrow> enter_E s
     | CP_F \<Rightarrow> enter_F now s)"

definition state_machine :: "int \<Rightarrow> RawCPState option \<Rightarrow> iec_state \<Rightarrow> iec_state \<times> CPEvent list" where
  "state_machine now cp_state_opt s =
     (let prev = last_cp_state s;
          cp = (case cp_state_opt of Some c \<Rightarrow> c | None \<Rightarrow> prev);
          timer_F = (if cp \<noteq> CP_F \<and> prev = CP_F then timer_stop
                     else if cp = CP_F \<and> prev \<noteq> CP_F then timer_start else do_nothing);
          (s, events, timer_C1) = enter_state now cp s;
          s = check_connector_lock s;
          s = s\<lparr>last_cp_state := cp, last_pwm_running := pwm_running s, last_power_on_allowed := power_on_allowed s\<rparr>;
          s = s\<lparr>timeout_state_c1 := timer_control now power_off_under_load_in_c1_timeout timer_C1 (timeout_state_c1 s),
                timeout_unlock_state_F := timer_control now unlock_in_state_f_timeout timer_F (timeout_unlock_state_F s)\<rparr>
      in (s, events))"

definition feed_state_machine :: "int \<Rightarrow> RawCPState option \<Rightarrow> iec_state \<Rightarrow> iec_state" where
  "feed_state_machine now cp_state_opt s =
     (case state_machine now cp_state_opt s of (s, events) \<Rightarrow>
        let s = (case cp_state_opt of
                   Some c \<Rightarrow> if c \<noteq> signalled_raw_cp_state s
                             then emit (signal_raw_cp_state_changed c) (s\<lparr>signalled_raw_cp_state := c\<rparr>) else s
                 | None \<Rightarrow> s)
        in emit_all (map signal_event events) s)"

section \<open>Events of the board support driver\<close>

fun from_bsp_event :: "bsp_event \<Rightarrow> RawCPState + CPEvent" where
  "from_bsp_event Event_A = Inl CP_A"
| "from_bsp_event Event_B = Inl CP_B"
| "from_bsp_event Event_C = Inl CP_C"
| "from_bsp_event Event_D = Inl CP_D"
| "from_bsp_event Event_E = Inl CP_E"
| "from_bsp_event Event_F = Inl CP_F"
| "from_bsp_event Event_PowerOn = Inr PowerOn"
| "from_bsp_event Event_PowerOff = Inr PowerOff"
| "from_bsp_event Event_Disconnected = Inl CP_Disabled"

definition process_cp_event :: "CPEvent \<Rightarrow> iec_state \<Rightarrow> iec_state" where
  "process_cp_event event s =
     (let s = (if event = PowerOn then s\<lparr>relais_on := True\<rparr>
               else if event = PowerOff then s\<lparr>relais_on := False\<rparr> else s);
          s = check_connector_lock s
      in emit (signal_event event) s)"

definition process_bsp_event :: "int \<Rightarrow> bsp_event \<Rightarrow> iec_state \<Rightarrow> iec_state" where
  "process_bsp_event now e s =
     (case from_bsp_event e of Inl raw \<Rightarrow> feed_state_machine now (Some raw) s | Inr event \<Rightarrow> process_cp_event event s)"

text \<open>The subscription to the driver: events are ignored until the port is enabled.\<close>

definition bsp_subscription :: "int \<Rightarrow> bsp_event \<Rightarrow> iec_state \<Rightarrow> iec_state" where
  "bsp_subscription now e s = (if bsp_enabled s then process_bsp_event now e s else s)"

definition captive_lock_reached :: "iec_state \<Rightarrow> iec_state" where
  "captive_lock_reached s =
     check_connector_lock (if pp_ampacity s > 0 then s\<lparr>captive_lock_delay_elapsed := True\<rparr> else s)"

section \<open>Requests of the charger\<close>

text \<open>
  A request changes the flags under the mutex, calls the driver and runs the state machine; the
  parts are separate because other threads may run in between.
\<close>

definition set_pwm_flags :: "iec_state \<Rightarrow> iec_state" where
  "set_pwm_flags s = s\<lparr>pwm_running := True, cp_state_f_requested := False\<rparr>"

definition set_pwm_call :: "rat \<Rightarrow> iec_state \<Rightarrow> iec_state" where
  "set_pwm_call value s =
     (let value = (if ev_simplified_mode_evse_limit s \<and> ev_simplified_mode s \<and> value > ev_simplified_mode_evse_limit_pwm
                   then ev_simplified_mode_evse_limit_pwm else value)
      in emit_all [call_pwm_on (value * 100), signal_pwm_duty_cycle (value * 100)] s)"

definition set_cp_state_X1_flags :: "iec_state \<Rightarrow> iec_state" where
  "set_cp_state_X1_flags s = s\<lparr>pwm_running := False, cp_state_f_requested := False\<rparr>"

definition set_cp_state_X1_call :: "iec_state \<Rightarrow> iec_state" where
  "set_cp_state_X1_call s = emit_all [call_cp_state_X1, signal_pwm_duty_cycle 100] s"

definition set_cp_state_X1 :: "int \<Rightarrow> iec_state \<Rightarrow> iec_state" where
  "set_cp_state_X1 now s = feed_state_machine now None (set_cp_state_X1_call (set_cp_state_X1_flags s))"

definition set_cp_state_F_flags :: "iec_state \<Rightarrow> iec_state" where
  "set_cp_state_F_flags s = s\<lparr>pwm_running := False, cp_state_f_requested := True\<rparr>"

definition set_cp_state_F_call :: "iec_state \<Rightarrow> iec_state" where
  "set_cp_state_F_call s = emit_all [call_cp_state_F, signal_pwm_duty_cycle 100] s"

definition set_cp_state_F :: "int \<Rightarrow> iec_state \<Rightarrow> iec_state" where
  "set_cp_state_F now s = feed_state_machine now None (set_cp_state_F_call (set_cp_state_F_flags s))"

definition set_cp_state_E_flags :: "iec_state \<Rightarrow> iec_state" where
  "set_cp_state_E_flags s = s\<lparr>pwm_running := False, state_e_triggered_through_handle := True\<rparr>"

definition set_cp_state_E_call :: "iec_state \<Rightarrow> iec_state" where
  "set_cp_state_E_call s = emit_all [call_cp_state_E, signal_pwm_duty_cycle 100] s"

definition set_cp_state_E :: "int \<Rightarrow> iec_state \<Rightarrow> iec_state" where
  "set_cp_state_E now s = feed_state_machine now None (set_cp_state_E_call (set_cp_state_E_flags s))"

definition set_pwm :: "int \<Rightarrow> rat \<Rightarrow> iec_state \<Rightarrow> iec_state" where
  "set_pwm now value s =
     (if value \<ge> 1 then set_cp_state_X1 now s
      else if value \<le> 0 then set_cp_state_F now s
      else feed_state_machine now None (set_pwm_call value (set_pwm_flags s)))"

definition allow_power_on_flags :: "bool \<Rightarrow> Reason \<Rightarrow> iec_state \<Rightarrow> iec_state" where
  "allow_power_on_flags value reason s =
     (let s = s\<lparr>power_on_allowed := value, power_on_reason := reason\<rparr>
      in if \<not> value then call_allow_power_on_bsp False s else s)"

definition allow_power_on :: "int \<Rightarrow> bool \<Rightarrow> Reason \<Rightarrow> iec_state \<Rightarrow> iec_state" where
  "allow_power_on now value reason s = feed_state_machine now None (allow_power_on_flags value reason s)"

definition pp_amps :: "AcPhases \<Rightarrow> Ampacity \<Rightarrow> rat" where
  "pp_amps phases a = (case a of
       A_13 \<Rightarrow> 13 | A_20 \<Rightarrow> 20 | A_32 \<Rightarrow> 32
     | A_63_3ph_70_1ph \<Rightarrow> if phases = SinglePhase then 70 else 63
     | Ampacity_None \<Rightarrow> 0)"

definition set_pp_ampacity :: "int \<Rightarrow> Ampacity \<Rightarrow> iec_state \<Rightarrow> iec_state" where
  "set_pp_ampacity now a s =
     (let plug_was_present = (pp_ampacity s > 0);
          s = s\<lparr>pp_ampacity := pp_amps (max_phases s) a\<rparr>
      in if keep_cable_locked s
         then if pp_ampacity s = 0
              then (check_connector_lock (s\<lparr>captive_unlock_window := False, captive_lock_delay_elapsed := False\<rparr>))
                     \<lparr>timeout_captive_lock := None\<rparr>
              else if \<not> plug_was_present \<and> \<not> captive_lock_delay_elapsed s
              then if keep_cable_locked_lock_delay_ms s > 0
                   then (check_connector_lock s)\<lparr>timeout_captive_lock := Some (now, keep_cable_locked_lock_delay_ms s)\<rparr>
                   else check_connector_lock (s\<lparr>captive_lock_delay_elapsed := True\<rparr>)
              else check_connector_lock s
         else s)"

definition read_pp_ampacity :: "iec_state \<Rightarrow> rat option" where
  "read_pp_ampacity s = (if pp_ampacity s = 0 then None else Some (pp_ampacity s))"

definition switch_three_phases_while_charging :: "bool \<Rightarrow> iec_state \<Rightarrow> iec_state" where
  "switch_three_phases_while_charging n s = emit (call_ac_switch_three_phases_while_charging n) s"

definition setup_ventilation :: "bool \<Rightarrow> iec_state \<Rightarrow> iec_state" where
  "setup_ventilation v s = s\<lparr>has_ventilation := v\<rparr>"

definition enable_bsp :: "bool \<Rightarrow> iec_state \<Rightarrow> iec_state" where
  "enable_bsp en s = emit (call_enable en) (s\<lparr>bsp_enabled := en\<rparr>)"

definition set_overcurrent_limit :: "rat \<Rightarrow> iec_state \<Rightarrow> iec_state" where
  "set_overcurrent_limit amps s =
     (if amps \<noteq> last_amps s then (emit (call_ac_set_overcurrent_limit_A amps) s)\<lparr>last_amps := amps\<rparr> else s)"

definition set_authorized_flag :: "bool \<Rightarrow> iec_state \<Rightarrow> iec_state" where
  "set_authorized_flag a s = (if use_authorized s then s\<lparr>authorized := a\<rparr> else s)"

definition set_authorized :: "int \<Rightarrow> bool \<Rightarrow> iec_state \<Rightarrow> iec_state" where
  "set_authorized now a s =
     (if \<not> use_authorized s then s else feed_state_machine now None (set_authorized_flag a s))"

definition set_keep_cable_locked :: "bool \<Rightarrow> iec_state \<Rightarrow> iec_state" where
  "set_keep_cable_locked en s =
     (if keep_cable_locked s = en then s
      else (check_connector_lock (s\<lparr>keep_cable_locked := en, captive_unlock_window := False, captive_latched := False,
              captive_lock_delay_elapsed := (pp_ampacity s > 0)\<rparr>))\<lparr>timeout_captive_lock := None\<rparr>)"

definition set_max_phases :: "AcPhases \<Rightarrow> iec_state \<Rightarrow> iec_state" where
  "set_max_phases p s = s\<lparr>max_phases := p\<rparr>"

definition set_ev_simplified_mode_evse_limit :: "bool \<Rightarrow> iec_state \<Rightarrow> iec_state" where
  "set_ev_simplified_mode_evse_limit l s = s\<lparr>ev_simplified_mode_evse_limit := l\<rparr>"

section \<open>Threads\<close>

text \<open>
  What one thread does without interruption: a section under the mutex, a call of the driver or
  the access to an atomic member. The driver, the charger and the timers interleave them in any
  order. An evaluation may come at any time (a timer, or the end of a request); the captive timer
  only calls back once it is reached. The ventilation is configured before the first event.
\<close>

datatype iec_action =
    BspEvent bsp_event
  | Evaluate
  | PwmFlags
  | PwmCall rat
  | X1Flags
  | X1Call
  | FFlags
  | FCall
  | EFlags
  | ECall
  | AllowPowerOn bool Reason
  | PpAmpacity Ampacity
  | SwitchPhases bool
  | Enable bool
  | OvercurrentLimit rat
  | ForceUnlock
  | AuthorizedFlag bool
  | KeepCableLocked bool
  | CaptiveTimer
  | MaxPhases AcPhases
  | SimplifiedLimit bool

fun perform :: "int \<Rightarrow> iec_action \<Rightarrow> iec_state \<Rightarrow> iec_state" where
  "perform now (BspEvent e) s = bsp_subscription now e s"
| "perform now Evaluate s = feed_state_machine now None s"
| "perform now PwmFlags s = set_pwm_flags s"
| "perform now (PwmCall v) s = set_pwm_call v s"
| "perform now X1Flags s = set_cp_state_X1_flags s"
| "perform now X1Call s = set_cp_state_X1_call s"
| "perform now FFlags s = set_cp_state_F_flags s"
| "perform now FCall s = set_cp_state_F_call s"
| "perform now EFlags s = set_cp_state_E_flags s"
| "perform now ECall s = set_cp_state_E_call s"
| "perform now (AllowPowerOn v r) s = allow_power_on_flags v r s"
| "perform now (PpAmpacity a) s = set_pp_ampacity now a s"
| "perform now (SwitchPhases n) s = switch_three_phases_while_charging n s"
| "perform now (Enable en) s = enable_bsp en s"
| "perform now (OvercurrentLimit a) s = set_overcurrent_limit a s"
| "perform now ForceUnlock s = connector_force_unlock s"
| "perform now (AuthorizedFlag a) s = set_authorized_flag a s"
| "perform now (KeepCableLocked en) s = set_keep_cable_locked en s"
| "perform now CaptiveTimer s = captive_lock_reached s"
| "perform now (MaxPhases p) s = set_max_phases p s"
| "perform now (SimplifiedLimit l) s = set_ev_simplified_mode_evse_limit l s"

definition iec_start :: "iec_state \<Rightarrow> bool" where
  "iec_start s = (\<exists>lock_in_b use_auth keep_locked delay_ms v.
     s = setup_ventilation v (iec_init lock_in_b use_auth keep_locked delay_ms))"

definition iec_trans :: "int \<times> iec_action \<Rightarrow> iec_state \<Rightarrow> iec_state \<Rightarrow> bool" where
  "iec_trans e s s' = (case e of (now, a) \<Rightarrow>
     (a = CaptiveTimer \<longrightarrow> timeout_reached now (timeout_captive_lock s)) \<and> s' = perform now a s)"

text \<open>The actions that a request of the charger consists of.\<close>

definition pwm_actions :: "rat \<Rightarrow> iec_action list" where
  "pwm_actions v = (if v \<ge> 1 then [X1Flags, X1Call, Evaluate] else if v \<le> 0 then [FFlags, FCall, Evaluate]
     else [PwmFlags, PwmCall v, Evaluate])"

definition iec_run :: "(int \<times> iec_action) list \<Rightarrow> iec_state \<Rightarrow> iec_state" where
  "iec_run es s = fold (\<lambda>(now, a). perform now a) es s"

lemma requests_are_actions:
  "set_pwm now v s = iec_run (map (Pair now) (pwm_actions v)) s"
  "set_cp_state_X1 now s = iec_run [(now, X1Flags), (now, X1Call), (now, Evaluate)] s"
  "set_cp_state_F now s = iec_run [(now, FFlags), (now, FCall), (now, Evaluate)] s"
  "set_cp_state_E now s = iec_run [(now, EFlags), (now, ECall), (now, Evaluate)] s"
  "allow_power_on now b r s = iec_run [(now, AllowPowerOn b r), (now, Evaluate)] s"
  "use_authorized s \<Longrightarrow> set_authorized now b s = iec_run [(now, AuthorizedFlag b), (now, Evaluate)] s"
  by (simp_all add: iec_run_def pwm_actions_def set_pwm_def set_cp_state_X1_def set_cp_state_F_def
      set_cp_state_E_def allow_power_on_def set_authorized_def)

section \<open>What the parts leave alone\<close>

lemma check_connector_lock_frame [simp]:
  "power_on_allowed (check_connector_lock s) = power_on_allowed s"
  "last_power_on_allowed (check_connector_lock s) = last_power_on_allowed s"
  "last_power_on_forwarded (check_connector_lock s) = last_power_on_forwarded s"
  "pwm_running (check_connector_lock s) = pwm_running s"
  "last_pwm_running (check_connector_lock s) = last_pwm_running s"
  "last_cp_state (check_connector_lock s) = last_cp_state s"
  "has_ventilation (check_connector_lock s) = has_ventilation s"
  "timeout_state_c1 (check_connector_lock s) = timeout_state_c1 s"
  "timeout_unlock_state_F (check_connector_lock s) = timeout_unlock_state_F s"
  "timeout_captive_lock (check_connector_lock s) = timeout_captive_lock s"
  "pp_ampacity (check_connector_lock s) = pp_ampacity s"
  "keep_cable_locked (check_connector_lock s) = keep_cable_locked s"
  "captive_unlock_window (check_connector_lock s) = captive_unlock_window s"
  "captive_lock_delay_elapsed (check_connector_lock s) = captive_lock_delay_elapsed s"
  "keep_cable_locked_lock_delay_ms (check_connector_lock s) = keep_cable_locked_lock_delay_ms s"
  "relais_on (check_connector_lock s) = relais_on s"
  "signalled_raw_cp_state (check_connector_lock s) = signalled_raw_cp_state s"
  "bsp_enabled (check_connector_lock s) = bsp_enabled s"
  by (simp_all add: check_connector_lock_def emit_def Let_def)

definition power_command :: "iec_output \<Rightarrow> bool option" where
  "power_command e = (case e of call_allow_power_on v r \<Rightarrow> Some v | _ \<Rightarrow> None)"

definition lock_command :: "iec_output \<Rightarrow> bool option" where
  "lock_command e = (case e of signal_lock \<Rightarrow> Some True | signal_unlock \<Rightarrow> Some False | _ \<Rightarrow> None)"

lemma command_simps [simp]:
  "power_command (call_allow_power_on v r) = Some v"
  "power_command call_cp_state_X1 = None" "power_command call_cp_state_E = None"
  "power_command call_cp_state_F = None" "power_command (call_pwm_on x) = None"
  "power_command (call_enable b) = None" "power_command (call_ac_switch_three_phases_while_charging b) = None"
  "power_command (call_ac_set_overcurrent_limit_A x) = None" "power_command (signal_event c) = None"
  "power_command signal_lock = None" "power_command signal_unlock = None"
  "power_command (signal_raw_cp_state_changed cp) = None" "power_command (signal_pwm_duty_cycle x) = None"
  "lock_command (call_allow_power_on v r) = None"
  "lock_command call_cp_state_X1 = None" "lock_command call_cp_state_E = None"
  "lock_command call_cp_state_F = None" "lock_command (call_pwm_on x) = None"
  "lock_command (call_enable b) = None" "lock_command (call_ac_switch_three_phases_while_charging b) = None"
  "lock_command (call_ac_set_overcurrent_limit_A x) = None" "lock_command (signal_event c) = None"
  "lock_command signal_lock = Some True" "lock_command signal_unlock = Some False"
  "lock_command (signal_raw_cp_state_changed cp) = None" "lock_command (signal_pwm_duty_cycle x) = None"
  by (simp_all add: power_command_def lock_command_def)

end
