(* ===== verification/IEC_Safety.thy ===== *)
theory IEC_Safety
  imports IEC_State_Machine
begin

text \<open>
  What the control pilot state machine guarantees in every interleaving of the driver, the
  charger and the timers: when the contactors may be closed, that they are opened six seconds
  after the pilot signal ends, that a closed contactor keeps the plug locked, and that the
  captive cable mode behaves as a small automaton.
\<close>

section \<open>Power\<close>

definition may_power :: "RawCPState \<Rightarrow> iec_state \<Rightarrow> bool" where
  "may_power cp s = (power_on_allowed s \<and> (cp = CP_C \<or> cp = CP_D \<and> has_ventilation s))"

definition pilot_off_for :: "int \<Rightarrow> async_timeout \<Rightarrow> bool" where
  "pilot_off_for now t = (\<exists>t0. t = Some (t0, power_off_under_load_in_c1_timeout) \<and>
     now - t0 \<le> power_off_under_load_in_c1_timeout)"

definition power_inv :: "iec_state \<Rightarrow> bool" where
  "power_inv s =
     ((last_power_on_forwarded s \<longrightarrow>
        may_power (last_cp_state s) s \<and> (last_pwm_running s \<or> timeout_state_c1 s \<noteq> None)) \<and>
      (\<forall>t0 d. timeout_state_c1 s = Some (t0, d) \<longrightarrow>
        d = power_off_under_load_in_c1_timeout \<and> last_cp_state s \<in> {CP_C, CP_D}) \<and>
      latest power_command (outputs s) = last_power_on_forwarded s)"

text \<open>What an evaluation leaves behind, before the timers are started and stopped.\<close>

definition power_after :: "int \<Rightarrow> RawCPState \<Rightarrow> iec_result \<Rightarrow> bool" where
  "power_after now cp r = (case r of (s, events, t) \<Rightarrow>
     (last_power_on_forwarded s \<longrightarrow> may_power cp s \<and>
        (pwm_running s \<or> pilot_off_for now (timer_control now power_off_under_load_in_c1_timeout t (timeout_state_c1 s)))) \<and>
     (\<forall>t0 d. timer_control now power_off_under_load_in_c1_timeout t (timeout_state_c1 s) = Some (t0, d) \<longrightarrow>
        d = power_off_under_load_in_c1_timeout \<and> cp \<in> {CP_C, CP_D}) \<and>
     latest power_command (outputs s) = last_power_on_forwarded s)"

lemmas part_defs = call_allow_power_on_bsp_def reset_to_X1_def connector_lock_def connector_unlock_def
  emit_def emit_all_def

lemma power_after_Disabled: "power_inv s \<Longrightarrow> power_after now CP_Disabled (enter_Disabled s)"
  by (auto simp: power_inv_def power_after_def may_power_def enter_Disabled_def part_defs Let_def timer_control_def)

lemma power_after_A: "power_inv s \<Longrightarrow> power_after now CP_A (enter_A s)"
  by (auto simp: power_inv_def power_after_def may_power_def enter_A_def part_defs Let_def timer_control_def)

lemma power_after_B: "power_inv s \<Longrightarrow> power_after now CP_B (enter_B s)"
  by (auto simp: power_inv_def power_after_def may_power_def enter_B_def part_defs Let_def timer_control_def)

lemma power_after_E: "power_inv s \<Longrightarrow> power_after now CP_E (enter_E s)"
  by (auto simp: power_inv_def power_after_def may_power_def enter_E_def part_defs Let_def timer_control_def)

lemma power_after_F: "power_inv s \<Longrightarrow> power_after now CP_F (enter_F now s)"
  by (auto simp: power_inv_def power_after_def may_power_def enter_F_def part_defs Let_def timer_control_def)

lemma power_after_C:
  assumes "power_inv s" and "cp = CP_C \<or> cp = CP_D \<and> has_ventilation s"
  shows "power_after now cp (enter_C now s)"
  using assms
  by (auto simp: power_inv_def power_after_def may_power_def enter_C_def part_defs Let_def timer_control_def
      pilot_off_for_def timeout_reached_def power_off_under_load_in_c1_timeout_def)

lemma power_after_D:
  assumes "power_inv s"
  shows "power_after now CP_D (enter_D now s)"
proof (cases "has_ventilation s")
  case True
  moreover have "power_inv (connector_lock s)"
    using assms by (simp add: power_inv_def may_power_def connector_lock_def)
  ultimately show ?thesis
    by (simp add: enter_D_def power_after_C connector_lock_def)
next
  case False
  then show ?thesis
    using assms by (simp add: power_inv_def power_after_def enter_D_def part_defs Let_def timer_control_def)
qed

lemma power_after_enter: "power_inv s \<Longrightarrow> power_after now cp (enter_state now cp s)"
  by (cases cp) (simp_all add: enter_state_def power_after_Disabled power_after_A power_after_B power_after_C
      power_after_D power_after_E power_after_F)

lemma latest_events [simp]:
  "latest_from power_command b (map signal_event events) = b"
  "latest_from lock_command b (map signal_event events) = b"
  by (simp_all add: latest_from_other list_all_iff)

lemma latest_power_check [simp]:
  "latest power_command (outputs (check_connector_lock s)) = latest power_command (outputs s)"
  by (simp add: check_connector_lock_def emit_def Let_def)

text \<open>The state after an evaluation, in terms of what entering the pilot state gives.\<close>

definition settled :: "int \<Rightarrow> RawCPState \<Rightarrow> RawCPState \<Rightarrow> iec_result \<Rightarrow> iec_state" where
  "settled now prev cp r = (case r of (s, events, t) \<Rightarrow>
     let s = check_connector_lock s
     in s\<lparr>last_cp_state := cp, last_pwm_running := pwm_running s, last_power_on_allowed := power_on_allowed s,
          timeout_state_c1 := timer_control now power_off_under_load_in_c1_timeout t (timeout_state_c1 s),
          timeout_unlock_state_F := timer_control now unlock_in_state_f_timeout
            (if cp \<noteq> CP_F \<and> prev = CP_F then timer_stop else if cp = CP_F \<and> prev \<noteq> CP_F then timer_start else do_nothing)
            (timeout_unlock_state_F s)\<rparr>)"

definition new_state :: "RawCPState option \<Rightarrow> iec_state \<Rightarrow> RawCPState" where
  "new_state cp_opt s = (case cp_opt of Some cp \<Rightarrow> cp | None \<Rightarrow> last_cp_state s)"

lemma feed_outputs:
  assumes "state_machine now cp_opt s = (s', events)"
  obtains raw outs where "feed_state_machine now cp_opt s = s'\<lparr>signalled_raw_cp_state := raw, outputs := outputs s' @ outs\<rparr>"
    and "list_all (\<lambda>e. power_command e = None \<and> lock_command e = None) outs"
proof
  let ?raw = "case cp_opt of Some c \<Rightarrow> c | None \<Rightarrow> signalled_raw_cp_state s'"
  let ?outs = "(if ?raw \<noteq> signalled_raw_cp_state s' then [signal_raw_cp_state_changed ?raw] else []) @ map signal_event events"
  show "feed_state_machine now cp_opt s = s'\<lparr>signalled_raw_cp_state := ?raw, outputs := outputs s' @ ?outs\<rparr>"
    using assms by (cases s', cases cp_opt) (simp_all add: feed_state_machine_def emit_all_def emit_def)
  show "list_all (\<lambda>e. power_command e = None \<and> lock_command e = None) ?outs"
    by (auto simp: list_all_iff)
qed

lemma feed_settled:
  assumes "enter_state now (new_state cp_opt s) s = r"
  obtains raw outs where "feed_state_machine now cp_opt s = (settled now (last_cp_state s) (new_state cp_opt s) r)
        \<lparr>signalled_raw_cp_state := raw, outputs := outputs (settled now (last_cp_state s) (new_state cp_opt s) r) @ outs\<rparr>"
    and "list_all (\<lambda>e. power_command e = None \<and> lock_command e = None) outs"
proof -
  obtain s' events t where r: "r = (s', events, t)"
    by (cases r)
  then have "state_machine now cp_opt s = (settled now (last_cp_state s) (new_state cp_opt s) r, events)"
    using assms by (simp add: state_machine_def settled_def new_state_def Let_def)
  then show thesis
    by (rule feed_outputs) (rule that)
qed

lemma latest_feed:
  assumes "list_all (\<lambda>e. power_command e = None \<and> lock_command e = None) outs"
  shows "latest_from power_command b outs = b" and "latest_from lock_command b outs = b"
  using assms by (auto intro!: latest_from_other simp: list_all_iff)

lemma power_after_settled:
  assumes "power_after now cp (s, events, t)"
  shows "power_inv (settled now prev cp (s, events, t))"
    and "last_power_on_forwarded (settled now prev cp (s, events, t)) \<Longrightarrow>
      may_power cp (settled now prev cp (s, events, t)) \<and>
      (pwm_running (settled now prev cp (s, events, t)) \<or>
       pilot_off_for now (timeout_state_c1 (settled now prev cp (s, events, t))))"
  using assms
  by (auto simp: power_inv_def power_after_def settled_def may_power_def Let_def pilot_off_for_def
      timer_control_def split: TimerControl.splits)

text \<open>An evaluation keeps the invariant and leaves power only where it may be.\<close>

lemma power_feed:
  assumes "power_inv s"
  shows "power_inv (feed_state_machine now cp_opt s)"
    and "last_power_on_forwarded (feed_state_machine now cp_opt s) \<Longrightarrow>
      may_power (last_cp_state (feed_state_machine now cp_opt s)) (feed_state_machine now cp_opt s) \<and>
      (pwm_running (feed_state_machine now cp_opt s) \<or>
       pilot_off_for now (timeout_state_c1 (feed_state_machine now cp_opt s)))"
proof -
  let ?cp = "new_state cp_opt s"
  obtain s' events t where e: "enter_state now ?cp s = (s', events, t)"
    by (cases "enter_state now ?cp s")
  obtain raw outs where f: "feed_state_machine now cp_opt s = (settled now (last_cp_state s) ?cp (s', events, t))
        \<lparr>signalled_raw_cp_state := raw, outputs := outputs (settled now (last_cp_state s) ?cp (s', events, t)) @ outs\<rparr>"
      and o: "list_all (\<lambda>e. power_command e = None \<and> lock_command e = None) outs"
    by (rule feed_settled [OF e])
  have a: "power_after now ?cp (s', events, t)"
    using power_after_enter [OF assms, of now ?cp] e by simp
  show "power_inv (feed_state_machine now cp_opt s)"
    using power_after_settled(1) [OF a] f latest_feed(1) [OF o] by (simp add: power_inv_def may_power_def)
  show "may_power (last_cp_state (feed_state_machine now cp_opt s)) (feed_state_machine now cp_opt s) \<and>
      (pwm_running (feed_state_machine now cp_opt s) \<or> pilot_off_for now (timeout_state_c1 (feed_state_machine now cp_opt s)))"
    if "last_power_on_forwarded (feed_state_machine now cp_opt s)"
    using power_after_settled(2) [OF a, of "last_cp_state s"] f that
    by (simp add: may_power_def) (simp add: settled_def Let_def)
qed

lemmas request_defs = set_pwm_flags_def set_pwm_call_def set_cp_state_X1_flags_def set_cp_state_X1_call_def
  set_cp_state_F_flags_def set_cp_state_F_call_def set_cp_state_E_flags_def set_cp_state_E_call_def
  switch_three_phases_while_charging_def enable_bsp_def set_overcurrent_limit_def set_authorized_flag_def
  set_max_phases_def set_ev_simplified_mode_evse_limit_def emit_def emit_all_def

text \<open>Most actions change nothing that matters for the contactors.\<close>

definition power_view :: "iec_state \<Rightarrow> bool \<times> bool \<times> RawCPState \<times> bool \<times> bool \<times> async_timeout \<times> bool" where
  "power_view s = (last_power_on_forwarded s, power_on_allowed s, last_cp_state s, has_ventilation s,
     last_pwm_running s, timeout_state_c1 s, latest power_command (outputs s))"

lemma power_inv_view: "power_inv s \<Longrightarrow> power_view s' = power_view s \<Longrightarrow> power_inv s'"
  by (simp add: power_inv_def may_power_def power_view_def)

lemma power_view_process: "power_view (process_cp_event event s) = power_view s"
  by (simp add: power_view_def process_cp_event_def emit_def Let_def)

lemma power_bsp: "power_inv s \<Longrightarrow> power_inv (bsp_subscription now e s)"
  by (cases e) (simp_all add: bsp_subscription_def process_bsp_event_def power_feed power_inv_view [OF _ power_view_process])

lemma power_allow: "power_inv s \<Longrightarrow> power_inv (allow_power_on_flags v r s)"
  by (cases v) (simp_all add: allow_power_on_flags_def call_allow_power_on_bsp_def emit_def power_inv_def may_power_def Let_def)

lemma power_perform:
  assumes "power_inv s"
  shows "power_inv (perform now a s)"
proof (cases "a = Evaluate \<or> (\<exists>e. a = BspEvent e) \<or> (\<exists>v r. a = AllowPowerOn v r)")
  case True
  then show ?thesis
    using assms by (auto simp: power_feed power_bsp power_allow)
next
  case False
  then have "power_view (perform now a s) = power_view s"
    by (cases a) (simp_all add: power_view_def request_defs set_pp_ampacity_def connector_force_unlock_def
        captive_lock_reached_def set_keep_cable_locked_def Let_def)
  then show ?thesis
    by (rule power_inv_view [OF assms])
qed

interpretation power: invariant_system iec_start iec_trans power_inv
proof
  show "power_inv s" if "iec_start s" for s
    using that by (auto simp: iec_start_def setup_ventilation_def iec_init_def power_inv_def)
  show "power_inv s'" if "power_inv s" and "iec_trans e s s'" for s s' and e :: "int \<times> iec_action"
    using that power_perform by (cases e) (simp add: iec_trans_def)
qed

section \<open>The lock\<close>

definition lock_pre :: "iec_state \<Rightarrow> bool" where
  "lock_pre s =
     (latest lock_command (outputs s) = is_locked s \<and>
      (captive_unlock_window s \<longrightarrow> keep_cable_locked s \<and> pp_ampacity s > 0 \<and> \<not> captive_latched s) \<and>
      (captive_latched s \<longrightarrow> keep_cable_locked s) \<and> pp_ampacity s \<ge> 0 \<and>
      (keep_cable_locked s \<and> captive_lock_delay_elapsed s \<longrightarrow> pp_ampacity s > 0))"

definition lock_inv :: "iec_state \<Rightarrow> bool" where
  "lock_inv s =
     (lock_pre s \<and> (relais_on s \<longrightarrow> is_locked s) \<and> (captive_latched s \<longrightarrow> is_locked s) \<and>
      (keep_cable_locked s \<and> captive_lock_delay_elapsed s \<and> \<not> captive_unlock_window s \<longrightarrow> captive_latched s))"

lemma lock_check: "lock_pre s \<Longrightarrow> lock_inv (check_connector_lock s)"
  by (auto simp: lock_pre_def lock_inv_def check_connector_lock_def emit_def Let_def)

text \<open>What the lock depends on, apart from what \<^const>\<open>check_connector_lock\<close> is about to decide.\<close>

definition lock_view :: "iec_state \<Rightarrow> bool \<times> bool \<times> bool \<times> bool \<times> bool \<times> rat \<times> bool \<times> bool \<times> int" where
  "lock_view s = (latest lock_command (outputs s), is_locked s, relais_on s, captive_unlock_window s, captive_latched s,
     pp_ampacity s, keep_cable_locked s, captive_lock_delay_elapsed s, keep_cable_locked_lock_delay_ms s)"

lemma lock_inv_view: "lock_inv s \<Longrightarrow> lock_view s' = lock_view s \<Longrightarrow> lock_inv s'"
  by (simp add: lock_inv_def lock_pre_def lock_view_def)

lemma lock_pre_view: "lock_inv s \<Longrightarrow> lock_view s' = lock_view s \<Longrightarrow> lock_pre s'"
  by (simp add: lock_inv_def lock_pre_def lock_view_def)

lemma lock_view_parts [simp]:
  "lock_view (call_allow_power_on_bsp v s) = lock_view s"
  "lock_view (reset_to_X1 s) = lock_view s"
  "lock_view (connector_lock s) = lock_view s"
  "lock_view (connector_unlock s) = lock_view s"
  "lock_view (s\<lparr>pwm_running := b\<rparr>) = lock_view s"
  "lock_view (s\<lparr>ev_simplified_mode := b\<rparr>) = lock_view s"
  "lock_view (s\<lparr>car_plugged_in := b\<rparr>) = lock_view s"
  "lock_view (s\<lparr>state_e_triggered_through_handle := b\<rparr>) = lock_view s"
  by (simp_all add: lock_view_def part_defs Let_def)

lemma lock_view_C: "lock_view (fst (enter_C now s)) = lock_view s"
  by (simp add: enter_C_def Let_def if_distrib [of lock_view] del: if_split)

lemma lock_view_enter: "lock_view (fst (enter_state now cp s)) = lock_view s"
  by (cases cp) (simp_all add: enter_state_def enter_Disabled_def enter_A_def enter_B_def enter_D_def
      enter_E_def enter_F_def lock_view_C Let_def if_distrib [of lock_view] if_distrib [of fst] del: if_split)

section \<open>The captive cable mode\<close>

text \<open>
  The mode as an automaton. The flag of \<open>Inactive\<close> and \<open>Held\<close> tells whether the proximity pilot reports a
  plug; a held cable stays held when the report is lost.
\<close>

datatype captive_phase =
    Inactive bool
  | Vacant
  | Seating
  | Held bool
  | Released

datatype captive_event =
    PlugSeen
  | PlugGone
  | SeatingElapsed
  | UnlockForced
  | ModeOn
  | ModeOff
  | Unrelated

definition captive_step :: "bool \<Rightarrow> captive_event \<Rightarrow> captive_phase \<Rightarrow> captive_phase" where
  "captive_step delayed e c = (case e of
       PlugSeen \<Rightarrow> (case c of Inactive _ \<Rightarrow> Inactive True | Vacant \<Rightarrow> if delayed then Seating else Held True
                         | Held _ \<Rightarrow> Held True | _ \<Rightarrow> c)
     | PlugGone \<Rightarrow> (case c of Inactive _ \<Rightarrow> Inactive False | Held _ \<Rightarrow> Held False | _ \<Rightarrow> Vacant)
     | SeatingElapsed \<Rightarrow> (if c = Seating then Held True else c)
     | UnlockForced \<Rightarrow> (case c of Seating \<Rightarrow> Released | Held p \<Rightarrow> if p then Released else Vacant | _ \<Rightarrow> c)
     | ModeOn \<Rightarrow> (case c of Inactive p \<Rightarrow> if p then Held True else Vacant | _ \<Rightarrow> c)
     | ModeOff \<Rightarrow> (case c of Vacant \<Rightarrow> Inactive False | Seating \<Rightarrow> Inactive True | Held p \<Rightarrow> Inactive p
                        | Released \<Rightarrow> Inactive True | _ \<Rightarrow> c)
     | Unrelated \<Rightarrow> c)"

definition captive_start :: "bool \<times> captive_phase \<Rightarrow> bool" where
  "captive_start v = (snd v = Vacant \<or> snd v = Inactive False)"

definition captive_trans :: "captive_event \<Rightarrow> bool \<times> captive_phase \<Rightarrow> bool \<times> captive_phase \<Rightarrow> bool" where
  "captive_trans e v v' = (v' = (fst v, captive_step (fst v) e (snd v)))"

text \<open>How the state machine and its actions appear to the automaton.\<close>

definition captive_view :: "iec_state \<Rightarrow> bool \<times> captive_phase" where
  "captive_view s =
     (keep_cable_locked_lock_delay_ms s > 0,
      if \<not> keep_cable_locked s then Inactive (pp_ampacity s > 0)
      else if captive_latched s then Held (pp_ampacity s > 0)
      else if \<not> pp_ampacity s > 0 then Vacant
      else if captive_unlock_window s then Released else Seating)"

definition captive_event_of :: "int \<times> iec_action \<Rightarrow> captive_event" where
  "captive_event_of e = (case snd e of
       PpAmpacity a \<Rightarrow> if a = Ampacity_None then PlugGone else PlugSeen
     | CaptiveTimer \<Rightarrow> SeatingElapsed
     | ForceUnlock \<Rightarrow> UnlockForced
     | KeepCableLocked en \<Rightarrow> if en then ModeOn else ModeOff
     | _ \<Rightarrow> Unrelated)"

lemma captive_view_eq: "lock_view s' = lock_view s \<Longrightarrow> captive_view s' = captive_view s"
  by (simp add: lock_view_def captive_view_def)

lemma captive_latched_check:
  "captive_latched (check_connector_lock s) = (captive_latched s \<or>
     keep_cable_locked s \<and> pp_ampacity s > 0 \<and> captive_lock_delay_elapsed s \<and> \<not> captive_unlock_window s)"
  by (auto simp: check_connector_lock_def emit_def Let_def)

lemma captive_view_check:
  assumes "lock_inv s" and "lock_view s' = lock_view s"
  shows "captive_view (check_connector_lock s') = captive_view s"
proof -
  have "captive_latched (check_connector_lock s') = captive_latched s"
    using assms unfolding captive_latched_check lock_inv_def lock_view_def by blast
  then show ?thesis
    using assms(2) by (simp add: captive_view_def lock_view_def)
qed

lemma lock_feed:
  assumes "lock_inv s"
  shows "lock_inv (feed_state_machine now cp_opt s) \<and> captive_view (feed_state_machine now cp_opt s) = captive_view s"
proof -
  let ?cp = "new_state cp_opt s"
  obtain s' events t where e: "enter_state now ?cp s = (s', events, t)"
    by (cases "enter_state now ?cp s")
  then have v: "lock_view s' = lock_view s"
    using lock_view_enter [of now ?cp s] by simp
  obtain raw outs where f: "feed_state_machine now cp_opt s = (settled now (last_cp_state s) ?cp (s', events, t))
        \<lparr>signalled_raw_cp_state := raw, outputs := outputs (settled now (last_cp_state s) ?cp (s', events, t)) @ outs\<rparr>"
      and o: "list_all (\<lambda>e. power_command e = None \<and> lock_command e = None) outs"
    by (rule feed_settled [OF e])
  have "lock_view (feed_state_machine now cp_opt s) = lock_view (check_connector_lock s')"
    unfolding f by (simp add: lock_view_def settled_def Let_def latest_feed(2) [OF o])
  from lock_inv_view [OF lock_check [OF lock_pre_view [OF assms v]] this] captive_view_eq [OF this]
  show ?thesis
    using captive_view_check [OF assms v] by simp
qed

lemma lock_process:
  assumes "lock_inv s"
  shows "lock_inv (process_cp_event event s) \<and> captive_view (process_cp_event event s) = captive_view s"
proof -
  let ?s = "if event = PowerOn then s\<lparr>relais_on := True\<rparr> else if event = PowerOff then s\<lparr>relais_on := False\<rparr> else s"
  have p: "process_cp_event event s = emit (signal_event event) (check_connector_lock ?s)"
    by (simp add: process_cp_event_def Let_def)
  have v: "lock_view (process_cp_event event s) = lock_view (check_connector_lock ?s)"
    unfolding p by (simp add: lock_view_def emit_def)
  have "lock_inv (check_connector_lock ?s)"
    using assms by (intro lock_check) (simp add: lock_inv_def lock_pre_def)
  moreover have "captive_view (check_connector_lock ?s) = captive_view s"
    using assms by (auto simp: lock_inv_def captive_view_def captive_latched_check)
  ultimately show ?thesis
    using lock_inv_view [OF _ v] captive_view_eq [OF v] by simp
qed

lemma lock_bsp:
  assumes "lock_inv s"
  shows "lock_inv (bsp_subscription now e s) \<and> captive_view (bsp_subscription now e s) = captive_view s"
  using assms lock_feed [OF assms] lock_process [OF assms]
  by (cases "from_bsp_event e") (simp_all add: bsp_subscription_def process_bsp_event_def)

lemma lock_force_unlock:
  assumes "lock_inv s"
  shows "lock_inv (connector_force_unlock s) \<and>
    captive_view (connector_force_unlock s) = (fst (captive_view s), captive_step (fst (captive_view s)) UnlockForced (snd (captive_view s)))"
proof -
  define u where "u = (let s = (if keep_cable_locked s
      then s\<lparr>captive_unlock_window := (pp_ampacity s > 0 \<or> captive_unlock_window s), captive_latched := False\<rparr> else s)
    in if \<not> relais_on s then (emit signal_unlock s)\<lparr>is_locked := False\<rparr> else s)"
  have f: "connector_force_unlock s = (if last_cp_state s = CP_B \<or> last_cp_state s = CP_C
      then check_connector_lock (u\<lparr>force_unlocked := True\<rparr>) else u)"
    by (simp add: connector_force_unlock_def u_def Let_def)
  have u: "lock_inv u"
    using assms by (cases "relais_on s"; cases "keep_cable_locked s")
      (auto simp: u_def lock_inv_def lock_pre_def emit_def Let_def)
  have c: "captive_view u = (fst (captive_view s), captive_step (fst (captive_view s)) UnlockForced (snd (captive_view s)))"
    using assms by (cases "relais_on s"; cases "keep_cable_locked s"; cases "captive_latched s")
      (auto simp: u_def lock_inv_def lock_pre_def emit_def captive_view_def captive_step_def)
  have v: "lock_view (u\<lparr>force_unlocked := True\<rparr>) = lock_view u"
    by (simp add: lock_view_def)
  show ?thesis
    using u c lock_check [OF lock_pre_view [OF u v]] captive_view_check [OF u v] by (simp add: f)
qed

lemma pp_amps_facts: "pp_amps p a \<ge> 0" "pp_amps p a = 0 \<longleftrightarrow> a = Ampacity_None" "pp_amps p a > 0 \<longleftrightarrow> a \<noteq> Ampacity_None"
  by (cases a; simp add: pp_amps_def)+

text \<open>The proximity pilot: the flags as the report leaves them, then the lock is decided.\<close>

definition pp_flags :: "Ampacity \<Rightarrow> iec_state \<Rightarrow> iec_state" where
  "pp_flags a s = s\<lparr>pp_ampacity := pp_amps (max_phases s) a,
     captive_unlock_window := (captive_unlock_window s \<and> a \<noteq> Ampacity_None),
     captive_lock_delay_elapsed := (a \<noteq> Ampacity_None \<and>
       (captive_lock_delay_elapsed s \<or> \<not> pp_ampacity s > 0 \<and> \<not> keep_cable_locked_lock_delay_ms s > 0))\<rparr>"

lemma pp_view:
  assumes "keep_cable_locked s"
  shows "lock_view (set_pp_ampacity now a s) = lock_view (check_connector_lock (pp_flags a s))"
proof (cases "a = Ampacity_None")
  case True
  then show ?thesis
    using assms by (simp add: set_pp_ampacity_def pp_flags_def pp_amps_facts Let_def lock_view_def)
next
  case False
  then have "pp_flags a s = (if \<not> pp_ampacity s > 0 \<and> \<not> captive_lock_delay_elapsed s \<and> \<not> keep_cable_locked_lock_delay_ms s > 0
      then s\<lparr>pp_ampacity := pp_amps (max_phases s) a, captive_lock_delay_elapsed := True\<rparr>
      else s\<lparr>pp_ampacity := pp_amps (max_phases s) a\<rparr>)"
    by (cases s) (simp add: pp_flags_def)
  then show ?thesis
    using False assms by (simp add: set_pp_ampacity_def pp_amps_facts Let_def) (simp add: lock_view_def)
qed

lemma lock_pp:
  assumes "lock_inv s"
  shows "lock_inv (set_pp_ampacity now a s) \<and>
    captive_view (set_pp_ampacity now a s) = (fst (captive_view s), captive_step (fst (captive_view s))
      (if a = Ampacity_None then PlugGone else PlugSeen) (snd (captive_view s)))"
proof (cases "keep_cable_locked s")
  case True
  have "lock_pre (pp_flags a s)"
    using assms True by (auto simp: lock_inv_def lock_pre_def pp_flags_def pp_amps_facts)
  then have "lock_inv (set_pp_ampacity now a s)"
    by (rule lock_inv_view [OF lock_check pp_view [OF True]])
  moreover have "captive_view (set_pp_ampacity now a s) = captive_view (check_connector_lock (pp_flags a s))"
    by (rule captive_view_eq [OF pp_view [OF True]])
  moreover have "captive_view (check_connector_lock (pp_flags a s)) = (fst (captive_view s), captive_step (fst (captive_view s))
      (if a = Ampacity_None then PlugGone else PlugSeen) (snd (captive_view s)))"
    using assms True
    by (cases "a = Ampacity_None"; cases "captive_latched s"; cases "pp_ampacity s > 0")
       (auto simp: lock_inv_def lock_pre_def captive_view_def captive_latched_check pp_flags_def pp_amps_facts captive_step_def)
  ultimately show ?thesis
    by simp
next
  case False
  then show ?thesis
    using assms by (auto simp: set_pp_ampacity_def lock_inv_def lock_pre_def captive_view_def captive_step_def pp_amps_facts Let_def)
qed

lemma lock_timer:
  assumes "lock_inv s"
  shows "lock_inv (captive_lock_reached s) \<and>
    captive_view (captive_lock_reached s) = (fst (captive_view s), captive_step (fst (captive_view s)) SeatingElapsed (snd (captive_view s)))"
proof -
  let ?s = "if pp_ampacity s > 0 then s\<lparr>captive_lock_delay_elapsed := True\<rparr> else s"
  have "lock_inv (check_connector_lock ?s)"
    using assms by (intro lock_check) (auto simp: lock_inv_def lock_pre_def)
  moreover have "captive_view (check_connector_lock ?s) =
      (fst (captive_view s), captive_step (fst (captive_view s)) SeatingElapsed (snd (captive_view s)))"
    using assms by (cases "captive_latched s"; cases "pp_ampacity s > 0")
      (auto simp: lock_inv_def lock_pre_def captive_view_def captive_latched_check captive_step_def)
  ultimately show ?thesis
    by (simp add: captive_lock_reached_def)
qed

lemma mode_view:
  assumes "keep_cable_locked s \<noteq> en"
  shows "lock_view (set_keep_cable_locked en s) = lock_view (check_connector_lock (s\<lparr>keep_cable_locked := en,
    captive_unlock_window := False, captive_latched := False, captive_lock_delay_elapsed := (pp_ampacity s > 0)\<rparr>))"
  using assms by (simp add: set_keep_cable_locked_def) (simp add: lock_view_def)

lemma lock_mode:
  assumes "lock_inv s"
  shows "lock_inv (set_keep_cable_locked en s) \<and>
    captive_view (set_keep_cable_locked en s) = (fst (captive_view s), captive_step (fst (captive_view s))
      (if en then ModeOn else ModeOff) (snd (captive_view s)))"
proof (cases "keep_cable_locked s = en")
  case True
  then show ?thesis
    using assms by (cases en) (simp_all add: set_keep_cable_locked_def captive_view_def captive_step_def)
next
  case False
  let ?s = "s\<lparr>keep_cable_locked := en, captive_unlock_window := False, captive_latched := False,
    captive_lock_delay_elapsed := (pp_ampacity s > 0)\<rparr>"
  have "lock_pre ?s"
    using assms by (simp add: lock_inv_def lock_pre_def)
  then have "lock_inv (set_keep_cable_locked en s)"
    by (rule lock_inv_view [OF lock_check mode_view [OF False]])
  moreover have "captive_latched (check_connector_lock ?s) = (en \<and> pp_ampacity s > 0)"
    by (simp add: captive_latched_check)
  then have "captive_view (check_connector_lock ?s) = (fst (captive_view s), captive_step (fst (captive_view s))
      (if en then ModeOn else ModeOff) (snd (captive_view s)))"
    using assms False by (cases en) (simp_all add: lock_inv_def lock_pre_def captive_view_def captive_step_def)
  ultimately show ?thesis
    using captive_view_eq [OF mode_view [OF False]] by simp
qed

lemma lock_view_unrelated:
  assumes "captive_event_of (now, a) = Unrelated" and "a \<noteq> Evaluate" and "\<not> (\<exists>e. a = BspEvent e)"
  shows "lock_view (perform now a s) = lock_view s"
  using assms by (cases a) (simp_all add: captive_event_of_def lock_view_def request_defs allow_power_on_flags_def
      call_allow_power_on_bsp_def Let_def split: if_splits)

lemma lock_perform:
  assumes "lock_inv s"
  shows "lock_inv (perform now a s) \<and> captive_trans (captive_event_of (now, a)) (captive_view s) (captive_view (perform now a s))"
proof (cases "captive_event_of (now, a) = Unrelated")
  case True
  have "lock_inv (perform now a s) \<and> captive_view (perform now a s) = captive_view s"
  proof (cases "a = Evaluate \<or> (\<exists>e. a = BspEvent e)")
    case True
    then show ?thesis
      using lock_bsp [OF assms] lock_feed [OF assms] by auto
  next
    case False
    then have "lock_view (perform now a s) = lock_view s"
      using True by (intro lock_view_unrelated) auto
    then show ?thesis
      using lock_inv_view [OF assms] captive_view_eq by blast
  qed
  then show ?thesis
    using True by (simp add: captive_trans_def captive_step_def)
next
  case False
  then show ?thesis
    using lock_pp [OF assms] lock_force_unlock [OF assms] lock_mode [OF assms] lock_timer [OF assms]
    by (cases a) (simp_all add: captive_event_of_def captive_trans_def)
qed

interpretation lock: refined_system iec_start iec_trans lock_inv captive_view captive_event_of captive_start captive_trans
proof
  fix s s' :: iec_state and e :: "int \<times> iec_action"
  show "lock_inv s" if "iec_start s"
    using that by (auto simp: iec_start_def setup_ventilation_def iec_init_def lock_inv_def lock_pre_def)
  show "captive_start (captive_view s)" if "iec_start s"
    using that by (auto simp: iec_start_def setup_ventilation_def iec_init_def captive_view_def captive_start_def)
  assume "lock_inv s" and "iec_trans e s s'"
  then show "lock_inv s'" and "captive_trans (captive_event_of e) (captive_view s) (captive_view s')"
    using lock_perform [of s "fst e" "snd e"] by (simp_all add: iec_trans_def case_prod_beta)
qed

section \<open>Fields after an evaluation\<close>

lemma feed_fields:
  assumes "enter_state now (new_state cp_opt s) s = (s', events, t)"
  shows "last_power_on_forwarded (feed_state_machine now cp_opt s) = last_power_on_forwarded s'"
    and "power_on_allowed (feed_state_machine now cp_opt s) = power_on_allowed s'"
    and "pwm_running (feed_state_machine now cp_opt s) = pwm_running s'"
    and "last_pwm_running (feed_state_machine now cp_opt s) = pwm_running s'"
    and "last_cp_state (feed_state_machine now cp_opt s) = new_state cp_opt s"
    and "timeout_state_c1 (feed_state_machine now cp_opt s) =
      timer_control now power_off_under_load_in_c1_timeout t (timeout_state_c1 s')"
    and "is_locked (feed_state_machine now cp_opt s) = is_locked (check_connector_lock s')"
    and "\<exists>outs. outputs (feed_state_machine now cp_opt s) = outputs (check_connector_lock s') @ outs @ map signal_event events"
proof -
  obtain raw outs where f: "feed_state_machine now cp_opt s = (settled now (last_cp_state s) (new_state cp_opt s) (s', events, t))
        \<lparr>signalled_raw_cp_state := raw, outputs := outputs (settled now (last_cp_state s) (new_state cp_opt s) (s', events, t)) @ outs\<rparr>"
    by (rule feed_settled [OF assms])
  show "last_power_on_forwarded (feed_state_machine now cp_opt s) = last_power_on_forwarded s'"
    and "power_on_allowed (feed_state_machine now cp_opt s) = power_on_allowed s'"
    and "pwm_running (feed_state_machine now cp_opt s) = pwm_running s'"
    and "last_pwm_running (feed_state_machine now cp_opt s) = pwm_running s'"
    and "last_cp_state (feed_state_machine now cp_opt s) = new_state cp_opt s"
    and "timeout_state_c1 (feed_state_machine now cp_opt s) =
      timer_control now power_off_under_load_in_c1_timeout t (timeout_state_c1 s')"
    and "is_locked (feed_state_machine now cp_opt s) = is_locked (check_connector_lock s')"
    unfolding f by (simp_all add: settled_def Let_def)
  have "state_machine now cp_opt s = (settled now (last_cp_state s) (new_state cp_opt s) (s', events, t), events)"
    using assms by (simp add: state_machine_def settled_def new_state_def Let_def)
  then show "\<exists>outs. outputs (feed_state_machine now cp_opt s) = outputs (check_connector_lock s') @ outs @ map signal_event events"
    by (cases cp_opt) (auto simp: feed_state_machine_def emit_all_def emit_def settled_def Let_def)
qed

text \<open>In state C without a pilot signal the timer runs from the evaluation that saw the signal end.\<close>

lemma enter_C_timer:
  assumes "enter_C now s = (s', events, t)" and "\<not> pwm_running s'"
  shows "timer_control now d t (timeout_state_c1 s') = (if last_pwm_running s then Some (now, d) else timeout_state_c1 s)"
  using assms by (auto simp: enter_C_def part_defs timer_control_def Let_def split: if_splits)

lemma feed_timer:
  assumes "power_inv s" and "last_power_on_forwarded (feed_state_machine now cp_opt s)"
    and "\<not> pwm_running (feed_state_machine now cp_opt s)"
  shows "timeout_state_c1 (feed_state_machine now cp_opt s) =
    (if last_pwm_running s then Some (now, power_off_under_load_in_c1_timeout) else timeout_state_c1 s)"
proof -
  let ?cp = "new_state cp_opt s"
  obtain s' events t where e: "enter_state now ?cp s = (s', events, t)"
    by (cases "enter_state now ?cp s")
  have "power_after now ?cp (s', events, t)"
    using power_after_enter [OF assms(1), of now ?cp] e by simp
  then have cp: "?cp = CP_C \<or> ?cp = CP_D"
    using assms(2) feed_fields(1) [OF e] by (auto simp: power_after_def may_power_def)
  have D: "\<not> last_power_on_forwarded (fst (enter_D now s))" if "\<not> has_ventilation s"
    using that by (simp add: enter_D_def part_defs Let_def)
  have f: "last_power_on_forwarded s'" "\<not> pwm_running s'"
    using assms(2,3) feed_fields(1,3) [OF e] by simp_all
  then have "enter_C now (connector_lock s) = (s', events, t) \<or> enter_C now s = (s', events, t)"
    using cp e D by (cases "has_ventilation s") (auto simp: enter_state_def enter_D_def connector_lock_def)
  then have "timer_control now power_off_under_load_in_c1_timeout t (timeout_state_c1 s') =
      (if last_pwm_running s then Some (now, power_off_under_load_in_c1_timeout) else timeout_state_c1 s)"
    using enter_C_timer f(2) by (fastforce simp: connector_lock_def)
  then show ?thesis
    using feed_fields(6) [OF e] by simp
qed

lemma enter_C_from_B:
  assumes "last_cp_state s = CP_B" and "pwm_running s" and "power_on_allowed s"
    and "\<not> timeout_reached now (timeout_state_c1 s)"
  shows "last_power_on_forwarded (fst (enter_C now s)) \<and> CarRequestedPower \<in> set (fst (snd (enter_C now s))) \<and>
    should_be_locked (fst (enter_C now s)) \<and> authorized (fst (enter_C now s)) = authorized s \<and>
    force_unlocked (fst (enter_C now s)) = force_unlocked s"
  using assms by (cases "last_pwm_running s") (simp_all add: enter_C_def part_defs Let_def)

text \<open>A timer that is reached withdraws the permission in state C and stays reached.\<close>

lemma enter_C_timeout:
  assumes "timeout_reached now (timeout_state_c1 s)" and "pwm_running s \<or> \<not> last_pwm_running s"
  shows "\<not> last_power_on_forwarded (fst (enter_C now s)) \<and> \<not> power_on_allowed (fst (enter_C now s)) \<and>
    pwm_running (fst (enter_C now s)) = pwm_running s \<and> timeout_state_c1 (fst (enter_C now s)) = timeout_state_c1 s \<and>
    (\<not> pwm_running s \<longrightarrow> snd (snd (enter_C now s)) = do_nothing)"
  using assms by (cases "pwm_running s"; cases "last_pwm_running s") (simp_all add: enter_C_def part_defs Let_def)

lemma feed_timeout:
  assumes "last_cp_state s = CP_C" and "timeout_reached now (timeout_state_c1 s)" and "pwm_running s \<or> \<not> last_pwm_running s"
  shows "\<not> last_power_on_forwarded (feed_state_machine now None s)"
    and "last_cp_state (feed_state_machine now None s) = CP_C"
    and "\<not> pwm_running s \<Longrightarrow> timeout_state_c1 (feed_state_machine now None s) = timeout_state_c1 s"
    and "last_pwm_running (feed_state_machine now None s) = pwm_running s"
proof -
  obtain u events c where e: "enter_state now (new_state None s) s = (u, events, c)"
    by (cases "enter_state now (new_state None s) s")
  then have "enter_C now s = (u, events, c)"
    using assms(1) by (simp add: enter_state_def new_state_def)
  with enter_C_timeout [OF assms(2,3)]
  have "\<not> last_power_on_forwarded u" "pwm_running u = pwm_running s" "timeout_state_c1 u = timeout_state_c1 s"
    "\<not> pwm_running s \<longrightarrow> c = do_nothing"
    by simp_all
  then show "\<not> last_power_on_forwarded (feed_state_machine now None s)"
    "last_cp_state (feed_state_machine now None s) = CP_C"
    "\<not> pwm_running s \<Longrightarrow> timeout_state_c1 (feed_state_machine now None s) = timeout_state_c1 s"
    "last_pwm_running (feed_state_machine now None s) = pwm_running s"
    using feed_fields [OF e] assms(1) by (simp_all add: new_state_def timer_control_def)
qed

section \<open>Runs\<close>

lemma run_reachable:
  assumes "reachable start iec_trans es s" and "list_all (\<lambda>e. snd e \<noteq> CaptiveTimer) es'"
  shows "reachable start iec_trans (es @ es') (iec_run es' s)"
  using assms
proof (induction es' arbitrary: es s)
  case Nil
  then show ?case
    by (simp add: iec_run_def)
next
  case (Cons e es')
  have "iec_trans e s (perform (fst e) (snd e) s)"
    using Cons.prems(2) by (simp add: iec_trans_def case_prod_beta)
  then have "reachable start iec_trans (es @ [e]) (perform (fst e) (snd e) s)"
    by (rule reachable_step [OF Cons.prems(1)])
  then show ?case
    using Cons.IH [of "es @ [e]"] Cons.prems(2) by (simp add: iec_run_def case_prod_beta)
qed

text \<open>A vehicle is plugged in, asks for power and gets it; then the pilot signal is switched off.\<close>

definition example_start :: iec_state where
  "example_start = setup_ventilation False (iec_init True True True 500)"

definition example_plug_in :: "(int \<times> iec_action) list" where
  "example_plug_in =
     [(0, Enable True), (0, BspEvent Event_A), (10, PpAmpacity A_32), (1000, BspEvent Event_B),
      (2000, AuthorizedFlag True), (2000, Evaluate), (2100, AllowPowerOn True FullPowerCharging), (2100, Evaluate),
      (2200, PwmFlags), (2200, PwmCall (1 / 2)), (2200, Evaluate)]"

definition example_charging :: "(int \<times> iec_action) list" where
  "example_charging = example_plug_in @ [(3000, BspEvent Event_C), (3050, BspEvent Event_PowerOn)]"

definition example_pilot_off :: "(int \<times> iec_action) list" where
  "example_pilot_off = example_charging @ [(10000, X1Flags), (10000, X1Call), (10000, Evaluate)]"

definition example_timeout :: "(int \<times> iec_action) list" where
  "example_timeout = example_pilot_off @ [(16100, Evaluate)]"

lemma example_reachable:
  "reachable iec_start iec_trans example_plug_in (iec_run example_plug_in example_start)"
  "reachable iec_start iec_trans example_charging (iec_run example_charging example_start)"
  "reachable iec_start iec_trans example_pilot_off (iec_run example_pilot_off example_start)"
  "reachable iec_start iec_trans example_timeout (iec_run example_timeout example_start)"
proof -
  have "reachable iec_start iec_trans [] example_start"
    unfolding example_start_def by (rule reachable_start) (unfold iec_start_def, blast)
  note run = run_reachable [OF this, simplified]
  show "reachable iec_start iec_trans example_plug_in (iec_run example_plug_in example_start)"
    "reachable iec_start iec_trans example_charging (iec_run example_charging example_start)"
    "reachable iec_start iec_trans example_pilot_off (iec_run example_pilot_off example_start)"
    "reachable iec_start iec_trans example_timeout (iec_run example_timeout example_start)"
    by (rule run; simp add: example_plug_in_def example_charging_def example_pilot_off_def example_timeout_def)+
qed

lemma held_until_released:
  assumes "reachable ((=) s) iec_trans es s'" and "lock_inv s" and "captive_latched s"
    and "list_all (\<lambda>e. snd e \<noteq> ForceUnlock \<and> snd e \<noteq> KeepCableLocked False) es"
  shows "lock_inv s' \<and> captive_latched s'"
  using assms
proof (induction rule: reachable.induct)
  case (reachable_start s')
  then show ?case
    by simp
next
  case (reachable_step es u e s')
  then have u: "lock_inv u" "captive_latched u" and e: "snd e \<noteq> ForceUnlock" "snd e \<noteq> KeepCableLocked False"
    by simp_all
  have "lock_inv s'" and t: "captive_trans (captive_event_of e) (captive_view u) (captive_view s')"
    using lock.invar_step lock.view_step u(1) reachable_step.hyps by blast+
  moreover have "\<exists>p. snd (captive_view u) = Held p"
    using u by (simp add: captive_view_def lock_inv_def lock_pre_def)
  moreover have "captive_event_of e \<noteq> UnlockForced" "captive_event_of e \<noteq> ModeOff"
    using e by (auto simp: captive_event_of_def split: iec_action.splits)
  ultimately have "\<exists>p. snd (captive_view s') = Held p"
    by (cases "captive_event_of e") (auto simp: captive_trans_def captive_step_def)
  then show ?case
    using \<open>lock_inv s'\<close> by (auto simp: captive_view_def split: if_splits)
qed

section \<open>Properties\<close>







text \<open>
  C5: the captive cable mode implements a small automaton. Every run of the state machine is, seen through
  the flags of the mode, a run of the automaton on the corresponding events, and the last command to
  the lock locked it whenever the automaton holds the cable.
\<close>

theorem captive_mode_refines:
  assumes "reachable iec_start iec_trans es s"
  shows "reachable captive_start captive_trans (map captive_event_of es) (captive_view s) \<and>
    (\<forall>p. snd (captive_view s) = Held p \<longrightarrow> latest lock_command (outputs s))"
  using lock.view_reachable [OF assms] lock.invar_reachable [OF assms]
  by (auto simp: lock_inv_def lock_pre_def captive_view_def split: if_splits)

theorem captive_mode_refines_witness:
  "reachable captive_start captive_trans (map captive_event_of example_charging) (True, Seating)"
proof -
  have "captive_view (iec_run example_charging example_start) = (True, Seating)"
    by code_simp
  then show ?thesis
    using captive_mode_refines [OF example_reachable(2)] by simp
qed

text \<open>
  C8: a cable held by the captive cable mode stays locked, whatever the driver reports and the charger
  requests (a lost proximity pilot included), until an unlock is forced or the mode is switched off.
\<close>

theorem captive_cable_stays_locked:
  assumes "reachable iec_start iec_trans es s" and "captive_latched s"
    and "reachable ((=) s) iec_trans es' s'"
    and "list_all (\<lambda>e. snd e \<noteq> ForceUnlock \<and> snd e \<noteq> KeepCableLocked False) es'"
  shows "latest lock_command (outputs s')"
  using held_until_released [OF assms(3) lock.invar_reachable [OF assms(1)] assms(2,4)]
  by (simp add: lock_inv_def lock_pre_def)

theorem captive_cable_stays_locked_witness:
  "latest lock_command (outputs (iec_run [(0, KeepCableLocked False), (0, KeepCableLocked True), (5, PpAmpacity Ampacity_None),
     (6, BspEvent Event_A)] (iec_run example_charging example_start)))"
proof -
  let ?s = "iec_run (example_charging @ [(0, KeepCableLocked False), (0, KeepCableLocked True)]) example_start"
  let ?es = "[(5, PpAmpacity Ampacity_None), (6, BspEvent Event_A)]"
  have "reachable iec_start iec_trans (example_charging @ [(0, KeepCableLocked False), (0, KeepCableLocked True)]) ?s"
    using run_reachable [OF example_reachable(2), of "[(0, KeepCableLocked False), (0, KeepCableLocked True)]"]
    by (simp add: iec_run_def)
  moreover have "captive_latched ?s"
    by code_simp
  moreover have "reachable ((=) ?s) iec_trans ?es (iec_run ?es ?s)"
    using run_reachable [OF reachable_start [of "(=) ?s"], of ?s ?es] by simp
  ultimately have "latest lock_command (outputs (iec_run ?es ?s))"
    by (rule captive_cable_stays_locked) simp
  then show ?thesis
    by (simp add: iec_run_def)
qed

text \<open>
  C7: the plug is locked while the contactors are closed: in every interleaving, when the driver
  has reported closed contactors and not yet open ones, the last command to the lock locked it; a forced
  unlock does not change that.
\<close>

theorem plug_locked_under_power:
  assumes "reachable iec_start iec_trans es s" and "relais_on s"
  shows "latest lock_command (outputs s) \<and> latest lock_command (outputs (connector_force_unlock s))"
proof -
  have inv: "lock_inv s"
    by (rule lock.invar_reachable [OF assms(1)])
  moreover have "relais_on (connector_force_unlock s)"
    using assms(2) by (simp add: connector_force_unlock_def Let_def)
  ultimately show ?thesis
    using lock_force_unlock [OF inv] assms(2) by (simp add: lock_inv_def lock_pre_def)
qed

theorem plug_locked_under_power_witness:
  "latest lock_command (outputs (connector_force_unlock (iec_run example_charging example_start)))"
proof -
  have "relais_on (iec_run example_charging example_start)"
    by code_simp
  then show ?thesis
    using plug_locked_under_power [OF example_reachable(2)] by blast
qed



end
