(* ===== verification/Ordered_Map.thy ===== *)
theory Ordered_Map
  imports Prelude
begin

text \<open>
  \<^verbatim>\<open>std::map\<close> as an association list in the order of its keys: what iterating over the map visits, in that
  order. Insertion overwrites or keeps the order, erasing removes the entry of a key.
\<close>

type_synonym ('k, 'v) omap = "('k \<times> 'v) list"

fun map_put :: "'k::linorder \<Rightarrow> 'v \<Rightarrow> ('k, 'v) omap \<Rightarrow> ('k, 'v) omap" where
  "map_put k v [] = [(k, v)]"
| "map_put k v (e # m) =
     (if k < fst e then (k, v) # e # m else if k = fst e then (k, v) # m else e # map_put k v m)"

definition map_erase :: "'k \<Rightarrow> ('k, 'v) omap \<Rightarrow> ('k, 'v) omap" where
  "map_erase k m = filter (\<lambda>e. fst e \<noteq> k) m"

definition map_has :: "('k, 'v) omap \<Rightarrow> 'k \<Rightarrow> bool" where
  "map_has m k = (map_of m k \<noteq> None)"

definition ordered :: "('k::linorder, 'v) omap \<Rightarrow> bool" where
  "ordered m = sorted_wrt (<) (map fst m)"

named_theorems omap_simps

lemma map_of_put [simp, omap_simps]: "map_of (map_put k v m) k' = (if k' = k then Some v else map_of m k')"
  by (induction m) auto

lemma map_of_erase [simp, omap_simps]: "map_of (map_erase k m) k' = (if k' = k then None else map_of m k')"
  by (induction m) (auto simp: map_erase_def)

lemma set_keys_put: "fst ` set (map_put k v m) = insert k (fst ` set m)"
  by (induction m) auto

lemma set_put: "ordered m \<Longrightarrow> set (map_put k v m) = insert (k, v) {e \<in> set m. fst e \<noteq> k}"
proof (induction m)
  case (Cons e m)
  have later: "fst e < fst e'" if "e' \<in> set m" for e'
    using Cons.prems that by (simp add: ordered_def)
  have "ordered m"
    using Cons.prems by (simp add: ordered_def)
  note IH = Cons.IH [OF this]
  show ?case
    using later IH by (cases e) (auto dest: order.strict_trans)
qed simp

lemma ordered_put [intro]: "ordered m \<Longrightarrow> ordered (map_put k v m)"
proof (induction m)
  case (Cons e m)
  have "ordered m" and later: "\<forall>k' \<in> fst ` set m. fst e < k'"
    using Cons.prems by (auto simp: ordered_def)
  note IH = Cons.IH [OF this(1)]
  show ?case
  proof (cases "fst e < k")
    case True
    then have "\<forall>k' \<in> fst ` set (map_put k v m). fst e < k'"
      using later by (simp add: set_keys_put)
    with True IH show ?thesis
      by (auto simp: ordered_def)
  next
    case False
    then show ?thesis
      using Cons.prems by (auto simp: ordered_def dest: order.strict_trans)
  qed
qed (simp add: ordered_def)

lemma ordered_erase [intro]: "ordered m \<Longrightarrow> ordered (map_erase k m)"
  unfolding ordered_def map_erase_def by (induction m) auto

lemma ordered_distinct: "ordered m \<Longrightarrow> distinct (map fst m)"
  unfolding ordered_def by (induction m) auto

lemma ordered_map_of: "ordered m \<Longrightarrow> map_of m k = Some v \<longleftrightarrow> (k, v) \<in> set m"
  by (simp add: ordered_distinct)

lemma map_put_last:
  assumes "ordered (m @ [(k, v)])"
  shows "map_put k v m = m @ [(k, v)]"
  using assms unfolding ordered_def by (induction m) auto

lemma length_put: "\<not> map_has m k \<Longrightarrow> length (map_put k v m) = Suc (length m)"
  by (induction m) (auto simp: map_has_def split: if_splits)

lemma map_has_iff: "map_has m k \<longleftrightarrow> k \<in> fst ` set m"
  by (simp add: map_has_def map_of_eq_None_iff)

lemma length_ordered: "ordered m \<Longrightarrow> length m = card (fst ` set m)"
  using distinct_card [OF ordered_distinct] by fastforce

lemma length_overwrite:
  assumes "ordered m" and "map_has m k"
  shows "length (map_put k v m) = length m"
proof -
  have "fst ` set (map_put k v m) = fst ` set m"
    using assms(2) by (simp add: set_keys_put map_has_iff insert_absorb)
  then show ?thesis
    using length_ordered [OF assms(1)] length_ordered [OF ordered_put [OF assms(1)]] by simp
qed

end
