(* ===== verification/Auth_Connector.thy ===== *)
theory Auth_Connector
  imports Ordered_Map Event_System
begin

text \<open>
  The connectors and charging points as the authorization module sees them
  (\<^verbatim>\<open>modules/EVSE/Auth/lib/ConnectorStateMachine.cpp\<close>, \<^verbatim>\<open>Connector.cpp\<close> and the types they use). The state
  machine of a connector is shown to keep three facts about it: that it is switched off, faulted or occupied.
\<close>

section \<open>Types\<close>

text \<open>The order of the enumeration is the order that sorting and permuting uses.\<close>

datatype ConnectorTypeEnum =
    cCCS1
  | cCCS2
  | cG105
  | cMCS
  | cTesla
  | cType1
  | cType2
  | s309_1P_16A
  | s309_1P_32A
  | s309_3P_16A
  | s309_3P_32A
  | sBS1361
  | sCEE_7_7
  | sType2
  | sType3
  | Other1PhMax16A
  | Other1PhOver16A
  | Other3Ph
  | Pan
  | wInductive
  | wResonant
  | Undetermined
  | UnknownType

fun connector_type_number :: "ConnectorTypeEnum \<Rightarrow> nat" where
  "connector_type_number cCCS1 = 0"
| "connector_type_number cCCS2 = 1"
| "connector_type_number cG105 = 2"
| "connector_type_number cMCS = 3"
| "connector_type_number cTesla = 4"
| "connector_type_number cType1 = 5"
| "connector_type_number cType2 = 6"
| "connector_type_number s309_1P_16A = 7"
| "connector_type_number s309_1P_32A = 8"
| "connector_type_number s309_3P_16A = 9"
| "connector_type_number s309_3P_32A = 10"
| "connector_type_number sBS1361 = 11"
| "connector_type_number sCEE_7_7 = 12"
| "connector_type_number sType2 = 13"
| "connector_type_number sType3 = 14"
| "connector_type_number Other1PhMax16A = 15"
| "connector_type_number Other1PhOver16A = 16"
| "connector_type_number Other3Ph = 17"
| "connector_type_number Pan = 18"
| "connector_type_number wInductive = 19"
| "connector_type_number wResonant = 20"
| "connector_type_number Undetermined = 21"
| "connector_type_number UnknownType = 22"

lemma connector_type_number_inj: "connector_type_number a = connector_type_number b \<Longrightarrow> a = b"
  by (cases a; cases b; simp)

instantiation ConnectorTypeEnum :: linorder
begin

definition less_eq_ConnectorTypeEnum :: "ConnectorTypeEnum \<Rightarrow> ConnectorTypeEnum \<Rightarrow> bool" where
  "less_eq_ConnectorTypeEnum a b = (connector_type_number a \<le> connector_type_number b)"

definition less_ConnectorTypeEnum :: "ConnectorTypeEnum \<Rightarrow> ConnectorTypeEnum \<Rightarrow> bool" where
  "less_ConnectorTypeEnum a b = (connector_type_number a < connector_type_number b)"

instance
  by standard (auto simp: less_eq_ConnectorTypeEnum_def less_ConnectorTypeEnum_def dest: connector_type_number_inj)

end

datatype AuthorizationStatus =
    Status_Accepted
  | Status_Blocked
  | Status_ConcurrentTx
  | Status_Expired
  | Status_Invalid
  | Status_NoCredit
  | Status_NotAllowedTypeEVSE
  | Status_NotAtThisLocation
  | Status_NotAtThisTime
  | Status_Unknown
  | Status_PinRequired
  | Status_Timeout

datatype AuthorizationType =
    OCPP
  | RFID
  | Autocharge
  | PlugAndCharge
  | BankCard

datatype IdTokenType =
    Central
  | eMAID
  | MacAddress
  | ISO14443
  | ISO15693
  | KeyCode
  | Local
  | NoAuthorization

record IdToken =
  token_value :: string
  token_type :: IdTokenType

record Identifier =
  ident_id_token :: IdToken
  ident_type :: AuthorizationType
  ident_authorization_status :: "AuthorizationStatus option"
  ident_expiry_time :: "string option"
  ident_parent_id_token :: "IdToken option"

text \<open>The members that are only passed on (certificate hashes, additional information) are left out.\<close>

record ProvidedIdToken =
  request_id :: "int option"
  provided_id_token :: IdToken
  provided_parent_id_token :: "IdToken option"
  authorization_type :: AuthorizationType
  provided_connectors :: "int list option"
  prevalidated :: "bool option"
  certificate :: "string option"

section \<open>The state machine of a connector\<close>

datatype ConnectorEvent =
    ENABLE
  | DISABLE
  | ERROR_CLEARED
  | FAULTED_EVENT
  | TRANSACTION_STARTED
  | SESSION_FINISHED

datatype ConnectorState =
    AVAILABLE
  | UNAVAILABLE
  | FAULTED
  | OCCUPIED
  | UNAVAILABLE_FAULTED
  | FAULTED_OCCUPIED

fun connector_state_number :: "ConnectorState \<Rightarrow> nat" where
  "connector_state_number AVAILABLE = 0"
| "connector_state_number UNAVAILABLE = 1"
| "connector_state_number FAULTED = 2"
| "connector_state_number OCCUPIED = 3"
| "connector_state_number UNAVAILABLE_FAULTED = 4"
| "connector_state_number FAULTED_OCCUPIED = 5"

text \<open>The result tells whether the event was accepted.\<close>

definition handle_event :: "ConnectorEvent \<Rightarrow> ConnectorState \<Rightarrow> bool \<times> ConnectorState" where
  "handle_event event state = (case state of
       AVAILABLE \<Rightarrow> (case event of
           TRANSACTION_STARTED \<Rightarrow> (True, OCCUPIED)
         | DISABLE \<Rightarrow> (True, UNAVAILABLE)
         | FAULTED_EVENT \<Rightarrow> (True, FAULTED)
         | _ \<Rightarrow> (False, state))
     | UNAVAILABLE \<Rightarrow> (case event of
           ENABLE \<Rightarrow> (True, AVAILABLE)
         | FAULTED_EVENT \<Rightarrow> (True, UNAVAILABLE_FAULTED)
         | _ \<Rightarrow> (False, state))
     | FAULTED \<Rightarrow> (case event of
           ERROR_CLEARED \<Rightarrow> (True, AVAILABLE)
         | DISABLE \<Rightarrow> (True, UNAVAILABLE_FAULTED)
         | _ \<Rightarrow> (False, state))
     | OCCUPIED \<Rightarrow> (case event of
           SESSION_FINISHED \<Rightarrow> (True, AVAILABLE)
         | FAULTED_EVENT \<Rightarrow> (True, FAULTED_OCCUPIED)
         | _ \<Rightarrow> (False, state))
     | FAULTED_OCCUPIED \<Rightarrow> (case event of
           ERROR_CLEARED \<Rightarrow> (True, OCCUPIED)
         | SESSION_FINISHED \<Rightarrow> (True, FAULTED)
         | _ \<Rightarrow> (False, state))
     | UNAVAILABLE_FAULTED \<Rightarrow> (case event of
           ENABLE \<Rightarrow> (True, FAULTED)
         | ERROR_CLEARED \<Rightarrow> (True, UNAVAILABLE)
         | _ \<Rightarrow> (False, state)))"

record Connector =
  connector_id :: int
  connector_transaction_active :: bool
  connector_state :: ConnectorState
  connector_type :: ConnectorTypeEnum

definition new_connector :: "int \<Rightarrow> ConnectorTypeEnum \<Rightarrow> Connector" where
  "new_connector i t =
     \<lparr>connector_id = i, connector_transaction_active = False, connector_state = AVAILABLE, connector_type = t\<rparr>"

definition submit_event :: "ConnectorEvent \<Rightarrow> Connector \<Rightarrow> Connector" where
  "submit_event event c = c\<lparr>connector_state := snd (handle_event event (connector_state c))\<rparr>"

definition connector_is_unavailable :: "Connector \<Rightarrow> bool" where
  "connector_is_unavailable c = (connector_state c = UNAVAILABLE \<or> connector_state c = UNAVAILABLE_FAULTED)"

fun connector_state_to_string :: "ConnectorState \<Rightarrow> string" where
  "connector_state_to_string AVAILABLE = ''AVAILABLE''"
| "connector_state_to_string OCCUPIED = ''OCCUPIED''"
| "connector_state_to_string UNAVAILABLE = ''UNAVAILABLE''"
| "connector_state_to_string FAULTED = ''FAULTED''"
| "connector_state_to_string FAULTED_OCCUPIED = ''FAULTED_OCCUPIED''"
| "connector_state_to_string UNAVAILABLE_FAULTED = ''UNAVAILABLE_FAULTED''"

section \<open>Charging points\<close>

text \<open>A charging point; of its timer only what it will do when it expires is kept.\<close>

datatype evse_timeout =
    PlugInTimeout
  | AuthorizationTimeout ProvidedIdToken

record EVSEContext =
  evse_id :: int
  evse_index :: int
  transaction_active :: bool
  evse_identifier :: "Identifier option"
  connectors :: "Connector list"
  timeout_timer :: "evse_timeout option"
  plugged_in :: bool
  plug_in_timeout :: bool
  reported_enabled :: bool

definition new_evse :: "int \<Rightarrow> int \<Rightarrow> Connector list \<Rightarrow> EVSEContext" where
  "new_evse i index cs =
     \<lparr>evse_id = i, evse_index = index, transaction_active = False, evse_identifier = None, connectors = cs,
      timeout_timer = None, plugged_in = False, plug_in_timeout = False, reported_enabled = False\<rparr>"

definition evse_is_available :: "EVSEContext \<Rightarrow> bool" where
  "evse_is_available e =
     (if plug_in_timeout e then False
      else if evse_identifier e \<noteq> None then False
      else let occupied = list_ex (\<lambda>c. connector_state c = OCCUPIED \<or> connector_state c = FAULTED_OCCUPIED) (connectors e);
               available = list_ex (\<lambda>c. connector_state c \<noteq> UNAVAILABLE \<and> connector_state c \<noteq> FAULTED) (connectors e)
           in if occupied then False else available)"

definition evse_is_unavailable :: "EVSEContext \<Rightarrow> bool" where
  "evse_is_unavailable e = list_all connector_is_unavailable (connectors e)"

section \<open>What the state of a connector tells\<close>

record connector_facts =
  switched_off :: bool
  faulty :: bool
  in_use :: bool

definition connector_view :: "ConnectorState \<Rightarrow> connector_facts" where
  "connector_view s = \<lparr>switched_off = (s \<in> {UNAVAILABLE, UNAVAILABLE_FAULTED}),
     faulty = (s \<in> {FAULTED, UNAVAILABLE_FAULTED, FAULTED_OCCUPIED}),
     in_use = (s \<in> {OCCUPIED, FAULTED_OCCUPIED})\<rparr>"

text \<open>
  Every event is about one of the facts; it is accepted when it changes the fact and the connector may
  change it: a connector in use is not switched off, and a faulty or switched off one is not taken into use.
\<close>

definition facts_step :: "ConnectorEvent \<Rightarrow> connector_facts \<Rightarrow> bool \<times> connector_facts" where
  "facts_step event f = (case event of
       ENABLE \<Rightarrow> if switched_off f then (True, f\<lparr>switched_off := False\<rparr>) else (False, f)
     | DISABLE \<Rightarrow> if \<not> switched_off f \<and> \<not> in_use f then (True, f\<lparr>switched_off := True\<rparr>) else (False, f)
     | ERROR_CLEARED \<Rightarrow> if faulty f then (True, f\<lparr>faulty := False\<rparr>) else (False, f)
     | FAULTED_EVENT \<Rightarrow> if \<not> faulty f then (True, f\<lparr>faulty := True\<rparr>) else (False, f)
     | TRANSACTION_STARTED \<Rightarrow>
         if \<not> in_use f \<and> \<not> switched_off f \<and> \<not> faulty f then (True, f\<lparr>in_use := True\<rparr>) else (False, f)
     | SESSION_FINISHED \<Rightarrow> if in_use f then (True, f\<lparr>in_use := False\<rparr>) else (False, f))"

lemma handle_event_facts:
  "fst (handle_event e s) = fst (facts_step e (connector_view s))"
  "connector_view (snd (handle_event e s)) = snd (facts_step e (connector_view s))"
  by (cases s; cases e; simp add: handle_event_def facts_step_def connector_view_def)+

lemma connector_view_exclusive: "\<not> (switched_off (connector_view s) \<and> in_use (connector_view s))"
  by (cases s) (simp_all add: connector_view_def)

interpretation connector: refined_system "\<lambda>s. s = AVAILABLE" "\<lambda>e s s'. s' = snd (handle_event e s)"
    "\<lambda>s. \<not> (switched_off (connector_view s) \<and> in_use (connector_view s))" connector_view id
    "\<lambda>f. f = connector_view AVAILABLE" "\<lambda>e f f'. f' = snd (facts_step e f)"
  by unfold_locales (rule connector_view_exclusive | simp add: handle_event_facts)+

lemma connector_view_inj: "connector_view s = connector_view s' \<Longrightarrow> s = s'"
  by (cases s; cases s'; simp add: connector_view_def)

section \<open>Properties\<close>

text \<open>
  C18: the state of a connector is exactly three facts about it. After every sequence of events the state
  has seen the same events as the facts, an event is accepted exactly when the facts accept it, no connector
  is both switched off and in use, and a connector is taken into use only when it is neither faulty nor
  switched off.
\<close>

theorem connector_tracks_facts:
  assumes "reachable (\<lambda>s. s = AVAILABLE) (\<lambda>e s s'. s' = snd (handle_event e s)) es s"
  shows "reachable (\<lambda>f. f = connector_view AVAILABLE) (\<lambda>e f f'. f' = snd (facts_step e f)) es (connector_view s) \<and>
    (\<forall>e. fst (handle_event e s) = fst (facts_step e (connector_view s))) \<and>
    \<not> (switched_off (connector_view s) \<and> in_use (connector_view s))"
  using connector.view_reachable [OF assms] connector.invar_reachable [OF assms] handle_event_facts(1) by simp

theorem connector_tracks_facts_witness:
  "reachable (\<lambda>f. f = connector_view AVAILABLE) (\<lambda>e f f'. f' = snd (facts_step e f))
     [TRANSACTION_STARTED, FAULTED_EVENT] (connector_view FAULTED_OCCUPIED)"
proof -
  let ?trans = "\<lambda>e s s'. s' = snd (handle_event e s)"
  have "reachable (\<lambda>s. s = AVAILABLE) ?trans ([] @ [TRANSACTION_STARTED]) OCCUPIED"
    by (rule reachable_step [OF reachable_start [of _ AVAILABLE]]) (simp_all add: handle_event_def)
  then have "reachable (\<lambda>s. s = AVAILABLE) ?trans (([] @ [TRANSACTION_STARTED]) @ [FAULTED_EVENT]) FAULTED_OCCUPIED"
    by (rule reachable_step) (simp add: handle_event_def)
  then show ?thesis
    using connector_tracks_facts by force
qed

text \<open>
  A charging point counts as available although none of its connectors can be used. A connector that is
  both switched off and faulty is not tested for, so together with a faulty one it makes the charging
  point available, while no connector is.
\<close>

theorem available_without_usable_connector:
  "\<exists>e. evse_is_available e \<and> \<not> evse_is_unavailable e \<and>
     list_all (\<lambda>c. switched_off (connector_view (connector_state c)) \<or> faulty (connector_view (connector_state c))) (connectors e)"
  by (rule exI [of _ "new_evse 1 0 [(new_connector 1 cType2)\<lparr>connector_state := FAULTED\<rparr>,
      (new_connector 2 cCCS2)\<lparr>connector_state := UNAVAILABLE_FAULTED\<rparr>]"])
    (simp add: new_evse_def new_connector_def evse_is_available_def evse_is_unavailable_def connector_is_unavailable_def
      connector_view_def)

end
