(* ===== verification/Permutations.thy ===== *)
theory Permutations
  imports Prelude "HOL-Library.Multiset"
begin

text \<open>
  The permutation algorithms of the C++ standard library (\<^verbatim>\<open>std::next_permutation\<close> and
  \<^verbatim>\<open>std::prev_permutation\<close>) on lists: the step to the next permutation in lexicographic order, upwards or
  downwards, and what iterating it enumerates.
\<close>

section \<open>Order\<close>

definition before :: "bool \<Rightarrow> 'a::linorder \<Rightarrow> 'a \<Rightarrow> bool" where
  "before up x y = (if up then x < y else y < x)"

lemma before_simps [simp]:
  "before True x y \<longleftrightarrow> x < y" "before False x y \<longleftrightarrow> y < x" "\<not> before up x x"
  by (simp_all add: before_def)

lemma before_trans: "before up x y \<Longrightarrow> before up y z \<Longrightarrow> before up x z"
  by (cases up) auto

lemma before_linear: "\<not> before up x y \<Longrightarrow> \<not> before up y x \<Longrightarrow> x = y"
  by (cases up) auto

lemma before_asym: "before up x y \<Longrightarrow> \<not> before up y x"
  by (cases up) auto

lemma not_before_trans: "\<not> before up y x \<Longrightarrow> \<not> before up z y \<Longrightarrow> \<not> before up z x"
  by (cases up) auto

fun lex_before :: "bool \<Rightarrow> 'a::linorder list \<Rightarrow> 'a list \<Rightarrow> bool" where
  "lex_before up (x # xs) (y # ys) = (before up x y \<or> x = y \<and> lex_before up xs ys)"
| "lex_before up _ _ = False"

lemma lex_before_irrefl [simp]: "\<not> lex_before up xs xs"
  by (induction xs) auto

lemma lex_before_trans: "lex_before up xs ys \<Longrightarrow> lex_before up ys zs \<Longrightarrow> lex_before up xs zs"
proof (induction up xs ys arbitrary: zs rule: lex_before.induct)
  case (1 up x xs y ys)
  then show ?case
    by (cases zs) (auto intro: before_trans)
qed auto

lemma lex_before_total: "length xs = length ys \<Longrightarrow> xs = ys \<or> lex_before True xs ys \<or> lex_before False xs ys"
  by (induction xs ys rule: list_induct2) auto

lemma lex_before_swap: "lex_before True xs ys \<Longrightarrow> \<not> lex_before False xs ys"
  by (induction True xs ys rule: lex_before.induct) auto

section \<open>The next permutation\<close>

text \<open>
  The last position that is before its successor is exchanged with the last later element it is before,
  and what follows is reversed. What follows the position is in falling order, so the elements it is
  before are a prefix.
\<close>

fun next_permutation :: "bool \<Rightarrow> 'a::linorder list \<Rightarrow> 'a list option" where
  "next_permutation up [] = None"
| "next_permutation up (x # xs) = (case next_permutation up xs of
     Some ys \<Rightarrow> Some (x # ys)
   | None \<Rightarrow>
       let greater = takeWhile (before up x) xs
       in if greater = [] then None
          else Some (last greater # rev (butlast greater @ x # dropWhile (before up x) xs)))"

abbreviation falling :: "bool \<Rightarrow> 'a::linorder list \<Rightarrow> bool" where
  "falling up xs \<equiv> sorted_wrt (\<lambda>x y. \<not> before up x y) xs"

abbreviation rising :: "bool \<Rightarrow> 'a::linorder list \<Rightarrow> bool" where
  "rising up xs \<equiv> sorted_wrt (\<lambda>x y. \<not> before up y x) xs"

lemma set_last_butlast: "xs \<noteq> [] \<Longrightarrow> set xs = insert (last xs) (set (butlast xs))"
  by (induction xs) auto

lemma falling_not_before:
  assumes "falling up (z # zs)" and "\<not> before up x z"
  shows "\<forall>w \<in> set (z # zs). \<not> before up x w"
proof
  fix w
  assume "w \<in> set (z # zs)"
  then show "\<not> before up x w"
    using assms not_before_trans [of up z w x] by (cases "w = z") simp_all
qed

lemma falling_takeWhile:
  "falling up xs \<Longrightarrow> y \<in> set (takeWhile (before up x) xs) \<longleftrightarrow> y \<in> set xs \<and> before up x y"
proof (induction xs)
  case (Cons z zs)
  show ?case
  proof (cases "before up x z")
    case True
    then show ?thesis
      using Cons by auto
  next
    case False
    then show ?thesis
      using falling_not_before [OF Cons.prems False] by auto
  qed
qed simp

lemma falling_dropWhile: "falling up xs \<Longrightarrow> \<forall>y \<in> set (dropWhile (before up x) xs). \<not> before up x y"
proof (induction xs)
  case (Cons z zs)
  show ?case
  proof (cases "before up x z")
    case True
    then have "dropWhile (before up x) (z # zs) = dropWhile (before up x) zs"
      by simp
    moreover have "falling up zs"
      using Cons.prems by simp
    ultimately show ?thesis
      using Cons.IH by metis
  next
    case False
    then have "dropWhile (before up x) (z # zs) = z # zs"
      by simp
    then show ?thesis
      using falling_not_before [OF Cons.prems False] by metis
  qed
qed simp

lemma next_permutation_None: "next_permutation up xs = None \<longleftrightarrow> falling up xs"
proof (induction xs)
  case (Cons x xs)
  show ?case
  proof (cases "next_permutation up xs")
    case None
    then have f: "falling up xs"
      using Cons by simp
    have "takeWhile (before up x) xs = [] \<longleftrightarrow> set (takeWhile (before up x) xs) = {}"
      by simp
    also have "\<dots> \<longleftrightarrow> (\<forall>y \<in> set xs. \<not> before up x y)"
      by (auto simp only: set_eq_iff falling_takeWhile [OF f] empty_iff)
    finally have "takeWhile (before up x) xs = [] \<longleftrightarrow> (\<forall>y \<in> set xs. \<not> before up x y)" .
    then show ?thesis
      using None f by (simp add: Let_def)
  next
    case (Some ys)
    then show ?thesis
      using Cons by simp
  qed
qed simp

lemma mset_last_butlast: "gs \<noteq> [] \<Longrightarrow> mset gs = add_mset (last gs) (mset (butlast gs))"
  by (induction gs) auto

lemma exchange_mset: "gs \<noteq> [] \<Longrightarrow> mset (last gs # rev (butlast gs @ x # qs)) = mset (x # gs @ qs)"
proof -
  assume "gs \<noteq> []"
  from mset_last_butlast [OF this]
  have gs: "mset (x # gs @ qs) = add_mset x (add_mset (last gs) (mset (butlast gs)) + mset qs)"
    by (simp only: mset.simps mset_append)
  show ?thesis
    unfolding gs by simp
qed

lemma next_permutation_mset: "next_permutation up xs = Some ys \<Longrightarrow> mset ys = mset xs"
proof (induction xs arbitrary: ys)
  case (Cons x xs)
  show ?case
  proof (cases "next_permutation up xs")
    case None
    then have "takeWhile (before up x) xs \<noteq> []"
        and ys: "ys = last (takeWhile (before up x) xs) # rev (butlast (takeWhile (before up x) xs) @ x # dropWhile (before up x) xs)"
      using Cons.prems by (auto simp: Let_def split: if_splits)
    then have "mset ys = mset (x # takeWhile (before up x) xs @ dropWhile (before up x) xs)"
      unfolding ys by (intro exchange_mset)
    then show ?thesis
      by (simp only: takeWhile_dropWhile_id)
  next
    case (Some ys')
    then show ?thesis
      using Cons by auto
  qed
qed simp

lemma next_permutation_before: "next_permutation up xs = Some ys \<Longrightarrow> lex_before up xs ys"
proof (induction xs arbitrary: ys)
  case (Cons x xs)
  have "before up x (last (takeWhile (before up x) xs))" if "takeWhile (before up x) xs \<noteq> []"
    using that by (meson last_in_set set_takeWhileD)
  then show ?case
    using Cons by (auto simp: Let_def split: option.splits if_splits)
qed simp

text \<open>Falling lists are the last permutations and rising ones the first.\<close>

lemma falling_last: "falling up xs \<Longrightarrow> mset zs = mset xs \<Longrightarrow> \<not> lex_before up xs zs"
proof (induction xs arbitrary: zs)
  case (Cons x xs)
  then obtain z zs' where zs: "zs = z # zs'"
    by (metis list.set_cases mset.simps(2) set_mset_mset union_single_eq_member)
  have "z \<in> set (x # xs)"
    using Cons.prems(2) zs by (metis list.set_intros(1) set_mset_mset)
  then have "\<not> before up x z"
    using Cons.prems(1) by auto
  moreover have "\<not> lex_before up xs zs'" if "z = x"
    using Cons that zs by simp
  ultimately show ?case
    using zs by auto
qed simp

lemma rising_first: "rising up xs \<Longrightarrow> mset zs = mset xs \<Longrightarrow> zs = xs \<or> lex_before up xs zs"
proof (induction xs arbitrary: zs)
  case (Cons x xs)
  then obtain z zs' where zs: "zs = z # zs'"
    by (metis list.set_cases mset.simps(2) set_mset_mset union_single_eq_member)
  have "z \<in> set (x # xs)"
    using Cons.prems(2) zs by (metis list.set_intros(1) set_mset_mset)
  then have "before up x z \<or> x = z"
    using Cons.prems(1) before_linear by fastforce
  then show ?case
    using Cons.prems Cons.IH [of zs'] zs by auto
qed simp

lemma falling_split_rising:
  assumes "falling up (gs @ qs)" and "\<forall>y \<in> set qs. \<not> before up x y" and "\<forall>y \<in> set gs. before up x y"
  shows "rising up (rev (gs @ x # qs))"
  using assms by (auto simp: sorted_wrt_append sorted_wrt_rev dest: before_asym)

lemma next_permutation_least:
  assumes "next_permutation up xs = Some ys" and "mset zs = mset xs" and "lex_before up xs zs"
  shows "zs = ys \<or> lex_before up ys zs"
  using assms
proof (induction xs arbitrary: ys zs)
  case (Cons x xs)
  then obtain z zs' where zs: "zs = z # zs'"
    by (cases zs) auto
  show ?case
  proof (cases "next_permutation up xs")
    case None
    let ?gs = "takeWhile (before up x) xs" and ?qs = "dropWhile (before up x) xs"
    have f: "falling up xs"
      using None by (simp add: next_permutation_None)
    have gs: "?gs \<noteq> []" and ys: "ys = last ?gs # rev (butlast ?gs @ x # ?qs)"
      using Cons.prems(1) None by (auto simp: Let_def split: if_splits)
    have "before up x z"
      using Cons.prems(2,3) zs falling_last [OF f, of zs'] by auto
    moreover have "z \<in> set (x # xs)"
      using Cons.prems(2) zs by (metis list.set_intros(1) set_mset_mset)
    ultimately have z: "z \<in> set ?gs"
      using falling_takeWhile [OF f] by auto
    have "falling up (?gs @ ?qs)"
      using f by simp
    then have fs: "falling up ((butlast ?gs @ [last ?gs]) @ ?qs)"
      using gs by simp
    have "\<not> before up y (last ?gs)" if "y \<in> set (butlast ?gs)" for y
      using fs that by (simp add: sorted_wrt_append)
    then have "z = last ?gs \<or> \<not> before up z (last ?gs)"
      using z set_last_butlast [OF gs] by blast
    then have "z = last ?gs \<or> before up (last ?gs) z"
      using before_linear by blast
    moreover have "zs' = rev (butlast ?gs @ x # ?qs) \<or> lex_before up (rev (butlast ?gs @ x # ?qs)) zs'" if "z = last ?gs"
    proof (rule rising_first)
      show "rising up (rev (butlast ?gs @ x # ?qs))"
      proof (rule falling_split_rising)
        show "falling up (butlast ?gs @ ?qs)"
          using fs by (simp add: sorted_wrt_append)
        show "\<forall>y \<in> set (butlast ?gs). before up x y"
          by (metis in_set_butlastD set_takeWhileD)
      qed (rule falling_dropWhile [OF f])
      show "mset zs' = mset (rev (butlast ?gs @ x # ?qs))"
      proof -
        have "mset (z # zs') = mset (last ?gs # rev (butlast ?gs @ x # ?qs))"
          using next_permutation_mset [OF Cons.prems(1)] Cons.prems(2) unfolding ys zs by (rule trans [OF _ sym, rotated])
        then show ?thesis
          using that by simp
      qed
    qed
    ultimately show ?thesis
      using ys zs by auto
  next
    case (Some ys')
    then show ?thesis
      using Cons.prems Cons.IH [OF Some, of zs'] zs by auto
  qed
qed simp

section \<open>Iteration\<close>

text \<open>The loop that collects permutations until there is no next one.\<close>

lemma finite_same_mset: "finite {zs. mset zs = mset xs \<and> P zs}"
proof (rule finite_subset)
  show "{zs. mset zs = mset xs \<and> P zs} \<subseteq> {zs. set zs \<subseteq> set xs \<and> length zs = length xs}"
    by (auto dest: mset_eq_setD mset_eq_length)
  show "finite {zs. set zs \<subseteq> set xs \<and> length zs = length xs}"
    by (rule finite_lists_length_eq) simp
qed

function permutations_from :: "bool \<Rightarrow> 'a::linorder list \<Rightarrow> 'a list list" where
  "permutations_from up xs = xs # (case next_permutation up xs of Some ys \<Rightarrow> permutations_from up ys | None \<Rightarrow> [])"
  by pat_completeness auto
termination
proof (relation "measure (\<lambda>(up, xs). card {zs. mset zs = mset xs \<and> lex_before up xs zs})")
  fix up and xs ys :: "'a list"
  assume n: "next_permutation up xs = Some ys"
  have "{zs. mset zs = mset ys \<and> lex_before up ys zs} \<subset> {zs. mset zs = mset xs \<and> lex_before up xs zs}"
  proof
    show "{zs. mset zs = mset ys \<and> lex_before up ys zs} \<subseteq> {zs. mset zs = mset xs \<and> lex_before up xs zs}"
      using next_permutation_mset [OF n] next_permutation_before [OF n] by (auto intro: lex_before_trans)
    show "{zs. mset zs = mset ys \<and> lex_before up ys zs} \<noteq> {zs. mset zs = mset xs \<and> lex_before up xs zs}"
      using next_permutation_mset [OF n] next_permutation_before [OF n] by (metis (mono_tags) lex_before_irrefl mem_Collect_eq)
  qed
  then show "((up, ys), (up, xs)) \<in> measure (\<lambda>(up, xs). card {zs. mset zs = mset xs \<and> lex_before up xs zs})"
    by (simp add: psubset_card_mono finite_same_mset)
qed simp

declare permutations_from.simps [simp del]

lemma set_permutations_from:
  "set (permutations_from up xs) = {zs. mset zs = mset xs \<and> (zs = xs \<or> lex_before up xs zs)}"
proof (induction up xs rule: permutations_from.induct)
  case (1 up xs)
  show ?case
  proof (cases "next_permutation up xs")
    case None
    then have "falling up xs"
      by (simp add: next_permutation_None)
    with None show ?thesis
      using falling_last [of up xs] by (subst permutations_from.simps) auto
  next
    case (Some ys)
    have "zs = ys \<or> lex_before up ys zs \<longleftrightarrow> lex_before up xs zs" if "mset zs = mset xs" for zs
      using next_permutation_least [OF Some that] next_permutation_before [OF Some] lex_before_trans by blast
    then show ?thesis
      using 1 Some next_permutation_mset [OF Some] by (subst permutations_from.simps) auto
  qed
qed

lemma distinct_permutations_from: "distinct (permutations_from up xs)"
proof (induction up xs rule: permutations_from.induct)
  case (1 up xs)
  have "xs \<notin> set (permutations_from up ys)" if "next_permutation up xs = Some ys" for ys
    using next_permutation_before [OF that] lex_before_trans [of up xs ys xs] by (auto simp: set_permutations_from)
  then show ?case
    using 1 by (subst permutations_from.simps) (simp split: option.split)
qed

end
