(* ===== verification/Reservations.thy ===== *)
theory Reservations
  imports Auth_Connector Permutations
begin

text \<open>
  The reservations of a charging station (\<^verbatim>\<open>modules/EVSE/Auth/lib/ReservationHandler.cpp\<close>). A reservation is for
  one charging point or for any charging point with a type of connector. A reservation is accepted only when
  every reserved vehicle still finds a free charging point, in whatever order the vehicles arrive and
  wherever they park; the code tries all orders and all choices. The handler keeps the charging points
  (which it shares with \<^verbatim>\<open>AuthHandler\<close>), the reservations, the identifiers whose expiry timer runs, the
  contents of the key value store and what the charging points have been told. Locks and logging are left out.
\<close>

section \<open>Types\<close>

datatype ReservationResult =
    Accepted
  | Faulted
  | Occupied
  | Rejected
  | Unavailable

datatype ReservationEndReason =
    Expired
  | Cancelled
  | UsedToStartCharging
  | GlobalReservationRequirementDropped

record Reservation =
  res_evse_id :: "int option"
  reservation_id :: int
  id_token :: string
  expiry_time :: string
  parent_id_token :: "string option"
  res_connector_type :: "ConnectorTypeEnum option"

text \<open>What the charging points are told: that a reservation has ended, or that they are reserved.\<close>

datatype evse_notification =
    Reservation_cancelled "int option" int ReservationEndReason bool
  | Reserved "int option" int "Reservation option"

record ReservationEvseStatus =
  status_reserved :: "int set"
  status_available :: "int set"

type_synonym evse_map = "(int, EVSEContext) omap"

type_synonym reservation_map = "(int, Reservation) omap"

record reservation_handler =
  evses :: evse_map
  stored :: "(int option \<times> Reservation) list option"
  evse_reservations :: reservation_map
  global_reservations :: "Reservation list"
  restored_reservations :: "(int, int) omap"
  timers :: "int set"
  cancelled_callback :: bool
  notifications :: "evse_notification list"
  last_reserved_status :: "int set"

definition value_or :: "'a \<Rightarrow> 'a option \<Rightarrow> 'a" where
  "value_or d x = (case x of Some y \<Rightarrow> y | None \<Rightarrow> d)"

text \<open>Comparison of tokens: \<^verbatim>\<open>std::tolower\<close> in the default locale changes the letters A to Z.\<close>

definition to_lower :: "char \<Rightarrow> char" where
  "to_lower c = (let n = of_char c :: nat in if 65 \<le> n \<and> n \<le> 90 then char_of (n + 32) else c)"

definition is_equal_case_insensitive :: "string \<Rightarrow> string \<Rightarrow> bool" where
  "is_equal_case_insensitive a b =
     (if length a \<noteq> length b then False else list_all2 (\<lambda>x y. to_lower x = to_lower y) a b)"

section \<open>The state of the charging points\<close>

fun connector_state_to_reservation_result :: "ConnectorState \<Rightarrow> ReservationResult" where
  "connector_state_to_reservation_result AVAILABLE = Accepted"
| "connector_state_to_reservation_result UNAVAILABLE = Unavailable"
| "connector_state_to_reservation_result FAULTED = Faulted"
| "connector_state_to_reservation_result UNAVAILABLE_FAULTED = Faulted"
| "connector_state_to_reservation_result FAULTED_OCCUPIED = Faulted"
| "connector_state_to_reservation_result OCCUPIED = Occupied"

definition has_evse_connector_type :: "Connector list \<Rightarrow> ConnectorTypeEnum \<Rightarrow> bool" where
  "has_evse_connector_type cs t =
     (if t = UnknownType then True else list_ex (\<lambda>c. connector_type c = UnknownType \<or> connector_type c = t) cs)"

definition does_evse_connector_type_exist :: "evse_map \<Rightarrow> ConnectorTypeEnum \<Rightarrow> bool" where
  "does_evse_connector_type_exist es t = list_ex (\<lambda>e. has_evse_connector_type (connectors (snd e)) t) es"

definition get_new_connector_state :: "ConnectorState \<Rightarrow> ConnectorState \<Rightarrow> ConnectorState" where
  "get_new_connector_state current_state new_state =
     (if new_state = OCCUPIED then OCCUPIED
      else if connector_state_number new_state > connector_state_number current_state
      then if connector_state_number new_state > connector_state_number OCCUPIED
           then if new_state = FAULTED_OCCUPIED then OCCUPIED
                else if new_state = UNAVAILABLE_FAULTED
                then if current_state \<noteq> OCCUPIED then FAULTED else current_state
                else current_state
           else new_state
      else current_state)"

definition occupied_result :: "Connector list \<Rightarrow> ReservationResult option" where
  "occupied_result cs =
     (case filter (\<lambda>c. connector_state c = OCCUPIED \<or> connector_state c = FAULTED_OCCUPIED) cs of
        [] \<Rightarrow> None
      | c # _ \<Rightarrow> Some (connector_state_to_reservation_result (connector_state c)))"

definition get_evse_connector_state_reservation_result :: "evse_map \<Rightarrow> reservation_map \<Rightarrow> int \<Rightarrow> ReservationResult" where
  "get_evse_connector_state_reservation_result es specific e = (case map_of es e of
       None \<Rightarrow> Rejected
     | Some evse \<Rightarrow>
         if plugged_in evse then connector_state_to_reservation_result OCCUPIED
         else (case occupied_result (connectors evse) of
                 Some r \<Rightarrow> r
               | None \<Rightarrow> if map_has specific e then Occupied else Accepted))"

definition connector_fits :: "ConnectorTypeEnum \<Rightarrow> Connector \<Rightarrow> bool" where
  "connector_fits t c = (connector_type c = t \<or> connector_type c = UnknownType \<or> t = UnknownType)"

fun connector_availability_loop :: "ConnectorTypeEnum \<Rightarrow> ConnectorState \<Rightarrow> Connector list \<Rightarrow> ReservationResult" where
  "connector_availability_loop t state [] = connector_state_to_reservation_result state"
| "connector_availability_loop t state (c # cs) =
     (if connector_fits t c
      then if connector_state c = AVAILABLE then Accepted
           else connector_availability_loop t (get_new_connector_state state (connector_state c)) cs
      else connector_availability_loop t state cs)"

definition get_connector_availability_reservation_result :: "evse_map \<Rightarrow> int \<Rightarrow> ConnectorTypeEnum \<Rightarrow> ReservationResult" where
  "get_connector_availability_reservation_result es e t = (case map_of es e of
       None \<Rightarrow> Rejected
     | Some evse \<Rightarrow> connector_availability_loop t UNAVAILABLE (connectors evse))"

section \<open>Whether reservations are possible\<close>

definition get_all_possible_orders :: "ConnectorTypeEnum list \<Rightarrow> ConnectorTypeEnum list list" where
  "get_all_possible_orders cs =
     (if cs = [] then [] else permutations_from True cs @ tl (permutations_from False cs))"

text \<open>Whether a vehicle that needs a type of connector can use a charging point.\<close>

definition evse_accepts :: "evse_map \<Rightarrow> reservation_map \<Rightarrow> ConnectorTypeEnum \<Rightarrow> int \<times> EVSEContext \<Rightarrow> bool" where
  "evse_accepts es specific t e =
     (get_evse_connector_state_reservation_result es specific (fst e) = Accepted \<and>
      has_evse_connector_type (connectors (snd e)) t \<and>
      get_connector_availability_reservation_result es (fst e) t = Accepted)"

text \<open>
  The loop over the charging points: \<open>usable\<close> is the test for one of them, \<open>last\<close> tells that no vehicle
  follows, and \<open>next\<close> is the recursive call for the vehicles that follow.
\<close>

fun arrival_loop :: "('e \<Rightarrow> bool) \<Rightarrow> bool \<Rightarrow> ('e \<Rightarrow> bool) \<Rightarrow> 'e list \<Rightarrow> bool \<Rightarrow> bool" where
  "arrival_loop usable is_last next_level [] is_possible = is_possible"
| "arrival_loop usable is_last next_level (e # es) is_possible =
     (if usable e
      then if is_last then True
           else if \<not> next_level e then False
           else arrival_loop usable is_last next_level es True
      else arrival_loop usable is_last next_level es is_possible)"

text \<open>The order is never empty.\<close>

fun can_virtual_car_arrive :: "evse_map \<Rightarrow> reservation_map \<Rightarrow> int list \<Rightarrow> ConnectorTypeEnum list \<Rightarrow> bool" where
  "can_virtual_car_arrive es specific used [] = False"
| "can_virtual_car_arrive es specific used (t # ts) =
     arrival_loop (\<lambda>e. fst e \<notin> set used \<and> evse_accepts es specific t e) (ts = [])
       (\<lambda>e. can_virtual_car_arrive es specific (used @ [fst e]) ts) es False"

definition reserved_types :: "Reservation list \<Rightarrow> ConnectorTypeEnum list" where
  "reserved_types rs = map (\<lambda>r. value_or UnknownType (res_connector_type r)) rs"

definition is_reservation_possible ::
    "evse_map \<Rightarrow> ConnectorTypeEnum option \<Rightarrow> Reservation list \<Rightarrow> reservation_map \<Rightarrow> bool" where
  "is_reservation_possible es global_type no_evse specific =
     (let types = reserved_types no_evse @ (case global_type of Some t \<Rightarrow> [t] | None \<Rightarrow> [])
      in if length types + length specific > length es then False
         else list_all (can_virtual_car_arrive es specific []) (get_all_possible_orders types))"

definition get_all_evses_with_connector_type :: "evse_map \<Rightarrow> ConnectorTypeEnum \<Rightarrow> EVSEContext list" where
  "get_all_evses_with_connector_type es t =
     map snd (filter (\<lambda>e. has_evse_connector_type (connectors (snd e)) t) es)"

definition get_reservation_evse_connector_state :: "ConnectorTypeEnum \<Rightarrow> reservation_handler \<Rightarrow> ReservationResult" where
  "get_reservation_evse_connector_state t h =
     (if global_reservations h \<noteq> [] \<or> evse_reservations h \<noteq> [] then Occupied
      else if list_ex (\<lambda>e. plugged_in (snd e)) (evses h)
      then connector_state_to_reservation_result (get_new_connector_state UNAVAILABLE OCCUPIED)
      else if get_all_evses_with_connector_type (evses h) t = [] then Rejected
      else connector_state_to_reservation_result
             (fold (\<lambda>c state. if connector_fits t c \<and> connector_state c \<noteq> AVAILABLE
                              then get_new_connector_state state (connector_state c) else state)
                (concat (map connectors (get_all_evses_with_connector_type (evses h) t))) UNAVAILABLE))"

section \<open>What possible means\<close>

text \<open>
  The reserved vehicles find a charging point, whatever happens: when some of them have arrived, each at a
  charging point that it may use, then any other one still finds a free charging point that it may use. Here
  \<open>can_use t e\<close> tells that a vehicle with type \<open>t\<close> may use the charging point \<open>e\<close>.
\<close>

definition always_served :: "('t \<Rightarrow> 'e \<Rightarrow> bool) \<Rightarrow> 't multiset \<Rightarrow> bool" where
  "always_served can_use types =
     (\<forall>arrived t. add_mset t (mset (map fst arrived)) \<subseteq># types \<and> distinct (map snd arrived) \<and>
        (\<forall>(t', e) \<in> set arrived. can_use t' e) \<longrightarrow> (\<exists>e. can_use t e \<and> e \<notin> snd ` set arrived))"

definition can_use :: "evse_map \<Rightarrow> reservation_map \<Rightarrow> ConnectorTypeEnum \<Rightarrow> int \<Rightarrow> bool" where
  "can_use es specific t i = (\<exists>evse. (i, evse) \<in> set es \<and> evse_accepts es specific t (i, evse))"

text \<open>Vehicles arriving in a given order, each choosing a charging point.\<close>

fun parked :: "('t \<Rightarrow> 'e \<Rightarrow> bool) \<Rightarrow> 'e list \<Rightarrow> 't list \<Rightarrow> 'e list \<Rightarrow> bool" where
  "parked cu used ts [] = True"
| "parked cu used [] (e # es) = False"
| "parked cu used (t # ts) (e # es) = (cu t e \<and> e \<notin> set used \<and> parked cu (used @ [e]) ts es)"

lemma parked_iff:
  "parked cu used ts es \<longleftrightarrow>
     length es \<le> length ts \<and> distinct es \<and> set es \<inter> set used = {} \<and> (\<forall>(t, e) \<in> set (zip ts es). cu t e)"
  by (induction cu used ts es rule: parked.induct) auto

lemma arrival_loop_iff:
  "arrival_loop usable is_last next_level es p \<longleftrightarrow>
     (if is_last then p \<or> (\<exists>e \<in> set es. usable e)
      else (p \<or> (\<exists>e \<in> set es. usable e)) \<and> (\<forall>e \<in> set es. usable e \<longrightarrow> next_level e))"
  by (induction usable is_last next_level es p rule: arrival_loop.induct) auto

text \<open>The search succeeds when the vehicles never get stuck in the given order.\<close>

lemma can_virtual_car_arrive_iff:
  "ts \<noteq> [] \<Longrightarrow> can_virtual_car_arrive es specific used ts \<longleftrightarrow>
     (\<forall>ids. parked (can_use es specific) used ts ids \<and> length ids < length ts \<longrightarrow>
        (\<exists>e. can_use es specific (ts ! length ids) e \<and> e \<notin> set used \<union> set ids))"
proof (induction ts arbitrary: used)
  case (Cons t ts)
  let ?cu = "can_use es specific"
  let ?ok = "\<lambda>used ts. \<forall>ids. parked ?cu used ts ids \<and> length ids < length ts \<longrightarrow>
      (\<exists>e. ?cu (ts ! length ids) e \<and> e \<notin> set used \<union> set ids)"
  have next_level: "can_virtual_car_arrive es specific (used @ [e]) ts \<longleftrightarrow> ?ok (used @ [e]) ts" if "ts \<noteq> []" for e
    by (rule Cons.IH [OF that])
  have split: "?ok used (t # ts) \<longleftrightarrow> (\<exists>e. ?cu t e \<and> e \<notin> set used) \<and> (\<forall>e. ?cu t e \<and> e \<notin> set used \<longrightarrow> ?ok (used @ [e]) ts)"
  proof
    assume ok: "?ok used (t # ts)"
    have "\<exists>e. ?cu t e \<and> e \<notin> set used"
      using ok [rule_format, of "[]"] by simp
    moreover have "?ok (used @ [e]) ts" if "?cu t e \<and> e \<notin> set used" for e
    proof (intro allI impI)
      fix ids
      assume "parked ?cu (used @ [e]) ts ids \<and> length ids < length ts"
      then show "\<exists>e'. ?cu (ts ! length ids) e' \<and> e' \<notin> set (used @ [e]) \<union> set ids"
        using ok [rule_format, of "e # ids"] that by auto
    qed
    ultimately show "(\<exists>e. ?cu t e \<and> e \<notin> set used) \<and> (\<forall>e. ?cu t e \<and> e \<notin> set used \<longrightarrow> ?ok (used @ [e]) ts)"
      by blast
  next
    assume *: "(\<exists>e. ?cu t e \<and> e \<notin> set used) \<and> (\<forall>e. ?cu t e \<and> e \<notin> set used \<longrightarrow> ?ok (used @ [e]) ts)"
    show "?ok used (t # ts)"
    proof (intro allI impI)
      fix ids
      assume ids: "parked ?cu used (t # ts) ids \<and> length ids < length (t # ts)"
      show "\<exists>e. ?cu ((t # ts) ! length ids) e \<and> e \<notin> set used \<union> set ids"
        using ids * by (cases ids) auto
    qed
  qed
  have loop: "can_virtual_car_arrive es specific used (t # ts) \<longleftrightarrow>
      (\<exists>e. ?cu t e \<and> e \<notin> set used) \<and> (ts \<noteq> [] \<longrightarrow> (\<forall>e. ?cu t e \<and> e \<notin> set used \<longrightarrow> can_virtual_car_arrive es specific (used @ [e]) ts))"
  proof -
    have "(\<exists>e \<in> set es. fst e \<notin> set used \<and> evse_accepts es specific t e) \<longleftrightarrow> (\<exists>e. ?cu t e \<and> e \<notin> set used)"
      by (force simp: can_use_def)
    moreover have "(\<forall>e \<in> set es. fst e \<notin> set used \<and> evse_accepts es specific t e \<longrightarrow>
          can_virtual_car_arrive es specific (used @ [fst e]) ts) \<longleftrightarrow>
        (\<forall>e. ?cu t e \<and> e \<notin> set used \<longrightarrow> can_virtual_car_arrive es specific (used @ [e]) ts)"
      by (force simp: can_use_def)
    ultimately show ?thesis
      by (simp add: arrival_loop_iff)
  qed
  show ?case
    unfolding loop split by (cases "ts = []") (auto simp: next_level)
qed simp

lemma set_get_all_possible_orders:
  assumes "cs \<noteq> []"
  shows "set (get_all_possible_orders cs) = {zs. mset zs = mset cs}"
proof -
  have "set (tl (permutations_from False cs)) \<union> {cs} = set (permutations_from False cs)"
    by (subst (1 2) permutations_from.simps) auto
  moreover have "cs \<in> set (permutations_from True cs)"
    by (simp add: set_permutations_from)
  ultimately have "set (get_all_possible_orders cs) = set (permutations_from True cs) \<union> set (permutations_from False cs)"
    using assms by (auto simp: get_all_possible_orders_def)
  moreover have "zs = cs \<or> lex_before True cs zs \<or> lex_before False cs zs" if "mset zs = mset cs" for zs
    using lex_before_total [of cs zs] mset_eq_length [OF that] by auto
  ultimately show ?thesis
    by (auto simp: set_permutations_from)
qed

lemma zip_take_length: "zip (take (length ys) xs) ys = zip xs ys"
proof (induction ys arbitrary: xs)
  case (Cons y ys)
  then show ?case
    by (cases xs) auto
qed simp

text \<open>Order does not matter: never getting stuck in any order is being served always.\<close>

lemma served_in_every_order:
  "(\<forall>order. mset order = M \<longrightarrow> (\<forall>ids. parked cu [] order ids \<and> length ids < length order \<longrightarrow>
      (\<exists>e. cu (order ! length ids) e \<and> e \<notin> set ids))) \<longleftrightarrow> always_served cu M" (is "?L \<longleftrightarrow> ?R")
proof
  assume L: ?L
  show ?R
    unfolding always_served_def
  proof (intro allI impI, elim conjE)
    fix arrived t
    assume sub: "add_mset t (mset (map fst arrived)) \<subseteq># M" and d: "distinct (map snd arrived)"
      and u: "\<forall>(t', e) \<in> set arrived. cu t' e"
    obtain rest where rest: "mset rest = M - add_mset t (mset (map fst arrived))"
      using ex_mset by blast
    let ?order = "map fst arrived @ t # rest"
    have "mset ?order = add_mset t (mset (map fst arrived)) + mset rest"
      by simp
    then have "mset ?order = M"
      unfolding rest using subset_mset.add_diff_inverse [OF sub] by simp
    moreover have "parked cu [] ?order (map snd arrived)"
      using d u by (auto simp: parked_iff zip_append1 zip_map_fst_snd)
    ultimately show "\<exists>e. cu t e \<and> e \<notin> snd ` set arrived"
      using L [rule_format, of ?order "map snd arrived"] by (simp add: nth_append)
  qed
next
  assume R: ?R
  show ?L
  proof (intro allI impI, elim conjE)
    fix order ids
    assume m: "mset order = M" and p: "parked cu [] order ids" and l: "length ids < length order"
    let ?n = "length ids"
    let ?arrived = "zip (take ?n order) ids"
    have "order = take ?n order @ order ! ?n # drop (Suc ?n) order"
      using l by (rule id_take_nth_drop)
    then have "M = mset (take ?n order) + add_mset (order ! ?n) (mset (drop (Suc ?n) order))"
      using m by (metis mset.simps(2) mset_append)
    then have "add_mset (order ! ?n) (mset (map fst ?arrived)) \<subseteq># M"
      using l by simp
    moreover have ids: "map snd ?arrived = ids"
      using l by simp
    moreover have "distinct ids" and "\<forall>(t', e) \<in> set ?arrived. cu t' e"
      using p by (simp_all add: parked_iff zip_take_length)
    ultimately have "\<exists>e. cu (order ! ?n) e \<and> e \<notin> snd ` set ?arrived"
      using R [unfolded always_served_def, rule_format, of "order ! ?n" ?arrived] by simp
    moreover have "snd ` set ?arrived = set ids"
      using ids by (metis list.set_map)
    ultimately show "\<exists>e. cu (order ! ?n) e \<and> e \<notin> set ids"
      by simp
  qed
qed

lemma is_reservation_possible_iff:
  "is_reservation_possible es global_type no_evse specific \<longleftrightarrow>
     (let types = reserved_types no_evse @ (case global_type of Some t \<Rightarrow> [t] | None \<Rightarrow> [])
      in length types + length specific \<le> length es \<and> always_served (can_use es specific) (mset types))"
proof -
  define types where "types = reserved_types no_evse @ (case global_type of Some t \<Rightarrow> [t] | None \<Rightarrow> [])"
  have "list_all (can_virtual_car_arrive es specific []) (get_all_possible_orders types) \<longleftrightarrow>
      always_served (can_use es specific) (mset types)"
  proof (cases "types = []")
    case True
    then show ?thesis
      by (simp add: get_all_possible_orders_def always_served_def)
  next
    case False
    then have "list_all (can_virtual_car_arrive es specific []) (get_all_possible_orders types) \<longleftrightarrow>
        (\<forall>order. mset order = mset types \<longrightarrow> can_virtual_car_arrive es specific [] order)"
      by (simp add: list_all_iff set_get_all_possible_orders)
    also have "\<dots> \<longleftrightarrow> (\<forall>order. mset order = mset types \<longrightarrow> (\<forall>ids. parked (can_use es specific) [] order ids \<and>
        length ids < length order \<longrightarrow> (\<exists>e. can_use es specific (order ! length ids) e \<and> e \<notin> set ids)))"
      using False can_virtual_car_arrive_iff [of _ es specific "[]"] by (metis mset_zero_iff sup_bot_left empty_set)
    finally show ?thesis
      by (simp only: served_in_every_order)
  qed
  then show ?thesis
    by (auto simp: is_reservation_possible_def types_def [symmetric] Let_def)
qed

text \<open>Fewer vehicles are served as well, and so are the same vehicles at more charging points.\<close>

lemma always_served_mono: "always_served cu N \<Longrightarrow> M \<subseteq># N \<Longrightarrow> always_served cu M"
  unfolding always_served_def by (meson subset_mset.order_trans)

end
