(* ===== verification/Reservation_Handler.thy ===== *)
theory Reservation_Handler
  imports Reservations
begin

text \<open>
  The operations of the reservation handler (\<^verbatim>\<open>modules/EVSE/Auth/lib/ReservationHandler.cpp\<close>): making, cancelling,
  using, matching, storing and loading reservations. The lemmas show that the handler stays consistent, that
  an accepted reservation is kept without taking the place of another, and what survives a restart.
\<close>

section \<open>Charging points that global reservations occupy\<close>

definition get_evse_global_reserved_status_and_set_new_status ::
    "int set \<Rightarrow> int set \<Rightarrow> reservation_handler \<Rightarrow> ReservationEvseStatus \<times> reservation_handler" where
  "get_evse_global_reserved_status_and_set_new_status available reserved h =
     (\<lparr>status_reserved = reserved - last_reserved_status h,
       status_available = Set.filter (\<lambda>e. e \<notin> reserved \<and> e \<in> last_reserved_status h) available\<rparr>,
      h\<lparr>last_reserved_status := reserved\<rparr>)"

definition free_evses :: "reservation_handler \<Rightarrow> int list" where
  "free_evses h = map fst (filter (\<lambda>e.
     get_evse_connector_state_reservation_result (evses h) (evse_reservations h) (fst e) = Accepted \<and>
     get_connector_availability_reservation_result (evses h) (fst e) UnknownType = Accepted) (evses h))"

definition check_number_global_reservations_match_number_available_evses ::
    "reservation_handler \<Rightarrow> ReservationEvseStatus \<times> reservation_handler" where
  "check_number_global_reservations_match_number_available_evses h =
     (let available = free_evses h
      in if length available = length (global_reservations h)
         then get_evse_global_reserved_status_and_set_new_status (set available) (set available) h
         else let full = filter (\<lambda>r. \<not> is_reservation_possible (evses h) (res_connector_type r)
                                       (global_reservations h) (evse_reservations h)) (global_reservations h);
                  reserved = filter (\<lambda>e. fst e \<in> set available \<and> list_ex (\<lambda>r.
                    has_evse_connector_type (connectors (snd e)) (value_or UnknownType (res_connector_type r))) full) (evses h)
              in get_evse_global_reserved_status_and_set_new_status (set available) (set (map fst reserved)) h)"

text \<open>The cancellation callback that \<^verbatim>\<open>AuthHandler\<close> registers, and what it calls.\<close>

definition check_evse_reserved_and_send_updates :: "reservation_handler \<Rightarrow> reservation_handler" where
  "check_evse_reserved_and_send_updates h =
     (case check_number_global_reservations_match_number_available_evses h of (status, h) \<Rightarrow>
        h\<lparr>notifications := notifications h @
            map (\<lambda>e. Reservation_cancelled (Some e) (-1) GlobalReservationRequirementDropped False)
              (sorted_list_of_set (status_available status)) @
            map (\<lambda>e. Reserved (Some e) (-1) None) (sorted_list_of_set (status_reserved status))\<rparr>)"

definition notify_cancelled ::
    "int option \<Rightarrow> int \<Rightarrow> ReservationEndReason \<Rightarrow> bool \<Rightarrow> reservation_handler \<Rightarrow> reservation_handler" where
  "notify_cancelled e i reason send_update h = h\<lparr>notifications := notifications h @ [Reservation_cancelled e i reason send_update]\<rparr>"

definition call_reservation_cancelled ::
    "int \<Rightarrow> ReservationEndReason \<Rightarrow> int option \<Rightarrow> bool \<Rightarrow> reservation_handler \<Rightarrow> reservation_handler" where
  "call_reservation_cancelled i reason e send_update h =
     check_evse_reserved_and_send_updates (notify_cancelled e i reason send_update h)"

definition call_cancelled ::
    "int option \<Rightarrow> int \<Rightarrow> ReservationEndReason \<Rightarrow> bool \<Rightarrow> reservation_handler \<Rightarrow> reservation_handler" where
  "call_cancelled e i reason send_update h =
     (if e \<noteq> None \<and> the e < 0 then h else call_reservation_cancelled i reason e send_update h)"

section \<open>Storing and cancelling\<close>

definition persisted :: "reservation_handler \<Rightarrow> (int option \<times> Reservation) list" where
  "persisted h = map (\<lambda>e. (Some (fst e), snd e)) (evse_reservations h) @ map (Pair None) (global_reservations h)"

definition store_reservations :: "reservation_handler \<Rightarrow> reservation_handler" where
  "store_reservations h = (case stored h of None \<Rightarrow> h | Some _ \<Rightarrow> h\<lparr>stored := Some (persisted h)\<rparr>)"

definition set_reservation_timer :: "Reservation \<Rightarrow> reservation_handler \<Rightarrow> reservation_handler" where
  "set_reservation_timer r h = h\<lparr>timers := insert (reservation_id r) (timers h)\<rparr>"

fun erase_first :: "('a \<Rightarrow> bool) \<Rightarrow> 'a list \<Rightarrow> 'a list" where
  "erase_first P [] = []"
| "erase_first P (x # xs) = (if P x then xs else x # erase_first P xs)"

text \<open>The charging point with the given reservation; the loop in the code keeps the last one.\<close>

definition evse_with_reservation :: "int \<Rightarrow> reservation_map \<Rightarrow> int option" where
  "evse_with_reservation i m = (case filter (\<lambda>e. reservation_id (snd e) = i) m of
       [] \<Rightarrow> None
     | es \<Rightarrow> Some (fst (last es)))"

definition cancel_reservation ::
    "int \<Rightarrow> bool \<Rightarrow> ReservationEndReason \<Rightarrow> reservation_handler \<Rightarrow> (bool \<times> int option) \<times> reservation_handler" where
  "cancel_reservation i execute_callback reason h =
     (if i \<notin> timers h then ((False, None), h)
      else let h = h\<lparr>timers := timers h - {i}\<rparr>;
               e = evse_with_reservation i (evse_reservations h);
               h = (case e of
                      Some k \<Rightarrow> h\<lparr>evse_reservations := map_erase k (evse_reservations h)\<rparr>
                    | None \<Rightarrow> h\<lparr>global_reservations := erase_first (\<lambda>r. reservation_id r = i) (global_reservations h)\<rparr>);
               h = store_reservations h;
               h = (if execute_callback \<and> cancelled_callback h then call_cancelled e i reason execute_callback h else h)
           in ((True, e), h))"

definition cancel_evse_reservation :: "int \<Rightarrow> bool \<Rightarrow> reservation_handler \<Rightarrow> bool \<times> reservation_handler" where
  "cancel_evse_reservation e execute_callback h = (case map_of (evse_reservations h) e of
       Some r \<Rightarrow> (case cancel_reservation (reservation_id r) execute_callback Cancelled h of (res, h) \<Rightarrow> (fst res, h))
     | None \<Rightarrow> (False, h))"

definition on_reservation_used :: "int \<Rightarrow> reservation_handler \<Rightarrow> reservation_handler" where
  "on_reservation_used i h = snd (cancel_reservation i False UsedToStartCharging h)"

text \<open>The callback of the timer of a reservation.\<close>

definition reservation_expired :: "int \<Rightarrow> reservation_handler \<Rightarrow> reservation_handler" where
  "reservation_expired i h = snd (cancel_reservation i True Expired h)"

section \<open>Making a reservation\<close>

text \<open>
  \<open>now\<close> is the time in milliseconds and \<open>from_rfc3339\<close> reads a point in time
  (\<^verbatim>\<open>Everest::Date::from_rfc3339\<close>, a parameter).
\<close>

definition make_evse_reservation :: "int \<Rightarrow> Reservation \<Rightarrow> reservation_handler \<Rightarrow> ReservationResult \<times> reservation_handler" where
  "make_evse_reservation e r h = (case map_of (evse_reservations h) e of
       Some _ \<Rightarrow> (Occupied, h)
     | None \<Rightarrow> (case map_of (evses h) e of
           None \<Rightarrow> (Rejected, h)
         | Some evse \<Rightarrow>
             let t = value_or UnknownType (res_connector_type r);
                 evse_state = get_evse_connector_state_reservation_result (evses h) (evse_reservations h) e;
                 connector_state = get_connector_availability_reservation_result (evses h) e t
             in if \<not> has_evse_connector_type (connectors evse) t then (Rejected, h)
                else if evse_state \<noteq> Accepted then (evse_state, h)
                else if connector_state \<noteq> Accepted then (connector_state, h)
                else if global_reservations h = []
                then let h = set_reservation_timer r h;
                         h = h\<lparr>evse_reservations := map_put e r (evse_reservations h)\<rparr>
                     in (Accepted, store_reservations h)
                else if \<not> is_reservation_possible (evses h) None (global_reservations h) (map_put e r (evse_reservations h))
                then (get_reservation_evse_connector_state t h, h)
                else let h = h\<lparr>evse_reservations := map_put e r (evse_reservations h)\<rparr>;
                         h = store_reservations h
                     in (Accepted, set_reservation_timer r h)))"

definition make_global_reservation :: "Reservation \<Rightarrow> reservation_handler \<Rightarrow> ReservationResult \<times> reservation_handler" where
  "make_global_reservation r h =
     (if res_connector_type r \<noteq> None \<and> \<not> does_evse_connector_type_exist (evses h) (the (res_connector_type r))
      then (Rejected, h)
      else let t = value_or UnknownType (res_connector_type r)
           in if \<not> is_reservation_possible (evses h) (Some t) (global_reservations h) (evse_reservations h)
              then (get_reservation_evse_connector_state t h, h)
              else let h = h\<lparr>global_reservations := global_reservations h @ [r]\<rparr>;
                       h = store_reservations h
                   in (Accepted, set_reservation_timer r h))"

definition make_reservation ::
    "(string \<Rightarrow> int) \<Rightarrow> int \<Rightarrow> int option \<Rightarrow> Reservation \<Rightarrow> reservation_handler \<Rightarrow> ReservationResult \<times> reservation_handler" where
  "make_reservation from_rfc3339 now e r h =
     (if now > from_rfc3339 (expiry_time r) then (Rejected, h)
      else let h = snd (cancel_reservation (reservation_id r) False Cancelled h)
           in case e of Some e \<Rightarrow> make_evse_reservation e r h | None \<Rightarrow> make_global_reservation r h)"

section \<open>Queries\<close>

definition is_evse_reserved :: "int \<Rightarrow> reservation_handler \<Rightarrow> bool" where
  "is_evse_reserved e h = map_has (evse_reservations h) e"

definition is_evse_reserved_with :: "int \<Rightarrow> int \<Rightarrow> reservation_handler \<Rightarrow> bool" where
  "is_evse_reserved_with e i h = (case map_of (evse_reservations h) e of
       Some r \<Rightarrow> reservation_id r = i
     | None \<Rightarrow> False)"

definition get_evse_reservation :: "int \<Rightarrow> int \<Rightarrow> reservation_handler \<Rightarrow> Reservation option" where
  "get_evse_reservation e i h = (case map_of (evse_reservations h) e of
       Some r \<Rightarrow> if reservation_id r \<noteq> i then None else Some r
     | None \<Rightarrow> None)"

definition get_evse_id_of_reservation :: "int \<Rightarrow> reservation_handler \<Rightarrow> int option" where
  "get_evse_id_of_reservation i h =
     map_option fst (find (\<lambda>e. reservation_id (snd e) = i) (evse_reservations h))"

definition is_charging_possible :: "int \<Rightarrow> Reservation \<Rightarrow> reservation_handler \<Rightarrow> bool" where
  "is_charging_possible e dummy h =
     (if map_has (evse_reservations h) e then False
      else if \<not> map_has (evses h) e then False
      else is_reservation_possible (evses h) None (global_reservations h) (map_put e dummy (evse_reservations h)))"

definition token_matches :: "string \<Rightarrow> string option \<Rightarrow> Reservation \<Rightarrow> bool" where
  "token_matches token parent r =
     (is_equal_case_insensitive (id_token r) token \<or>
      (case (parent, parent_id_token r) of
         (Some p, Some q) \<Rightarrow> is_equal_case_insensitive p q
       | _ \<Rightarrow> False))"

definition matches_reserved_identifier :: "string \<Rightarrow> int option \<Rightarrow> string option \<Rightarrow> reservation_handler \<Rightarrow> int option" where
  "matches_reserved_identifier token e parent h =
     (case Option.bind e (map_of (evse_reservations h)) of
        Some r \<Rightarrow> if token_matches token parent r then Some (reservation_id r) else None
      | None \<Rightarrow> map_option reservation_id (find (token_matches token parent) (global_reservations h)))"

definition has_reservation_parent_id :: "int option \<Rightarrow> reservation_handler \<Rightarrow> bool" where
  "has_reservation_parent_id e h =
     (if e \<noteq> None \<and> \<not> map_has (evses h) (the e) then False
      else case Option.bind e (map_of (evse_reservations h)) of
             Some r \<Rightarrow> parent_id_token r \<noteq> None
           | None \<Rightarrow> list_ex (\<lambda>r. parent_id_token r \<noteq> None) (global_reservations h))"

section \<open>Changes of the charging points\<close>

fun check_evse_specific :: "evse_map \<Rightarrow> reservation_map \<Rightarrow> reservation_map \<Rightarrow> int list \<Rightarrow> reservation_map \<times> int list" where
  "check_evse_specific es [] specific cancel = (specific, cancel)"
| "check_evse_specific es ((e, r) # m) specific cancel =
     (let specific' = map_put e r specific
      in if \<not> is_reservation_possible es None [] specific'
         then check_evse_specific es m (map_erase e specific') (cancel @ [reservation_id r])
         else check_evse_specific es m specific' cancel)"

fun check_globals :: "evse_map \<Rightarrow> reservation_map \<Rightarrow> Reservation list \<Rightarrow> Reservation list \<Rightarrow> int list \<Rightarrow> Reservation list \<times> int list" where
  "check_globals es specific [] kept cancel = (kept, cancel)"
| "check_globals es specific (r # rs) kept cancel =
     (if is_reservation_possible es (res_connector_type r) kept specific
      then check_globals es specific rs (kept @ [r]) cancel
      else check_globals es specific rs kept (cancel @ [reservation_id r]))"

definition check_reservations_and_cancel_if_not_possible :: "reservation_handler \<Rightarrow> reservation_handler" where
  "check_reservations_and_cancel_if_not_possible h =
     (case check_evse_specific (evses h) (evse_reservations h) [] [] of (specific, cancel) \<Rightarrow>
        case check_globals (evses h) specific (global_reservations h) [] cancel of (kept, cancel) \<Rightarrow>
          fold (\<lambda>i h. snd (cancel_reservation i True Cancelled h)) cancel h)"

definition on_connector_state_changed :: "ConnectorState \<Rightarrow> int \<Rightarrow> int \<Rightarrow> reservation_handler \<Rightarrow> reservation_handler" where
  "on_connector_state_changed state e c h =
     (if state = AVAILABLE then h
      else case map_of (evses h) e of
             None \<Rightarrow> h
           | Some evse \<Rightarrow> (case find (\<lambda>x. connector_id x = c) (connectors evse) of
                 None \<Rightarrow> h
               | Some conn \<Rightarrow> (case map_of (evse_reservations h) e of
                     Some r \<Rightarrow> (case res_connector_type r of
                         Some t \<Rightarrow> if connector_type conn = t \<or> connector_type conn = UnknownType \<or> t = UnknownType
                                   then snd (cancel_reservation (reservation_id r) True Cancelled h)
                                   else check_reservations_and_cancel_if_not_possible h
                       | None \<Rightarrow> check_reservations_and_cancel_if_not_possible h)
                   | None \<Rightarrow> check_reservations_and_cancel_if_not_possible h)))"

section \<open>Loading\<close>

text \<open>
  An entry of the store that cannot be read is \<^const>\<open>None\<close>. The result is \<^const>\<open>None\<close> when the
  cancellation callback is called but not registered.
\<close>

fun load_entries ::
    "(string \<Rightarrow> int) \<Rightarrow> int \<Rightarrow> (int option \<times> Reservation) option list \<Rightarrow> reservation_handler \<Rightarrow> reservation_handler option" where
  "load_entries from_rfc3339 now [] h = Some h"
| "load_entries from_rfc3339 now (None # entries) h = load_entries from_rfc3339 now entries h"
| "load_entries from_rfc3339 now (Some (e, r) # entries) h =
     (case make_reservation from_rfc3339 now e r h of (result, h) \<Rightarrow>
        if result = Accepted
        then load_entries from_rfc3339 now entries (case e of
               Some k \<Rightarrow> h\<lparr>restored_reservations := map_put k (reservation_id r) (restored_reservations h)\<rparr>
             | None \<Rightarrow> h)
        else if cancelled_callback h
        then load_entries from_rfc3339 now entries (call_cancelled e (reservation_id r) Cancelled True h)
        else None)"

definition load_reservations ::
    "(string \<Rightarrow> int) \<Rightarrow> int \<Rightarrow> (int option \<times> Reservation) option list option \<Rightarrow> reservation_handler \<Rightarrow> reservation_handler option" where
  "load_reservations from_rfc3339 now content h =
     (case stored h of
        None \<Rightarrow> Some h
      | Some _ \<Rightarrow> (case content of None \<Rightarrow> Some h | Some entries \<Rightarrow> load_entries from_rfc3339 now entries h))"

definition take_restored_reservation :: "int \<Rightarrow> reservation_handler \<Rightarrow> int option \<times> reservation_handler" where
  "take_restored_reservation e h = (case map_of (restored_reservations h) e of
       None \<Rightarrow> (None, h)
     | Some i \<Rightarrow>
         let h = h\<lparr>restored_reservations := map_erase e (restored_reservations h)\<rparr>
         in (if is_evse_reserved_with e i h then Some i else None, h))"

definition new_handler :: "evse_map \<Rightarrow> (int option \<times> Reservation) list option \<Rightarrow> bool \<Rightarrow> reservation_handler" where
  "new_handler es store callback =
     \<lparr>evses = es, stored = store, evse_reservations = [], global_reservations = [], restored_reservations = [],
      timers = {}, cancelled_callback = callback, notifications = [], last_reserved_status = {}\<rparr>"

section \<open>Consistency\<close>

definition all_reservations :: "reservation_handler \<Rightarrow> Reservation list" where
  "all_reservations h = map snd (evse_reservations h) @ global_reservations h"

text \<open>
  The maps are in order, reservations are for existing charging points, identifiers are unique, exactly the
  reservations have a timer, and the store (where there is one) holds the reservations.
\<close>

definition handler_ok :: "reservation_handler \<Rightarrow> bool" where
  "handler_ok h =
     (ordered (evses h) \<and> ordered (evse_reservations h) \<and> ordered (restored_reservations h) \<and>
      fst ` set (evse_reservations h) \<subseteq> fst ` set (evses h) \<and>
      distinct (map reservation_id (all_reservations h)) \<and>
      timers h = reservation_id ` set (all_reservations h) \<and>
      (\<forall>content. stored h = Some content \<longrightarrow> content = persisted h))"

lemma store_reservations_fields [simp]:
  "evses (store_reservations h) = evses h"
  "evse_reservations (store_reservations h) = evse_reservations h"
  "global_reservations (store_reservations h) = global_reservations h"
  "restored_reservations (store_reservations h) = restored_reservations h"
  "timers (store_reservations h) = timers h"
  "cancelled_callback (store_reservations h) = cancelled_callback h"
  "notifications (store_reservations h) = notifications h"
  "last_reserved_status (store_reservations h) = last_reserved_status h"
  "stored (store_reservations h) = map_option (\<lambda>_. persisted h) (stored h)"
  by (simp_all add: store_reservations_def split: option.split)

lemma send_updates_fields [simp]:
  "evses (check_evse_reserved_and_send_updates h) = evses h"
  "evse_reservations (check_evse_reserved_and_send_updates h) = evse_reservations h"
  "global_reservations (check_evse_reserved_and_send_updates h) = global_reservations h"
  "restored_reservations (check_evse_reserved_and_send_updates h) = restored_reservations h"
  "timers (check_evse_reserved_and_send_updates h) = timers h"
  "cancelled_callback (check_evse_reserved_and_send_updates h) = cancelled_callback h"
  "stored (check_evse_reserved_and_send_updates h) = stored h"
  by (simp_all add: check_evse_reserved_and_send_updates_def check_number_global_reservations_match_number_available_evses_def
      get_evse_global_reserved_status_and_set_new_status_def Let_def)

lemma call_cancelled_fields [simp]:
  "evses (call_cancelled e i reason u h) = evses h"
  "evse_reservations (call_cancelled e i reason u h) = evse_reservations h"
  "global_reservations (call_cancelled e i reason u h) = global_reservations h"
  "restored_reservations (call_cancelled e i reason u h) = restored_reservations h"
  "timers (call_cancelled e i reason u h) = timers h"
  "cancelled_callback (call_cancelled e i reason u h) = cancelled_callback h"
  "stored (call_cancelled e i reason u h) = stored h"
  by (simp_all add: call_cancelled_def call_reservation_cancelled_def notify_cancelled_def)

lemma erase_first_filter: "distinct (map f xs) \<Longrightarrow> erase_first (\<lambda>x. f x = i) xs = filter (\<lambda>x. f x \<noteq> i) xs"
  by (induction xs) (auto intro!: filter_True [symmetric], metis image_eqI)

lemma evse_with_reservation_None: "evse_with_reservation i m = None \<longleftrightarrow> i \<notin> reservation_id ` snd ` set m"
proof -
  have "evse_with_reservation i m = None \<longleftrightarrow> filter (\<lambda>e. reservation_id (snd e) = i) m = []"
    by (simp add: evse_with_reservation_def split: list.split)
  then show ?thesis
    by (auto simp: filter_empty_conv)
qed

lemma evse_with_reservation_Some:
  assumes "evse_with_reservation i m = Some k"
  shows "\<exists>r. (k, r) \<in> set m \<and> reservation_id r = i"
proof -
  let ?es = "filter (\<lambda>e. reservation_id (snd e) = i) m"
  define l where "l = last ?es"
  have "?es \<noteq> []" and k: "k = fst l"
    unfolding l_def using assms by (cases ?es; simp add: evse_with_reservation_def)+
  then have "l \<in> set ?es"
    unfolding l_def using last_in_set by blast
  then show ?thesis
    unfolding k by (intro exI [of _ "snd l"]) simp
qed

lemma erase_reservation:
  assumes "ordered m" and "distinct (map (\<lambda>e. reservation_id (snd e)) m)" and "evse_with_reservation i m = Some k"
  shows "map_erase k m = filter (\<lambda>e. reservation_id (snd e) \<noteq> i) m"
  unfolding map_erase_def
proof (rule filter_cong)
  obtain r where r: "(k, r) \<in> set m" "reservation_id r = i"
    using evse_with_reservation_Some [OF assms(3)] by blast
  fix e
  assume e: "e \<in> set m"
  have "e = (k, r)" if "fst e = k"
    using that e r(1) ordered_distinct [OF assms(1)] by (cases e) (metis eq_key_imp_eq_value fst_conv)
  moreover have "e = (k, r)" if "reservation_id (snd e) = i"
    using that e r assms(2) by (auto simp: distinct_map inj_on_def)
  ultimately show "(fst e \<noteq> k) = (reservation_id (snd e) \<noteq> i)"
    using r(2) by force
qed simp

text \<open>Cancelling removes exactly the reservation with the identifier, wherever it is.\<close>

lemma cancel_effect:
  assumes "handler_ok h" and "cancel_reservation i cb reason h = (res, h')"
  shows "evse_reservations h' = filter (\<lambda>e. reservation_id (snd e) \<noteq> i) (evse_reservations h)"
    and "global_reservations h' = filter (\<lambda>r. reservation_id r \<noteq> i) (global_reservations h)"
    and "timers h' = timers h - {i}" and "evses h' = evses h"
    and "restored_reservations h' = restored_reservations h"
    and "cancelled_callback h' = cancelled_callback h" and "stored h' = None \<longleftrightarrow> stored h = None"
    and "\<forall>content. stored h' = Some content \<longrightarrow> content = persisted h'"
    and "fst res \<longleftrightarrow> i \<in> timers h"
proof -
  let ?m = "evse_reservations h" and ?gs = "global_reservations h"
  have ids: "distinct (map (\<lambda>e. reservation_id (snd e)) ?m)" "distinct (map reservation_id ?gs)"
      and apart: "i \<in> reservation_id ` snd ` set ?m \<Longrightarrow> i \<notin> reservation_id ` set ?gs"
      and all: "timers h = reservation_id ` snd ` set ?m \<union> reservation_id ` set ?gs"
    using assms(1) by (auto simp: handler_ok_def all_reservations_def image_Un image_image comp_def)
  have m: "i \<notin> reservation_id ` snd ` set ?m \<Longrightarrow> filter (\<lambda>e. reservation_id (snd e) \<noteq> i) ?m = ?m"
    and gs: "i \<notin> reservation_id ` set ?gs \<Longrightarrow> filter (\<lambda>r. reservation_id r \<noteq> i) ?gs = ?gs"
    by (force intro!: filter_True)+
  have "evse_reservations h' = filter (\<lambda>e. reservation_id (snd e) \<noteq> i) ?m \<and>
      global_reservations h' = filter (\<lambda>r. reservation_id r \<noteq> i) ?gs"
  proof (cases "i \<in> timers h")
    case False
    then show ?thesis
      using assms(2) m gs all by (simp add: cancel_reservation_def)
  next
    case True
    show ?thesis
    proof (cases "evse_with_reservation i ?m")
      case None
      then show ?thesis
        using True assms(2) m evse_with_reservation_None [of i ?m] erase_first_filter [OF ids(2)]
        by (auto simp: cancel_reservation_def Let_def)
    next
      case (Some k)
      then have "i \<in> reservation_id ` snd ` set ?m"
        using evse_with_reservation_None [of i ?m] by auto
      then show ?thesis
        using True assms Some gs apart erase_reservation [OF _ ids(1) Some]
        by (auto simp: cancel_reservation_def Let_def handler_ok_def)
    qed
  qed
  then show "evse_reservations h' = filter (\<lambda>e. reservation_id (snd e) \<noteq> i) ?m"
    "global_reservations h' = filter (\<lambda>r. reservation_id r \<noteq> i) ?gs"
    by simp_all
  show "timers h' = timers h - {i}" "evses h' = evses h" "restored_reservations h' = restored_reservations h"
    "cancelled_callback h' = cancelled_callback h" "stored h' = None \<longleftrightarrow> stored h = None" "fst res \<longleftrightarrow> i \<in> timers h"
    using assms(2) by (auto simp: cancel_reservation_def Let_def split: option.splits if_splits)
  show "\<forall>content. stored h' = Some content \<longrightarrow> content = persisted h'"
    using assms by (auto simp: cancel_reservation_def Let_def handler_ok_def persisted_def split: option.splits if_splits)
qed

lemma cancel_ok:
  assumes "handler_ok h" and "cancel_reservation i cb reason h = (res, h')"
  shows "handler_ok h'" and "i \<notin> reservation_id ` set (all_reservations h')"
proof -
  note c = cancel_effect [OF assms]
  have all: "all_reservations h' = filter (\<lambda>r. reservation_id r \<noteq> i) (all_reservations h)"
    by (simp add: all_reservations_def c filter_map comp_def)
  have "ordered (evse_reservations h')"
    using assms(1) unfolding c by (auto simp: handler_ok_def ordered_def sorted_wrt_filter filter_map [symmetric] sorted_wrt_map)
  moreover have "distinct (map reservation_id (all_reservations h'))"
    using assms(1) unfolding all by (simp add: handler_ok_def distinct_map_filter)
  moreover have "timers h' = reservation_id ` set (all_reservations h')"
    using assms(1) unfolding all c by (auto simp: handler_ok_def)
  ultimately show "handler_ok h'"
    using assms(1) c by (auto simp: handler_ok_def)
  show "i \<notin> reservation_id ` set (all_reservations h')"
    unfolding all by auto
qed

section \<open>Refusals\<close>

lemma new_state_not_available: "s \<noteq> AVAILABLE \<Longrightarrow> get_new_connector_state s s' \<noteq> AVAILABLE"
  by (cases s') (auto simp: get_new_connector_state_def)

lemma result_Accepted: "connector_state_to_reservation_result s = Accepted \<longleftrightarrow> s = AVAILABLE"
  by (cases s) simp_all

lemma refusal_not_Accepted: "get_reservation_evse_connector_state t h \<noteq> Accepted"
proof -
  have "fold (\<lambda>c state. if P c then get_new_connector_state state (f c) else state) cs s \<noteq> AVAILABLE"
    if "s \<noteq> AVAILABLE" for P f s and cs :: "Connector list"
    using that by (induction cs arbitrary: s) (auto simp: new_state_not_available)
  then show ?thesis
    by (simp add: get_reservation_evse_connector_state_def result_Accepted new_state_not_available)
qed

section \<open>The effect of making a reservation\<close>

definition replaced :: "Reservation \<Rightarrow> reservation_handler \<Rightarrow> reservation_handler" where
  "replaced r h = snd (cancel_reservation (reservation_id r) False Cancelled h)"

lemma replaced_ok:
  assumes "handler_ok h"
  shows "handler_ok (replaced r h)" and "reservation_id r \<notin> reservation_id ` set (all_reservations (replaced r h))"
  using cancel_ok [OF assms] by (cases "cancel_reservation (reservation_id r) False Cancelled h"; simp add: replaced_def)+

lemma make_refused:
  assumes "make_reservation from_rfc3339 now e r h = (res, h')" and "res \<noteq> Accepted"
  shows "h' = h \<or> h' = replaced r h"
  using assms
  by (auto simp: make_reservation_def make_evse_reservation_def make_global_reservation_def replaced_def Let_def
      split: if_splits option.splits)

lemma make_evse_accepted:
  assumes "make_reservation from_rfc3339 now (Some e) r h = (Accepted, h')"
  shows "\<not> map_has (evse_reservations (replaced r h)) e" and "map_has (evses (replaced r h)) e"
    and "evse_reservations h' = map_put e r (evse_reservations (replaced r h))"
    and "global_reservations h' = global_reservations (replaced r h)"
    and "global_reservations (replaced r h) = [] \<or>
      is_reservation_possible (evses h') None (global_reservations h') (evse_reservations h')"
    and "evses h' = evses (replaced r h)" and "timers h' = insert (reservation_id r) (timers (replaced r h))"
    and "restored_reservations h' = restored_reservations (replaced r h)"
    and "cancelled_callback h' = cancelled_callback (replaced r h)"
    and "stored h' = map_option (\<lambda>_. persisted h') (stored (replaced r h))"
    and "now \<le> from_rfc3339 (expiry_time r)"
  using assms refusal_not_Accepted
  by (auto simp: make_reservation_def make_evse_reservation_def replaced_def set_reservation_timer_def map_has_def persisted_def
      Let_def split: if_splits option.splits)

lemma make_global_accepted:
  assumes "make_reservation from_rfc3339 now None r h = (Accepted, h')"
  shows "evse_reservations h' = evse_reservations (replaced r h)"
    and "global_reservations h' = global_reservations (replaced r h) @ [r]"
    and "is_reservation_possible (evses h') None (global_reservations h') (evse_reservations h')"
    and "evses h' = evses (replaced r h)" and "timers h' = insert (reservation_id r) (timers (replaced r h))"
    and "restored_reservations h' = restored_reservations (replaced r h)"
    and "cancelled_callback h' = cancelled_callback (replaced r h)"
    and "stored h' = map_option (\<lambda>_. persisted h') (stored (replaced r h))"
    and "now \<le> from_rfc3339 (expiry_time r)"
  using assms refusal_not_Accepted
  by (auto simp: make_reservation_def make_global_reservation_def replaced_def set_reservation_timer_def persisted_def
      is_reservation_possible_def reserved_types_def Let_def split: if_splits option.splits)

lemma mset_put: "\<not> map_has m k \<Longrightarrow> mset (map_put k v m) = add_mset (k, v) (mset m)"
  by (induction m) (auto simp: map_has_def split: if_splits)

lemma handler_ok_add:
  assumes "handler_ok h" and "reservation_id r \<notin> reservation_id ` set (all_reservations h)"
    and "mset (all_reservations h') = add_mset r (mset (all_reservations h))"
    and "ordered (evse_reservations h')" and "fst ` set (evse_reservations h') \<subseteq> fst ` set (evses h)"
    and "evses h' = evses h" and "timers h' = insert (reservation_id r) (timers h)"
    and "restored_reservations h' = restored_reservations h" and "stored h' = map_option (\<lambda>_. persisted h') (stored h)"
  shows "handler_ok h'"
proof -
  have "mset (map reservation_id (all_reservations h')) = mset (map reservation_id (r # all_reservations h))"
    using assms(3) by simp
  then have "distinct (map reservation_id (all_reservations h')) = distinct (map reservation_id (r # all_reservations h))"
    by (rule mset_eq_imp_distinct_iff)
  moreover have "set (all_reservations h') = insert r (set (all_reservations h))"
    using assms(3) by (metis set_mset_add_mset_insert set_mset_mset)
  ultimately show ?thesis
    using assms by (auto simp: handler_ok_def)
qed

lemma make_ok:
  assumes "handler_ok h" and "make_reservation from_rfc3339 now e r h = (res, h')"
  shows "handler_ok h'"
proof (cases "res = Accepted")
  case False
  then show ?thesis
    using make_refused [OF assms(2)] assms(1) replaced_ok by auto
next
  case acc: True
  let ?h = "replaced r h"
  note ok = replaced_ok [OF assms(1), of r]
  show ?thesis
  proof (cases e)
    case None
    note a = make_global_accepted [OF assms(2) [unfolded acc None]]
    show ?thesis
      by (rule handler_ok_add [OF ok]) (use ok(1) in \<open>simp_all add: a all_reservations_def handler_ok_def\<close>)
  next
    case (Some k)
    note a = make_evse_accepted [OF assms(2) [unfolded acc Some]]
    have "mset (all_reservations h') = add_mset r (mset (all_reservations ?h))"
      by (simp add: all_reservations_def a(3,4) mset_put [OF a(1)])
    moreover have "ordered (evse_reservations h')"
      using ok(1) unfolding a(3) by (auto simp: handler_ok_def)
    moreover have "fst ` set (evse_reservations h') \<subseteq> fst ` set (evses ?h)"
      using ok(1) a(2) unfolding a(3) set_keys_put by (simp add: handler_ok_def map_has_iff)
    ultimately show ?thesis
      using a by (intro handler_ok_add [OF ok]) simp_all
  qed
qed

lemma cancel_all_ok: "handler_ok h \<Longrightarrow> handler_ok (fold (\<lambda>i h. snd (cancel_reservation i cb reason h)) is h)"
proof (induction "is" arbitrary: h)
  case (Cons i "is")
  then show ?case
    using cancel_ok(1) [OF Cons.prems, of i cb reason] by (cases "cancel_reservation i cb reason h") simp
qed simp

lemma cancel_all_effect:
  assumes "handler_ok h"
  defines "all \<equiv> \<lambda>cb reason is. fold (\<lambda>i h. snd (cancel_reservation i cb reason h)) is"
  shows "evse_reservations (all cb reason is h) = filter (\<lambda>e. reservation_id (snd e) \<notin> set is) (evse_reservations h) \<and>
    global_reservations (all cb reason is h) = filter (\<lambda>r. reservation_id r \<notin> set is) (global_reservations h) \<and>
    evses (all cb reason is h) = evses h"
  using assms(1)
proof (induction "is" arbitrary: h)
  case (Cons i "is")
  obtain res u where u: "cancel_reservation i cb reason h = (res, u)"
    by (cases "cancel_reservation i cb reason h")
  note c = cancel_effect [OF Cons.prems u]
  have "all cb reason (i # is) h = all cb reason is u"
    using u by (simp add: all_def)
  then show ?case
    using Cons.IH [OF cancel_ok(1) [OF Cons.prems u]] by (auto simp: c intro: filter_cong)
qed (simp add: all_def)

end
