(* ===== verification/Reservation_Safety.thy ===== *)
theory Reservation_Safety
  imports Reservation_Handler
begin

text \<open>
  What the reservation handler promises: it stays consistent in every run, an accepted reservation is kept and
  every reserved vehicle finds a charging point, charging without a reservation takes no place of a reserved
  vehicle, the reservations that a change of a charging point leaves are served, and the reservations survive
  a restart.
\<close>

section \<open>Runs of the handler\<close>

text \<open>
  The calls from \<^verbatim>\<open>AuthHandler\<close>, the expiry timers, and changes of the charging points, which the handler
  shares with \<^verbatim>\<open>AuthHandler\<close>.
\<close>

datatype reservation_op =
    Make_reservation int "int option" Reservation
  | Cancel_reservation int bool ReservationEndReason
  | Cancel_evse_reservation int bool
  | Reservation_used int
  | Reservation_expired int
  | Connector_state_changed ConnectorState int int
  | Check_number_global_reservations
  | Take_restored_reservation int
  | Evse_changed int EVSEContext

fun reservation_step :: "(string \<Rightarrow> int) \<Rightarrow> reservation_op \<Rightarrow> reservation_handler \<Rightarrow> reservation_handler" where
  "reservation_step from_rfc3339 (Make_reservation now e r) h = snd (make_reservation from_rfc3339 now e r h)"
| "reservation_step from_rfc3339 (Cancel_reservation i cb reason) h = snd (cancel_reservation i cb reason h)"
| "reservation_step from_rfc3339 (Cancel_evse_reservation e cb) h = snd (cancel_evse_reservation e cb h)"
| "reservation_step from_rfc3339 (Reservation_used i) h = on_reservation_used i h"
| "reservation_step from_rfc3339 (Reservation_expired i) h = reservation_expired i h"
| "reservation_step from_rfc3339 (Connector_state_changed s e c) h = on_connector_state_changed s e c h"
| "reservation_step from_rfc3339 Check_number_global_reservations h =
     snd (check_number_global_reservations_match_number_available_evses h)"
| "reservation_step from_rfc3339 (Take_restored_reservation e) h = snd (take_restored_reservation e h)"
| "reservation_step from_rfc3339 (Evse_changed e evse) h =
     (if map_has (evses h) e then h\<lparr>evses := map_put e evse (evses h)\<rparr> else h)"

definition reservation_trans :: "(string \<Rightarrow> int) \<Rightarrow> reservation_op \<Rightarrow> reservation_handler \<Rightarrow> reservation_handler \<Rightarrow> bool" where
  "reservation_trans from_rfc3339 op h h' = (h' = reservation_step from_rfc3339 op h)"

definition reservation_start :: "reservation_handler \<Rightarrow> bool" where
  "reservation_start h = (\<exists>es cb. ordered es \<and> (h = new_handler es None cb \<or> h = new_handler es (Some []) cb))"

lemma cancel_snd_ok: "handler_ok h \<Longrightarrow> handler_ok (snd (cancel_reservation i cb reason h))"
  using cancel_ok(1) by (cases "cancel_reservation i cb reason h") auto

lemma check_ok: "handler_ok h \<Longrightarrow> handler_ok (check_reservations_and_cancel_if_not_possible h)"
  by (simp add: check_reservations_and_cancel_if_not_possible_def cancel_all_ok split: prod.split)

lemma handler_ok_fields:
  "handler_ok h \<Longrightarrow> handler_ok (h\<lparr>last_reserved_status := x\<rparr>)"
  "handler_ok h \<Longrightarrow> handler_ok (h\<lparr>restored_reservations := map_erase e (restored_reservations h)\<rparr>)"
  "handler_ok h \<Longrightarrow> map_has (evses h) e \<Longrightarrow> handler_ok (h\<lparr>evses := map_put e evse (evses h)\<rparr>)"
  by (auto simp: handler_ok_def all_reservations_def persisted_def set_keys_put map_has_iff)

lemma reservation_step_ok: "handler_ok h \<Longrightarrow> handler_ok (reservation_step from_rfc3339 op h)"
proof (cases op)
  case (Make_reservation now e r)
  assume "handler_ok h"
  then show ?thesis
    using Make_reservation make_ok by (cases "make_reservation from_rfc3339 now e r h") auto
next
  case (Cancel_evse_reservation e cb)
  assume ok: "handler_ok h"
  show ?thesis
    using Cancel_evse_reservation ok cancel_snd_ok [OF ok]
    by (simp add: cancel_evse_reservation_def case_prod_beta split: option.split)
next
  case (Connector_state_changed s e c)
  assume ok: "handler_ok h"
  show ?thesis
    using Connector_state_changed ok by (simp add: on_connector_state_changed_def cancel_snd_ok check_ok split: option.split)
qed (auto simp: on_reservation_used_def reservation_expired_def cancel_snd_ok take_restored_reservation_def Let_def
    check_number_global_reservations_match_number_available_evses_def get_evse_global_reserved_status_and_set_new_status_def
    handler_ok_fields split: option.split)

interpretation reservations: invariant_system reservation_start "reservation_trans from_rfc3339" handler_ok
  for from_rfc3339
proof
  show "handler_ok h" if "reservation_start h" for h
    using that by (auto simp: reservation_start_def new_handler_def handler_ok_def all_reservations_def persisted_def ordered_def)
  show "handler_ok h'" if "handler_ok h" "reservation_trans from_rfc3339 op h h'" for h op h'
    using that by (simp add: reservation_trans_def reservation_step_ok)
qed

section \<open>Changes of the charging points\<close>

lemma possible_snoc:
  "is_reservation_possible es (Some (value_or UnknownType (res_connector_type r))) kept specific =
     is_reservation_possible es None (kept @ [r]) specific"
  by (simp add: is_reservation_possible_def reserved_types_def)

lemma possible_prefix:
  assumes "is_reservation_possible es None (xs @ ys) specific"
  shows "is_reservation_possible es None xs specific"
  using assms always_served_mono [of "can_use es specific" "mset (reserved_types (xs @ ys))" "mset (reserved_types xs)"]
  by (simp add: is_reservation_possible_iff Let_def reserved_types_def)

lemma possible_without_globals: "is_reservation_possible es None [] specific \<longleftrightarrow> length specific \<le> length es"
  by (simp add: is_reservation_possible_def reserved_types_def get_all_possible_orders_def)

lemma fewer_keys:
  assumes "ordered m" and "fst ` set m \<subseteq> fst ` set es"
  shows "length m \<le> length es"
proof -
  have "length m = card (fst ` set m)"
    by (rule length_ordered [OF assms(1)])
  also have "\<dots> \<le> card (fst ` set es)"
    using assms(2) by (simp add: card_mono)
  also have "\<dots> \<le> length es"
    by (metis card_length length_map list.set_map)
  finally show ?thesis .
qed

text \<open>The first loop never finds a reservation to cancel: it only compares two numbers.\<close>

lemma check_evse_specific_keeps:
  "ordered (specific @ m) \<Longrightarrow> fst ` set (specific @ m) \<subseteq> fst ` set es \<Longrightarrow>
     check_evse_specific es m specific cancel = (specific @ m, cancel)"
proof (induction m arbitrary: specific)
  case (Cons er m)
  obtain e r where er: "er = (e, r)"
    by (cases er)
  have o: "ordered (specific @ [(e, r)])"
    using Cons.prems(1) by (simp add: er ordered_def sorted_wrt_append)
  have "length (specific @ [(e, r)]) \<le> length es"
    using Cons.prems(2) by (intro fewer_keys [OF o]) (auto simp: er)
  then show ?case
    using Cons.prems Cons.IH [of "specific @ [(e, r)]"] by (simp add: er map_put_last [OF o] possible_without_globals)
qed simp

lemma check_globals_feasible:
  "is_reservation_possible es None (kept @ rs) specific \<Longrightarrow> check_globals es specific rs kept cancel = (kept @ rs, cancel)"
proof (induction rs arbitrary: kept)
  case (Cons r rs)
  have "is_reservation_possible es None (kept @ [r]) specific" "is_reservation_possible es None kept specific"
    using Cons.prems possible_prefix [of es "kept @ [r]" rs] possible_prefix [of es kept "r # rs"] by simp_all
  then have "is_reservation_possible es (res_connector_type r) kept specific"
    using possible_snoc [of es r kept specific] by (cases "res_connector_type r") (simp_all add: value_or_def)
  then show ?case
    using Cons.IH [of "kept @ [r]"] Cons.prems by simp
qed simp

lemma check_globals_kept:
  assumes "\<forall>r \<in> set rs. res_connector_type r \<noteq> None" and "distinct (map reservation_id rs)"
    and "is_reservation_possible es None kept specific" and "check_globals es specific rs kept cancel = (kept', cancel')"
  shows "\<exists>cs. cancel' = cancel @ cs \<and> set cs \<subseteq> reservation_id ` set rs \<and>
    kept' = kept @ filter (\<lambda>r. reservation_id r \<notin> set cs) rs \<and> is_reservation_possible es None kept' specific"
  using assms
proof (induction rs arbitrary: kept cancel)
  case (Cons r rs)
  then obtain t where t: "res_connector_type r = Some t"
    by auto
  have r: "reservation_id r \<notin> reservation_id ` set rs"
      and rest: "\<forall>r \<in> set rs. res_connector_type r \<noteq> None" "distinct (map reservation_id rs)"
    using Cons.prems(1,2) by auto
  show ?case
  proof (cases "is_reservation_possible es None (kept @ [r]) specific")
    case True
    then have "check_globals es specific rs (kept @ [r]) cancel = (kept', cancel')"
      using Cons.prems(4) possible_snoc [of es r kept specific] by (simp add: t value_or_def)
    then obtain cs where cs: "cancel' = cancel @ cs" "set cs \<subseteq> reservation_id ` set rs"
        "kept' = (kept @ [r]) @ filter (\<lambda>r. reservation_id r \<notin> set cs) rs" "is_reservation_possible es None kept' specific"
      using Cons.IH [OF rest True] by blast
    then show ?thesis
      using r by (intro exI [of _ cs]) auto
  next
    case False
    then have "check_globals es specific rs kept (cancel @ [reservation_id r]) = (kept', cancel')"
      using Cons.prems(4) possible_snoc [of es r kept specific] by (simp add: t value_or_def)
    then obtain cs where cs: "cancel' = (cancel @ [reservation_id r]) @ cs" "set cs \<subseteq> reservation_id ` set rs"
        "kept' = kept @ filter (\<lambda>r. reservation_id r \<notin> set cs) rs" "is_reservation_possible es None kept' specific"
      using Cons.IH [OF rest Cons.prems(3)] by blast
    moreover have "filter (\<lambda>q. reservation_id q \<notin> set (reservation_id r # cs)) (r # rs) = filter (\<lambda>r. reservation_id r \<notin> set cs) rs"
      using r by (auto intro!: filter_cong) (metis image_eqI)
    ultimately show ?thesis
      by (intro exI [of _ "reservation_id r # cs"]) auto
  qed
qed simp

lemma check_result:
  assumes "handler_ok h"
  shows "check_reservations_and_cancel_if_not_possible h =
    fold (\<lambda>i h. snd (cancel_reservation i True Cancelled h))
      (snd (check_globals (evses h) (evse_reservations h) (global_reservations h) [] [])) h"
  using assms check_evse_specific_keeps [of "[]" "evse_reservations h" "evses h" "[]"]
  by (simp add: check_reservations_and_cancel_if_not_possible_def handler_ok_def case_prod_beta)

lemma check_keeps_feasible:
  assumes "handler_ok h" and "is_reservation_possible (evses h) None (global_reservations h) (evse_reservations h)"
  shows "check_reservations_and_cancel_if_not_possible h = h"
  using assms check_globals_feasible [of "evses h" "[]" "global_reservations h" "evse_reservations h" "[]"]
  by (simp add: check_result)

lemma check_restores_feasible:
  assumes "handler_ok h" and "\<forall>r \<in> set (global_reservations h). res_connector_type r \<noteq> None"
    and h': "h' = check_reservations_and_cancel_if_not_possible h"
  shows "evse_reservations h' = evse_reservations h" and "set (global_reservations h') \<subseteq> set (global_reservations h)"
    and "is_reservation_possible (evses h') None (global_reservations h') (evse_reservations h')"
proof -
  obtain kept cancel where c: "check_globals (evses h) (evse_reservations h) (global_reservations h) [] [] = (kept, cancel)"
    by fastforce
  have "is_reservation_possible (evses h) None [] (evse_reservations h)"
    using assms(1) by (simp add: possible_without_globals fewer_keys handler_ok_def)
  moreover have "distinct (map reservation_id (global_reservations h))"
    using assms(1) by (simp add: handler_ok_def all_reservations_def)
  ultimately have kept: "set cancel \<subseteq> reservation_id ` set (global_reservations h)"
      "kept = filter (\<lambda>r. reservation_id r \<notin> set cancel) (global_reservations h)"
      "is_reservation_possible (evses h) None kept (evse_reservations h)"
    using check_globals_kept [OF assms(2) _ _ c] by auto
  have "reservation_id (snd e) \<notin> set cancel" if "e \<in> set (evse_reservations h)" for e
    using that kept(1) assms(1) by (force simp: handler_ok_def all_reservations_def)
  then have m: "filter (\<lambda>e. reservation_id (snd e) \<notin> set cancel) (evse_reservations h) = evse_reservations h"
    by (simp add: filter_id_conv)
  have "h' = fold (\<lambda>i h. snd (cancel_reservation i True Cancelled h)) cancel h"
    using c check_result [OF assms(1)] by (simp add: h')
  then have "evse_reservations h' = evse_reservations h \<and> global_reservations h' = kept \<and> evses h' = evses h"
    using cancel_all_effect [OF assms(1), of True Cancelled cancel] by (simp only: m kept(2))
  then show "evse_reservations h' = evse_reservations h" "set (global_reservations h') \<subseteq> set (global_reservations h)"
      "is_reservation_possible (evses h') None (global_reservations h') (evse_reservations h')"
    using kept by auto
qed

section \<open>Charging without a reservation\<close>

lemma accepted_here_iff:
  "get_evse_connector_state_reservation_result es specific e = Accepted \<longleftrightarrow>
     (\<exists>evse. map_of es e = Some evse \<and> \<not> plugged_in evse \<and> occupied_result (connectors evse) = None \<and> \<not> map_has specific e)"
proof -
  have "occupied_result cs \<noteq> Some Accepted" for cs
    by (auto simp: occupied_result_def filter_eq_Cons_iff split: list.split)
  then show ?thesis
    by (auto simp: get_evse_connector_state_reservation_result_def split: option.split)
qed

text \<open>To the reserved vehicles, a charging point that is reserved and one where a vehicle has plugged in are the same.\<close>

lemma reserved_as_plugged_in:
  assumes "ordered es" and "map_of es e = Some evse"
  shows "can_use es (map_put e r specific) = can_use (map_put e (evse\<lparr>plugged_in := True\<rparr>) es) specific"
proof (intro ext)
  fix t i
  let ?es = "map_put e (evse\<lparr>plugged_in := True\<rparr>) es"
  show "can_use es (map_put e r specific) t i = can_use ?es specific t i"
    using assms ordered_put [OF assms(1)]
    by (auto simp: can_use_def evse_accepts_def accepted_here_iff get_connector_availability_reservation_result_def
        ordered_map_of [symmetric] map_has_def)
qed

section \<open>Restart\<close>

text \<open>The handler that holds the given reservations, all restored, and the contents that its store has.\<close>

definition restored_handler ::
    "evse_map \<Rightarrow> bool \<Rightarrow> (int option \<times> Reservation) list \<Rightarrow> reservation_map \<Rightarrow> Reservation list \<Rightarrow> reservation_handler" where
  "restored_handler es cb content m gs =
     (new_handler es (Some content) cb)\<lparr>evse_reservations := m, global_reservations := gs,
       restored_reservations := map (\<lambda>(e, r). (e, reservation_id r)) m,
       timers := reservation_id ` (snd ` set m \<union> set gs)\<rparr>"

lemma load_evse_entry:
  assumes "ordered es" and "ordered (m @ [(e, r)])" and "reservation_id r \<notin> reservation_id ` snd ` set m"
    and "now \<le> from_rfc3339 (expiry_time r)" and "can_use es [] (value_or UnknownType (res_connector_type r)) e"
  shows "load_entries from_rfc3339 now (Some (Some e, r) # entries) (restored_handler es cb content m []) =
    load_entries from_rfc3339 now entries
      (restored_handler es cb (persisted (restored_handler es cb content (m @ [(e, r)]) [])) (m @ [(e, r)]) [])"
proof -
  let ?h = "restored_handler es cb content m []"
  have new: "map_of m e = None"
    using assms(2) by (auto simp: ordered_def map_of_eq_None_iff sorted_wrt_append)
  have "cancel_reservation (reservation_id r) False Cancelled ?h = ((False, None), ?h)"
    using assms(3) by (simp add: cancel_reservation_def restored_handler_def)
  moreover obtain evse where evse: "map_of es e = Some evse" "evse_accepts es [] (value_or UnknownType (res_connector_type r)) (e, evse)"
    using assms(1,5) by (auto simp: can_use_def ordered_map_of)
  have put: "map_put e r m = m @ [(e, r)]"
    "map_put e (reservation_id r) (map (\<lambda>(e, r). (e, reservation_id r)) m) = map (\<lambda>(e, r). (e, reservation_id r)) (m @ [(e, r)])"
    using map_put_last [OF assms(2)] map_put_last [of "map (\<lambda>(e, r). (e, reservation_id r)) m" e "reservation_id r"] assms(2)
    by (simp_all add: ordered_def case_prod_beta comp_def)
  have state: "get_evse_connector_state_reservation_result es m e = Accepted"
    using evse new by (auto simp: evse_accepts_def accepted_here_iff map_has_def)
  ultimately have "make_reservation from_rfc3339 now (Some e) r ?h = (Accepted, store_reservations
      (?h\<lparr>timers := insert (reservation_id r) (timers ?h), evse_reservations := m @ [(e, r)]\<rparr>))"
    using assms(4) evse new put state
    by (simp add: make_reservation_def make_evse_reservation_def restored_handler_def new_handler_def evse_accepts_def Let_def
        set_reservation_timer_def)
  then show ?thesis
    using put by (simp add: restored_handler_def new_handler_def store_reservations_def persisted_def)
qed

lemma load_global_entry:
  assumes "reservation_id r \<notin> reservation_id ` (snd ` set m \<union> set gs)" and "now \<le> from_rfc3339 (expiry_time r)"
    and "is_reservation_possible es None (gs @ [r]) m"
  shows "load_entries from_rfc3339 now (Some (None, r) # entries) (restored_handler es cb content m gs) =
    load_entries from_rfc3339 now entries
      (restored_handler es cb (persisted (restored_handler es cb content m (gs @ [r]))) m (gs @ [r]))"
proof -
  let ?h = "restored_handler es cb content m gs"
  let ?t = "value_or UnknownType (res_connector_type r)"
  have cancel: "cancel_reservation (reservation_id r) False Cancelled ?h = ((False, None), ?h)"
    using assms(1) by (simp add: cancel_reservation_def restored_handler_def)
  have "always_served (can_use es m) (mset (reserved_types (gs @ [r])))"
    using assms(3) by (simp add: is_reservation_possible_iff Let_def)
  then have "\<exists>e. can_use es m ?t e"
    unfolding always_served_def by (elim allE [of _ "[]"] allE [of _ ?t]) (simp add: reserved_types_def)
  then have exist: "does_evse_connector_type_exist es ?t"
    by (force simp: can_use_def evse_accepts_def does_evse_connector_type_exist_def list_ex_iff)
  have "make_reservation from_rfc3339 now None r ?h = (Accepted, set_reservation_timer r (store_reservations
      (?h\<lparr>global_reservations := gs @ [r]\<rparr>)))"
    using assms(2,3) exist cancel possible_snoc [of es r gs m]
    by (cases "res_connector_type r")
      (auto simp: make_reservation_def make_global_reservation_def restored_handler_def new_handler_def Let_def value_or_def)
  then show ?thesis
    by (simp add: restored_handler_def new_handler_def store_reservations_def persisted_def set_reservation_timer_def)
qed

lemma persisted_restored:
  "persisted (restored_handler es cb content m gs) = map (\<lambda>e. (Some (fst e), snd e)) m @ map (Pair None) gs"
  by (simp add: persisted_def restored_handler_def)

lemma load_evse_entries:
  assumes "ordered es" and "ordered (m @ m')" and "distinct (map (reservation_id \<circ> snd) (m @ m'))"
    and "\<forall>(e, r) \<in> set m'. now \<le> from_rfc3339 (expiry_time r) \<and> can_use es [] (value_or UnknownType (res_connector_type r)) e"
  shows "load_entries from_rfc3339 now (map (\<lambda>e. Some (Some (fst e), snd e)) m' @ entries) (restored_handler es cb content m []) =
    load_entries from_rfc3339 now entries
      (restored_handler es cb (if m' = [] then content else map (\<lambda>e. (Some (fst e), snd e)) (m @ m')) (m @ m') [])"
  using assms
proof (induction m' arbitrary: m content)
  case (Cons er m')
  obtain e r where er: "er = (e, r)"
    by (cases er)
  have o: "ordered (m @ [(e, r)])"
    using Cons.prems(2) by (simp add: er ordered_def sorted_wrt_append)
  have new: "reservation_id r \<notin> reservation_id ` snd ` set m"
    using Cons.prems(3) by (auto simp: er)
  have now: "now \<le> from_rfc3339 (expiry_time r)" and use: "can_use es [] (value_or UnknownType (res_connector_type r)) e"
    using Cons.prems(4) by (simp_all add: er)
  show ?case
    using Cons.prems Cons.IH [of "m @ [(e, r)]" "map (\<lambda>e. (Some (fst e), snd e)) (m @ [(e, r)])"]
      load_evse_entry [of es m e r now from_rfc3339, OF assms(1) o new now use]
    by (simp add: er persisted_restored)
qed simp

lemma load_global_entries:
  assumes "distinct (map (reservation_id \<circ> snd) m @ map reservation_id (gs @ gs'))"
    and "\<forall>r \<in> set gs'. now \<le> from_rfc3339 (expiry_time r)" and "is_reservation_possible es None (gs @ gs') m"
  shows "load_entries from_rfc3339 now (map (Some \<circ> Pair None) gs') (restored_handler es cb content m gs) =
    Some (restored_handler es cb
      (if gs' = [] then content else map (\<lambda>e. (Some (fst e), snd e)) m @ map (Pair None) (gs @ gs')) m (gs @ gs'))"
  using assms
proof (induction gs' arbitrary: gs content)
  case (Cons r gs')
  have possible: "is_reservation_possible es None (gs @ [r]) m"
    using Cons.prems(3) possible_prefix [of es "gs @ [r]" gs'] by simp
  have new: "reservation_id r \<notin> reservation_id ` (snd ` set m \<union> set gs)" and now: "now \<le> from_rfc3339 (expiry_time r)"
    using Cons.prems(1,2) by auto
  show ?case
    using Cons.prems Cons.IH [of "gs @ [r]" "map (\<lambda>e. (Some (fst e), snd e)) m @ map (Pair None) (gs @ [r])"]
      load_global_entry [of r m gs now from_rfc3339 es, OF new now possible]
    by (simp add: persisted_restored)
qed simp

lemma load_persisted:
  assumes "handler_ok h" and "ordered es" and "\<forall>r \<in> set (all_reservations h). now \<le> from_rfc3339 (expiry_time r)"
    and "\<forall>(e, r) \<in> set (evse_reservations h). can_use es [] (value_or UnknownType (res_connector_type r)) e"
    and "is_reservation_possible es None (global_reservations h) (evse_reservations h)"
  shows "load_reservations from_rfc3339 now (Some (map Some (persisted h))) (new_handler es (Some (persisted h)) cb) =
    Some (restored_handler es cb (persisted h) (evse_reservations h) (global_reservations h))"
proof -
  let ?m = "evse_reservations h" and ?gs = "global_reservations h"
  have start: "new_handler es (Some (persisted h)) cb = restored_handler es cb (persisted h) [] []"
    by (simp add: restored_handler_def new_handler_def)
  have "\<forall>(e, r) \<in> set ?m. now \<le> from_rfc3339 (expiry_time r) \<and> can_use es [] (value_or UnknownType (res_connector_type r)) e"
    using assms(3,4) by (force simp: all_reservations_def)
  then have "load_entries from_rfc3339 now (map Some (persisted h)) (restored_handler es cb (persisted h) [] []) =
      load_entries from_rfc3339 now (map (Some \<circ> Pair None) ?gs)
        (restored_handler es cb (if ?m = [] then persisted h else map (\<lambda>e. (Some (fst e), snd e)) ?m) ?m [])"
    using load_evse_entries [OF assms(2), of "[]" ?m now from_rfc3339 "map (Some \<circ> Pair None) ?gs" cb "persisted h"] assms(1)
    by (simp add: handler_ok_def all_reservations_def persisted_def comp_def)
  also have "\<dots> = Some (restored_handler es cb (persisted h) ?m ?gs)"
    using load_global_entries [of ?m "[]" ?gs now from_rfc3339 es cb] assms(1,3,5)
    by (simp add: handler_ok_def all_reservations_def persisted_def comp_def)
  finally show ?thesis
    by (simp add: load_reservations_def start) (simp add: restored_handler_def new_handler_def)
qed

section \<open>Accepted reservations\<close>

lemma accepted_effect:
  assumes "make_reservation from_rfc3339 now e r h = (Accepted, h')"
  shows "now \<le> from_rfc3339 (expiry_time r) \<and>
    (case e of Some k \<Rightarrow> get_evse_reservation k (reservation_id r) h' = Some r | None \<Rightarrow> r \<in> set (global_reservations h')) \<and>
    set (all_reservations h') = insert r (set (all_reservations (replaced r h))) \<and>
    always_served (can_use (evses h') (evse_reservations h')) (mset (reserved_types (global_reservations h')))"
proof (cases e)
  case None
  note a = make_global_accepted [OF assms [unfolded None]]
  show ?thesis
    using a(3,9) unfolding None by (simp add: a(1,2) all_reservations_def is_reservation_possible_iff Let_def)
next
  case (Some k)
  note a = make_evse_accepted [OF assms [unfolded Some]]
  have "set (evse_reservations h') = insert (k, r) (set (evse_reservations (replaced r h)))"
    unfolding a(3) using arg_cong [OF mset_put [OF a(1)], of set_mset r] by simp
  then have "set (all_reservations h') = insert r (set (all_reservations (replaced r h)))"
    by (simp add: all_reservations_def a(4))
  then show ?thesis
    using a(4,5,11) unfolding Some
    by (auto simp: a(3) get_evse_reservation_def is_reservation_possible_iff Let_def reserved_types_def always_served_def)
qed

section \<open>Properties\<close>

text \<open>A station with two charging points and reservations for it, for the examples.\<close>

definition station :: evse_map where
  "station = [(1, new_evse 1 0 [new_connector 1 cType2]), (2, new_evse 2 1 [new_connector 1 cCCS2, new_connector 2 cType2])]"

definition vehicle :: "int \<Rightarrow> ConnectorTypeEnum option \<Rightarrow> Reservation" where
  "vehicle i t = \<lparr>res_evse_id = None, reservation_id = i, id_token = ''ABC'', expiry_time = ''later'',
     parent_id_token = None, res_connector_type = t\<rparr>"

definition rfc3339_example :: "string \<Rightarrow> int" where
  "rfc3339_example s = (if s = ''later'' then 1000 else 0)"

lemma ordered_station: "ordered station"
  by (simp add: ordered_def station_def)

text \<open>
  C12: the test that the code makes by trying every order of arrival and every choice of a charging point
  decides what a reservation promises: there are no more reservations than charging points, and whichever
  vehicles have arrived, wherever they parked, any other reserved vehicle still finds a free charging point
  that it can use.
\<close>

theorem reservation_possible_iff_served:
  "is_reservation_possible es global_type no_evse specific =
     (let types = reserved_types no_evse @ (case global_type of Some t \<Rightarrow> [t] | None \<Rightarrow> [])
      in length types + length specific \<le> length es \<and> always_served (can_use es specific) (mset types))"
  by (rule is_reservation_possible_iff)


lemma one_op:
  assumes "ordered es"
  shows "reachable reservation_start (reservation_trans from_rfc3339) [op] (reservation_step from_rfc3339 op (new_handler es (Some []) cb))"
proof -
  have "reachable reservation_start (reservation_trans from_rfc3339) ([] @ [op])
      (reservation_step from_rfc3339 op (new_handler es (Some []) cb))"
    by (rule reachable_step [OF reachable_start]) (use assms in \<open>auto simp: reservation_start_def reservation_trans_def\<close>)
  then show ?thesis
    by simp
qed




text \<open>
  C14: when charging without a reservation is possible at a charging point, then nobody has reserved it, and
  after a vehicle has plugged in there all reserved vehicles still find a charging point, so that the check
  of the reservations cancels none.
\<close>

theorem charging_keeps_reservations:
  assumes "reachable reservation_start (reservation_trans from_rfc3339) ops h" and "is_charging_possible e dummy h"
  shows "\<not> is_evse_reserved e h \<and> (\<exists>evse. map_of (evses h) e = Some evse \<and>
    (let h' = reservation_step from_rfc3339 (Evse_changed e (evse\<lparr>plugged_in := True\<rparr>)) h
     in always_served (can_use (evses h') (evse_reservations h')) (mset (reserved_types (global_reservations h'))) \<and>
        check_reservations_and_cancel_if_not_possible h' = h'))"
proof -
  have ok: "handler_ok h"
    by (rule reservations.invar_reachable [OF assms(1)])
  obtain evse where evse: "map_of (evses h) e = Some evse"
    using assms(2) by (auto simp: is_charging_possible_def map_has_def split: if_splits)
  let ?op = "Evse_changed e (evse\<lparr>plugged_in := True\<rparr>)"
  let ?h = "reservation_step from_rfc3339 ?op h"
  have "ordered (evses h)"
    using ok by (simp add: handler_ok_def)
  from reserved_as_plugged_in [OF this evse] have "can_use (evses h) (map_put e dummy (evse_reservations h)) = can_use (evses ?h) (evse_reservations ?h)"
    using evse by (simp add: map_has_def)
  moreover have len: "length (evses ?h) = length (evses h)"
    using ok evse by (simp add: map_has_def handler_ok_def length_overwrite)
  ultimately have "is_reservation_possible (evses ?h) None (global_reservations ?h) (evse_reservations ?h)"
    using assms(2) evse
    by (auto simp: is_charging_possible_def is_reservation_possible_iff Let_def length_put map_has_def split: if_splits)
  moreover have "handler_ok ?h"
    by (rule reservation_step_ok [OF ok])
  ultimately show ?thesis
    using assms(2) evse check_keeps_feasible [of ?h]
    by (auto simp: is_charging_possible_def is_reservation_possible_iff Let_def is_evse_reserved_def
        simp del: reservation_step.simps split: if_splits)
qed

theorem charging_keeps_reservations_witness:
  "always_served (can_use (map_put 1 (new_evse 1 0 [new_connector 1 cType2]\<lparr>plugged_in := True\<rparr>) station) []) {#cType2#}"
proof -
  define h where "h = reservation_step rfc3339_example (Make_reservation 5 None (vehicle 7 (Some cType2)))
    (new_handler station (Some []) True)"
  have possible: "is_charging_possible 1 (vehicle 0 None) h"
    and h: "evses h = station" "evse_reservations h = []" "reserved_types (global_reservations h) = [cType2]" "map_has station 1"
      "map_of station 1 = Some (new_evse 1 0 [new_connector 1 cType2])"
    unfolding h_def by code_simp+
  have "reachable reservation_start (reservation_trans rfc3339_example) [Make_reservation 5 None (vehicle 7 (Some cType2))] h"
    unfolding h_def by (rule one_op [OF ordered_station])
  from charging_keeps_reservations [OF this possible] show ?thesis
    by (simp add: Let_def h)
qed



text \<open>
  C15: reservations survive a restart. A new handler that reads the store of a handler has the same
  reservations, timers and store contents, and no reservation is reported as cancelled, when no
  reservation has expired in the meantime, the reserved charging points are free and the other reserved vehicles
  can still be served.
\<close>

theorem reservations_survive_restart:
  assumes "reachable reservation_start (reservation_trans from_rfc3339) ops h" and "stored h = Some content"
    and "ordered es" and "\<forall>r \<in> set (all_reservations h). now \<le> from_rfc3339 (expiry_time r)"
    and "\<forall>(e, r) \<in> set (evse_reservations h). can_use es [] (value_or UnknownType (res_connector_type r)) e"
    and "is_reservation_possible es None (global_reservations h) (evse_reservations h)"
  shows "\<exists>h'. load_reservations from_rfc3339 now (Some (map Some content)) (new_handler es (Some content) cb) = Some h' \<and>
    evse_reservations h' = evse_reservations h \<and> global_reservations h' = global_reservations h \<and>
    timers h' = timers h \<and> stored h' = stored h \<and> notifications h' = [] \<and>
    restored_reservations h' = map (\<lambda>(e, r). (e, reservation_id r)) (evse_reservations h)"
proof -
  have ok: "handler_ok h"
    by (rule reservations.invar_reachable [OF assms(1)])
  then have "content = persisted h" "timers h = reservation_id ` (snd ` set (evse_reservations h) \<union> set (global_reservations h))"
    using assms(2) by (simp_all add: handler_ok_def all_reservations_def)
  then show ?thesis
    using load_persisted [OF ok assms(3-6)] assms(2) by (simp add: restored_handler_def new_handler_def)
qed

theorem reservations_survive_restart_witness:
  "\<exists>h. load_reservations rfc3339_example 6 (Some [Some (Some 2, vehicle 7 (Some cType2))])
      (new_handler station (Some [(Some 2, vehicle 7 (Some cType2))]) True) = Some h \<and>
    evse_reservations h = [(2, vehicle 7 (Some cType2))] \<and> restored_reservations h = [(2, 7)] \<and> notifications h = []"
proof -
  let ?h = "reservation_step rfc3339_example (Make_reservation 5 (Some 2) (vehicle 7 (Some cType2))) (new_handler station (Some []) True)"
  have stored: "stored ?h = Some [(Some 2, vehicle 7 (Some cType2))]"
    and fields: "evse_reservations ?h = [(2, vehicle 7 (Some cType2))]" "global_reservations ?h = []"
      "all_reservations ?h = [vehicle 7 (Some cType2)]" "value_or UnknownType (res_connector_type (vehicle 7 (Some cType2))) = cType2"
      "map_of station 2 = Some (new_evse 2 1 [new_connector 1 cCCS2, new_connector 2 cType2])"
      "reservation_id (vehicle 7 (Some cType2)) = 7"
    and "6 \<le> rfc3339_example (expiry_time (vehicle 7 (Some cType2)))"
      "evse_accepts station [] cType2 (2, new_evse 2 1 [new_connector 1 cCCS2, new_connector 2 cType2])"
      "is_reservation_possible station None [] [(2, vehicle 7 (Some cType2))]"
    by code_simp+
  then show ?thesis
    using reservations_survive_restart [OF one_op [OF ordered_station] stored ordered_station, of 6 True]
    by (auto simp: can_use_def ordered_map_of [OF ordered_station, symmetric] simp del: reservation_step.simps)
qed

section \<open>Deviations\<close>

text \<open>
  An entry of the store that cannot be restored is reported as cancelled, but the store keeps it, so that the
  next restart reads it again.
\<close>

theorem rejected_entry_stays_stored:
  "\<exists>h. load_reservations rfc3339_example 6 (Some [Some (Some 9, vehicle 7 None)])
      (new_handler station (Some [(Some 9, vehicle 7 None)]) True) = Some h \<and>
    all_reservations h = [] \<and> notifications h = [Reservation_cancelled (Some 9) 7 Cancelled True] \<and> stored h = Some [(Some 9, vehicle 7 None)]"
  by (rule exI [of _ "(new_handler station (Some [(Some 9, vehicle 7 None)]) True)
      \<lparr>notifications := [Reservation_cancelled (Some 9) 7 Cancelled True]\<rparr>"], intro conjI; code_simp)


end
