(* ===== verification/Auth_Handler.thy ===== *)
theory Auth_Handler
  imports Reservation_Safety
begin

text \<open>
  The authorization of tokens (\<^verbatim>\<open>modules/EVSE/Auth/lib/AuthHandler.cpp\<close>): a token stops the transaction it was
  used for, or it is validated, a charging point is selected for it, and it is checked against the
  reservations. Where the code releases its lock, other threads run: to validate a token, to wait for a
  plug in, to wait for a timeout task and to wait for tokens in process. What the state is afterwards is
  given by the functions of an environment. The identifiers of charging points that reach the functions
  are keys of the map of charging points, which never loses one. Calls of callbacks are recorded. Logging is left out.
\<close>

section \<open>Types\<close>

datatype TokenHandlingResult =
    ALREADY_IN_PROCESS
  | REJECTED
  | USED_TO_START_TRANSACTION
  | USED_TO_STOP_TRANSACTION
  | TIMEOUT
  | NO_CONNECTOR_AVAILABLE
  | WITHDRAWN
  | USED_TO_REAUTHORIZE

datatype TokenValidationStatus =
    Token_Processing
  | Token_Accepted
  | Token_Rejected
  | Token_TimedOut
  | Token_UsedToStart
  | Token_UsedToStop
  | Token_Withdrawn
  | Token_UsedToReauthorize

datatype SelectionAlgorithm =
    UserInput
  | PlugEvents
  | PlugEventsLIFO
  | FindFirst

datatype SelectEvseReturnStatus =
    EvseSelected
  | Interrupted
  | TimeOut

datatype StopTransactionReason =
    Stop_EmergencyStop
  | Stop_EVDisconnected
  | Stop_HardReset
  | Stop_Local
  | Stop_Other
  | Stop_PowerLoss
  | Stop_Reboot
  | Stop_Remote
  | Stop_SoftReset
  | Stop_UnlockCommand
  | Stop_DeAuthorized
  | Stop_EnergyLimitReached
  | Stop_GroundFault
  | Stop_LocalOutOfCredit
  | Stop_MasterPass
  | Stop_OvercurrentFault
  | Stop_PowerQuality
  | Stop_SOCLimitReached
  | Stop_StoppedByEV
  | Stop_TimeLimitReached
  | Stop_Timeout
  | Stop_ReqEnergyTransferRejected
  | Stop_EVSEDisabled

datatype StartSessionReason =
    Start_EVConnected
  | Start_Authorized

datatype SessionEventEnum =
    Session_Authorized
  | Session_Deauthorized
  | Session_Enabled
  | Session_Disabled
  | Session_SessionStarted StartSessionReason
  | Session_AuthRequired
  | Session_TransactionStarted
  | Session_PrepareCharging
  | Session_ChargingStarted
  | Session_ChargingPausedEV
  | Session_ChargingPausedEVSE
  | Session_StoppingCharging
  | Session_ChargingFinished
  | Session_TransactionFinished
  | Session_SessionFinished
  | Session_ReservationStart
  | Session_ReservationEnd
  | Session_PluginTimeout
  | Session_SwitchingPhases
  | Session_SessionResumed

datatype ReservationCheckStatus =
    NotReserved
  | ReservedForToken
  | ReservedForOtherToken
  | ReservedForOtherTokenAndHasParentToken

datatype WithdrawAuthorizationResult =
    Withdraw_Accepted
  | Withdraw_AuthorizationNotFound
  | Withdraw_EvseNotFound
  | Withdraw_Rejected

record WithdrawAuthorizationRequest =
  withdraw_evse_id :: "int option"
  withdraw_id_token :: "IdToken option"

text \<open>The members that are only passed on (certificate status, energy transfer modes) are left out.\<close>

record ValidationResult =
  authorization_status :: AuthorizationStatus
  tariff_messages :: "string list"
  validation_expiry_time :: "string option"
  validation_parent_id_token :: "IdToken option"
  validation_evse_ids :: "int list option"
  validation_reservation_id :: "int option"

datatype auth_output =
    Notify_evse int ProvidedIdToken ValidationResult
  | Withdraw_authorization int
  | Stop_transaction int StopTransactionReason "ProvidedIdToken option"
  | Token_validation_status ProvidedIdToken TokenValidationStatus "string list"

text \<open>The map of charging points is the one that the reservation handler has a reference to.\<close>

record auth_handler =
  selection_algorithm :: SelectionAlgorithm
  connection_timeout :: int
  plug_in_timeout_enabled :: bool
  master_pass_group_id :: "string option"
  prioritize_authorization_over_stopping_transaction :: bool
  ignore_faults :: bool
  stop_transaction_on_reswipe :: bool
  reservation_handler :: reservation_handler
  plug_in_queue :: "int list"
  tokens_in_process :: "ProvidedIdToken list"
  withdraw_request :: "WithdrawAuthorizationRequest option"
  publish_callback :: bool
  auth_outputs :: "auth_output list"

record auth_env =
  validate_token :: "ProvidedIdToken \<Rightarrow> auth_handler \<Rightarrow> ValidationResult list"
  during_validation :: "ProvidedIdToken \<Rightarrow> auth_handler \<Rightarrow> auth_handler"
  during_plug_wait :: "int list \<Rightarrow> auth_handler \<Rightarrow> auth_handler"
  during_timeout_wait :: "int \<Rightarrow> auth_handler \<Rightarrow> auth_handler"
  during_withdraw_wait :: "WithdrawAuthorizationRequest \<Rightarrow> auth_handler \<Rightarrow> auth_handler"
  reserved_callback :: "int option \<Rightarrow> int \<Rightarrow> Reservation option \<Rightarrow> auth_handler \<Rightarrow> bool \<times> auth_handler"

section \<open>Access to the state\<close>

definition evse_at :: "int \<Rightarrow> auth_handler \<Rightarrow> EVSEContext option" where
  "evse_at e s = map_of (evses (reservation_handler s)) e"

definition evse_is :: "(EVSEContext \<Rightarrow> bool) \<Rightarrow> int \<Rightarrow> auth_handler \<Rightarrow> bool" where
  "evse_is P e s = (case evse_at e s of Some x \<Rightarrow> P x | None \<Rightarrow> False)"

definition on_reservations :: "(reservation_handler \<Rightarrow> reservation_handler) \<Rightarrow> auth_handler \<Rightarrow> auth_handler" where
  "on_reservations f s = s\<lparr>reservation_handler := f (reservation_handler s)\<rparr>"

definition update_evse :: "int \<Rightarrow> (EVSEContext \<Rightarrow> EVSEContext) \<Rightarrow> auth_handler \<Rightarrow> auth_handler" where
  "update_evse e f s = (case evse_at e s of
       Some x \<Rightarrow> on_reservations (\<lambda>h. h\<lparr>evses := map_put e (f x) (evses h)\<rparr>) s
     | None \<Rightarrow> s)"

definition evse_index_at :: "int \<Rightarrow> auth_handler \<Rightarrow> int" where
  "evse_index_at e s = (case evse_at e s of Some x \<Rightarrow> evse_index x | None \<Rightarrow> 0)"

definition send_output :: "auth_output \<Rightarrow> auth_handler \<Rightarrow> auth_handler" where
  "send_output out s = s\<lparr>auth_outputs := auth_outputs s @ [out]\<rparr>"

definition publish_token_validation_status ::
    "ProvidedIdToken \<Rightarrow> TokenValidationStatus \<Rightarrow> string list \<Rightarrow> auth_handler \<Rightarrow> auth_handler" where
  "publish_token_validation_status p status messages = send_output (Token_validation_status p status messages)"

text \<open>The reservation that stands for a vehicle that wants to charge; only that it is there matters.\<close>

definition dummy_reservation :: Reservation where
  "dummy_reservation = \<lparr>res_evse_id = None, reservation_id = 0, id_token = [], expiry_time = [], parent_id_token = None,
     res_connector_type = None\<rparr>"

definition charging_possible_at :: "int \<Rightarrow> auth_handler \<Rightarrow> bool" where
  "charging_possible_at e s = is_charging_possible e dummy_reservation (reservation_handler s)"

definition is_equal_token :: "IdToken \<Rightarrow> IdToken \<Rightarrow> bool" where
  "is_equal_token a b = (is_equal_case_insensitive (token_value a) (token_value b) \<and> token_type a = token_type b)"

section \<open>Queries\<close>

definition get_referenced_evses :: "ProvidedIdToken \<Rightarrow> auth_handler \<Rightarrow> int list" where
  "get_referenced_evses p s = (case provided_connectors p of
       Some es \<Rightarrow> filter (\<lambda>e. evse_is (\<lambda>x. \<not> evse_is_unavailable x) e s) es
     | None \<Rightarrow> map fst (filter (\<lambda>e. \<not> evse_is_unavailable (snd e)) (evses (reservation_handler s))))"

definition identifier_has_token :: "string \<Rightarrow> Identifier \<Rightarrow> bool" where
  "identifier_has_token token i =
     (is_equal_case_insensitive (token_value (ident_id_token i)) token \<or>
      (case ident_parent_id_token i of
         Some parent \<Rightarrow> is_equal_case_insensitive (token_value parent) token
       | None \<Rightarrow> False))"

definition has_identifier :: "(Identifier \<Rightarrow> bool) \<Rightarrow> EVSEContext \<Rightarrow> bool" where
  "has_identifier P x = (case evse_identifier x of Some i \<Rightarrow> P i | None \<Rightarrow> False)"

definition used_for_transaction :: "int list \<Rightarrow> string \<Rightarrow> auth_handler \<Rightarrow> int" where
  "used_for_transaction es token s =
     (case find (\<lambda>e. evse_is (has_identifier (identifier_has_token token)) e s) es of Some e \<Rightarrow> e | None \<Rightarrow> -1)"

text \<open>The set of tokens in process is ordered by the value of the token.\<close>

definition is_token_already_in_process :: "ProvidedIdToken \<Rightarrow> int list \<Rightarrow> auth_handler \<Rightarrow> bool" where
  "is_token_already_in_process p es s =
     (list_ex (\<lambda>q. token_value (provided_id_token q) = token_value (provided_id_token p)) (tokens_in_process s) \<or>
      list_ex (\<lambda>e. evse_is (\<lambda>x. has_identifier (\<lambda>i. is_equal_token (ident_id_token i) (provided_id_token p)) x \<and>
        \<not> transaction_active x) e s) es)"

definition any_evse_available :: "int list \<Rightarrow> auth_handler \<Rightarrow> bool" where
  "any_evse_available es s = list_ex (\<lambda>e. evse_is evse_is_available e s) es"

definition any_parent_id_present :: "int list \<Rightarrow> auth_handler \<Rightarrow> bool" where
  "any_parent_id_present es s =
     list_ex (\<lambda>e. evse_is (has_identifier (\<lambda>i. ident_parent_id_token i \<noteq> None)) e s) es"

definition equals_master_pass_group_id :: "IdToken option \<Rightarrow> auth_handler \<Rightarrow> bool" where
  "equals_master_pass_group_id parent s = (case (master_pass_group_id s, parent) of
       (Some master, Some t) \<Rightarrow> is_equal_case_insensitive (token_value t) master
     | _ \<Rightarrow> False)"

definition get_oldest_plugin :: "int list \<Rightarrow> auth_handler \<Rightarrow> int" where
  "get_oldest_plugin es s = (case find (\<lambda>e. e \<in> set es) (plug_in_queue s) of Some e \<Rightarrow> e | None \<Rightarrow> -1)"

definition get_last_plugin :: "int list \<Rightarrow> auth_handler \<Rightarrow> int" where
  "get_last_plugin es s = (case find (\<lambda>e. e \<in> set es) (rev (plug_in_queue s)) of Some e \<Rightarrow> e | None \<Rightarrow> -1)"

definition does_withdraw_request_match :: "WithdrawAuthorizationRequest \<Rightarrow> int list \<Rightarrow> IdToken \<Rightarrow> bool" where
  "does_withdraw_request_match r es token =
     ((case withdraw_id_token r of Some t \<Rightarrow> is_equal_token t token | None \<Rightarrow> True) \<and>
      (case withdraw_evse_id r of Some e \<Rightarrow> e \<in> set es | None \<Rightarrow> True))"

definition is_authorization_withdrawn :: "int list \<Rightarrow> IdToken \<Rightarrow> auth_handler \<Rightarrow> bool" where
  "is_authorization_withdrawn es token s = (case withdraw_request s of
       Some r \<Rightarrow> does_withdraw_request_match r es token
     | None \<Rightarrow> False)"

section \<open>Selecting a charging point\<close>

text \<open>
  The result is \<^const>\<open>None\<close> when the code throws an exception. Waiting ends with the condition or with a timeout;
  then the condition is false in the state that the wait ends in.
\<close>

definition select_plugged_in_evse :: "int list \<Rightarrow> auth_handler \<Rightarrow> int" where
  "select_plugged_in_evse es s =
     (if selection_algorithm s = PlugEventsLIFO then get_last_plugin es s else get_oldest_plugin es s)"

definition select_by_plug_events ::
    "auth_env \<Rightarrow> int list \<Rightarrow> IdToken \<Rightarrow> auth_handler \<Rightarrow> int option \<times> SelectEvseReturnStatus \<times> auth_handler" where
  "select_by_plug_events env es token s =
     (let ready = (\<lambda>s. select_plugged_in_evse es s \<noteq> -1 \<or> is_authorization_withdrawn es token s);
          s' = (if ready s then s else during_plug_wait env es s)
      in if \<not> ready s' then (None, TimeOut, s')
         else if is_authorization_withdrawn es token s' then (None, Interrupted, s')
         else (Some (select_plugged_in_evse es s'), EvseSelected, s'))"

definition select_first :: "int list \<Rightarrow> auth_handler \<Rightarrow> int option \<times> SelectEvseReturnStatus \<times> auth_handler" where
  "select_first es s =
     (let e = get_oldest_plugin es s
      in if e \<noteq> -1 \<and> evse_is (\<lambda>x. \<not> transaction_active x) e s then (Some e, EvseSelected, s)
         else (case find (\<lambda>e. evse_is evse_is_available e s) es of
                 Some e \<Rightarrow> (Some e, EvseSelected, s)
               | None \<Rightarrow> (None, TimeOut, s)))"

definition select_evse ::
    "auth_env \<Rightarrow> int list \<Rightarrow> IdToken \<Rightarrow> auth_handler \<Rightarrow> (int option \<times> SelectEvseReturnStatus \<times> auth_handler) option" where
  "select_evse env es token s =
     (if length es = 1 then Some (Some (hd es), EvseSelected, s)
      else case selection_algorithm s of
             PlugEvents \<Rightarrow> Some (select_by_plug_events env es token s)
           | PlugEventsLIFO \<Rightarrow> Some (select_by_plug_events env es token s)
           | FindFirst \<Rightarrow> Some (select_first es s)
           | UserInput \<Rightarrow> None)"

section \<open>Authorizing a charging point\<close>

definition notify_evse :: "auth_env \<Rightarrow> int \<Rightarrow> ProvidedIdToken \<Rightarrow> ValidationResult \<Rightarrow> auth_handler \<Rightarrow> auth_handler" where
  "notify_evse env e p v s =
     (let index = evse_index_at e s;
          s = (if authorization_status v = Status_Accepted
               then let identifier = \<lparr>ident_id_token = provided_id_token p, ident_type = authorization_type p,
                          ident_authorization_status = Some (authorization_status v),
                          ident_expiry_time = validation_expiry_time v, ident_parent_id_token = validation_parent_id_token v\<rparr>;
                        s = update_evse e (\<lambda>x. x\<lparr>evse_identifier := Some identifier\<rparr>) s;
                        s = during_timeout_wait env e s;
                        s = update_evse e (\<lambda>x. x\<lparr>timeout_timer := Some (AuthorizationTimeout p)\<rparr>) s
                    in s\<lparr>plug_in_queue := filter (\<lambda>q. q \<noteq> e) (plug_in_queue s)\<rparr>
               else s)
      in send_output (Notify_evse index p v) s)"

text \<open>The selected charging point is checked against the validation result and the reservations.\<close>

definition authorize_at ::
    "int \<Rightarrow> ValidationResult \<Rightarrow> ProvidedIdToken \<Rightarrow> auth_handler \<Rightarrow> bool \<times> ValidationResult \<times> ProvidedIdToken \<times> auth_handler" where
  "authorize_at e v p s =
     (let h = reservation_handler s;
          reservation = matches_reserved_identifier (token_value (provided_id_token p)) (Some e)
            (map_option token_value (validation_parent_id_token v)) h
      in if validation_evse_ids v \<noteq> None \<and> e \<notin> set (the (validation_evse_ids v))
         then (False, v\<lparr>authorization_status := Status_NotAtThisLocation\<rparr>, p, s)
         else if reservation = None \<and> \<not> charging_possible_at e s
         then (False, v\<lparr>authorization_status := Status_NotAtThisTime\<rparr>, p, s)
         else if \<not> is_evse_reserved e h \<and> reservation = None
         then (True, v, p\<lparr>provided_connectors := Some [e]\<rparr>, s)
         else (case reservation of
                 Some i \<Rightarrow> (True, v\<lparr>validation_reservation_id := Some i\<rparr>, p\<lparr>provided_connectors := Some [e]\<rparr>,
                            on_reservations (on_reservation_used i) s)
               | None \<Rightarrow> (False, v\<lparr>authorization_status := Status_NotAtThisTime\<rparr>, p, s)))"

type_synonym token_result = "TokenHandlingResult \<times> ProvidedIdToken \<times> auth_handler"

text \<open>
  One round of the loop over the validation results: \<^const>\<open>Inl\<close> is an early return of \<^verbatim>\<open>handle_token\<close>,
  \<^const>\<open>Inr\<close> the end of the round with the flag and the validation result.
\<close>

type_synonym authorize_result = "(token_result + bool \<times> ValidationResult \<times> ProvidedIdToken \<times> auth_handler) option"

definition authorize_round ::
    "auth_env \<Rightarrow> int list \<Rightarrow> ValidationResult \<Rightarrow> ProvidedIdToken \<Rightarrow> auth_handler \<Rightarrow> authorize_result" where
  "authorize_round env es v p s =
     (if authorization_status v \<noteq> Status_Accepted then Some (Inr (False, v, p, s))
      else if equals_master_pass_group_id (validation_parent_id_token v) s then Some (Inl (REJECTED, p, s))
      else let p = (if validation_parent_id_token v \<noteq> None
                    then p\<lparr>provided_parent_id_token := validation_parent_id_token v\<rparr> else p);
               s = publish_token_validation_status p Token_Accepted (tariff_messages v) s
           in case select_evse env es (provided_id_token p) s of
                None \<Rightarrow> None
              | Some (None, status, s) \<Rightarrow> (case status of
                    TimeOut \<Rightarrow> Some (Inl (TIMEOUT, p, s))
                  | Interrupted \<Rightarrow> Some (Inl (WITHDRAWN, p, s))
                  | EvseSelected \<Rightarrow> None)
              | Some (Some e, status, s) \<Rightarrow> (case authorize_at e v p s of (authorized, v, p, s) \<Rightarrow>
                    Some (Inr (authorized, v, p, notify_evse env e p v s))))"

fun authorize_loop ::
    "auth_env \<Rightarrow> int list \<Rightarrow> ValidationResult \<Rightarrow> ProvidedIdToken \<Rightarrow> auth_handler \<Rightarrow> ValidationResult list \<Rightarrow> authorize_result" where
  "authorize_loop env es current p s [] = Some (Inr (False, current, p, s))"
| "authorize_loop env es current p s (v # vs) =
     (if es = [] then Some (Inr (False, current, p, s))
      else case authorize_round env es v p s of
             None \<Rightarrow> None
           | Some (Inl result) \<Rightarrow> Some (Inl result)
           | Some (Inr (authorized, v, p, s)) \<Rightarrow>
               if authorized then Some (Inr (authorized, v, p, s)) else authorize_loop env es v p s vs)"

section \<open>Handling a token\<close>

definition used_token :: "ProvidedIdToken \<Rightarrow> int \<Rightarrow> auth_handler \<Rightarrow> token_result" where
  "used_token p e s =
     (let parent = Option.bind (Option.bind (evse_at e s) evse_identifier) ident_parent_id_token;
          p' = p\<lparr>provided_parent_id_token := (if parent \<noteq> None then parent else provided_parent_id_token p),
                 provided_connectors := Some [e]\<rparr>
      in if \<not> stop_transaction_on_reswipe s then (USED_TO_REAUTHORIZE, p', s)
         else (USED_TO_STOP_TRANSACTION, p', send_output (Stop_transaction (evse_index_at e s) Stop_Local (Some p)) s))"

text \<open>Whether the token may be allowed at a charging point as far as the reservations are concerned.\<close>

definition reservation_may_allow :: "ProvidedIdToken \<Rightarrow> auth_handler \<Rightarrow> int \<Rightarrow> bool" where
  "reservation_may_allow p s e =
     (let h = reservation_handler s
      in 0 \<le> e \<and>
         (\<not> is_evse_reserved e h \<and> charging_possible_at e s \<or>
          matches_reserved_identifier (token_value (provided_id_token p)) (Some e) None h \<noteq> None \<or>
          has_reservation_parent_id (Some e) h))"

definition stop_all_transactions :: "int list \<Rightarrow> ProvidedIdToken \<Rightarrow> auth_handler \<Rightarrow> auth_handler" where
  "stop_all_transactions es p s =
     fold (\<lambda>e s. send_output (Stop_transaction (evse_index_at e s) Stop_MasterPass (Some p)) s)
       (filter (\<lambda>e. evse_is transaction_active e s) es) s"

fun stop_with_parent :: "int list \<Rightarrow> ProvidedIdToken \<Rightarrow> auth_handler \<Rightarrow> ValidationResult list \<Rightarrow> token_result option" where
  "stop_with_parent es p s [] = None"
| "stop_with_parent es p s (v # vs) =
     (if authorization_status v = Status_Accepted \<and> validation_parent_id_token v \<noteq> None
      then if equals_master_pass_group_id (validation_parent_id_token v) s
           then Some (USED_TO_STOP_TRANSACTION,
                  p\<lparr>provided_parent_id_token := validation_parent_id_token v,
                    provided_connectors := Some (filter (\<lambda>e. evse_is transaction_active e s) es)\<rparr>,
                  stop_all_transactions es p s)
           else let e = used_for_transaction es (token_value (the (validation_parent_id_token v))) s;
                    p' = p\<lparr>provided_connectors := Some [e]\<rparr>
                in if e = -1 then stop_with_parent es p s vs
                   else if \<not> evse_is transaction_active e s then Some (ALREADY_IN_PROCESS, p', s)
                   else if \<not> stop_transaction_on_reswipe s
                   then Some (USED_TO_REAUTHORIZE, p'\<lparr>provided_parent_id_token := validation_parent_id_token v\<rparr>, s)
                   else Some (USED_TO_STOP_TRANSACTION, p'\<lparr>provided_parent_id_token := validation_parent_id_token v\<rparr>,
                          send_output (Stop_transaction (evse_index_at e s) Stop_Local (Some p')) s)
      else stop_with_parent es p s vs)"

definition prevalidated_result :: "ProvidedIdToken \<Rightarrow> ValidationResult" where
  "prevalidated_result p =
     \<lparr>authorization_status = Status_Accepted, tariff_messages = [], validation_expiry_time = None,
      validation_parent_id_token = provided_parent_id_token p, validation_evse_ids = None, validation_reservation_id = None\<rparr>"

definition unknown_result :: ValidationResult where
  "unknown_result =
     \<lparr>authorization_status = Status_Unknown, tariff_messages = [], validation_expiry_time = None,
      validation_parent_id_token = None, validation_evse_ids = None, validation_reservation_id = None\<rparr>"

definition finish_token :: "auth_env \<Rightarrow> bool \<times> ValidationResult \<times> ProvidedIdToken \<times> auth_handler \<Rightarrow> token_result" where
  "finish_token env result = (case result of (authorized, v, p, s) \<Rightarrow>
     if authorized then (USED_TO_START_TRANSACTION, p, s)
     else (REJECTED, p, fold (\<lambda>e s. if evse_at e s \<noteq> None then notify_evse env e p v s else s)
            (case provided_connectors p of Some es \<Rightarrow> es | None \<Rightarrow> []) s))"

text \<open>What happens after the validation.\<close>

definition handle_validated_token ::
    "auth_env \<Rightarrow> int list \<Rightarrow> ProvidedIdToken \<Rightarrow> ValidationResult list \<Rightarrow> auth_handler \<Rightarrow> token_result option" where
  "handle_validated_token env es p vs s =
     (case (if prioritize_authorization_over_stopping_transaction s \<and> any_evse_available es s then None
            else stop_with_parent es p s vs) of
        Some result \<Rightarrow> Some result
      | None \<Rightarrow>
          if \<not> any_evse_available es s then Some (NO_CONNECTOR_AVAILABLE, p, s)
          else if vs = [] then Some (REJECTED, p, s)
          else (case authorize_loop env (filter (\<lambda>e. evse_is (\<lambda>x. evse_identifier x = None) e s) es) unknown_result p s vs of
                  None \<Rightarrow> None
                | Some (Inl result) \<Rightarrow> Some result
                | Some (Inr result) \<Rightarrow> Some (finish_token env result)))"

definition handle_token :: "auth_env \<Rightarrow> ProvidedIdToken \<Rightarrow> auth_handler \<Rightarrow> token_result option" where
  "handle_token env p s =
     (let es = get_referenced_evses p s;
          e = used_for_transaction es (token_value (provided_id_token p)) s
      in if (authorization_type p = RFID \<or> authorization_type p = BankCard) \<and> e \<noteq> -1 then Some (used_token p e s)
         else if \<not> any_evse_available es s \<and> \<not> any_parent_id_present es s \<and> master_pass_group_id s = None
         then Some (NO_CONNECTOR_AVAILABLE, p, s)
         else if \<not> list_ex (reservation_may_allow p s) es then Some (NO_CONNECTOR_AVAILABLE, p, s)
         else if prevalidated p = Some True then handle_validated_token env es p [prevalidated_result p] s
         else let s' = during_validation env p s
              in handle_validated_token env es p (validate_token env p s) s')"

fun published_status :: "TokenHandlingResult \<Rightarrow> TokenValidationStatus option" where
  "published_status ALREADY_IN_PROCESS = None"
| "published_status TIMEOUT = Some Token_TimedOut"
| "published_status NO_CONNECTOR_AVAILABLE = Some Token_Rejected"
| "published_status REJECTED = Some Token_Rejected"
| "published_status USED_TO_START_TRANSACTION = Some Token_UsedToStart"
| "published_status USED_TO_STOP_TRANSACTION = Some Token_UsedToStop"
| "published_status WITHDRAWN = Some Token_Withdrawn"
| "published_status USED_TO_REAUTHORIZE = Some Token_UsedToReauthorize"

definition same_token :: "ProvidedIdToken \<Rightarrow> ProvidedIdToken \<Rightarrow> bool" where
  "same_token p q = (token_value (provided_id_token p) = token_value (provided_id_token q))"

definition publish_result :: "TokenHandlingResult \<Rightarrow> ProvidedIdToken \<Rightarrow> auth_handler \<Rightarrow> auth_handler" where
  "publish_result r p s = (case published_status r of
       Some status \<Rightarrow> publish_token_validation_status p status [] s
     | None \<Rightarrow> s)"

definition on_token :: "auth_env \<Rightarrow> ProvidedIdToken \<Rightarrow> auth_handler \<Rightarrow> (TokenHandlingResult \<times> auth_handler) option" where
  "on_token env p s =
     (if \<not> publish_callback s then Some (REJECTED, s)
      else if is_token_already_in_process p (get_referenced_evses p s) s then Some (ALREADY_IN_PROCESS, s)
      else let s = s\<lparr>tokens_in_process := p # tokens_in_process s\<rparr>;
               s = publish_token_validation_status p Token_Processing [] s
           in case handle_token env p s of
                None \<Rightarrow> None
              | Some (r, p', s) \<Rightarrow>
                  let s = publish_result r p' s
                  in Some (r, s\<lparr>tokens_in_process := filter (\<lambda>q. \<not> same_token p q) (tokens_in_process s)\<rparr>))"

definition handle_token_validation_result_update :: "ValidationResult \<Rightarrow> int \<Rightarrow> auth_handler \<Rightarrow> auth_handler" where
  "handle_token_validation_result_update v e s = (case Option.bind (evse_at e s) evse_identifier of
       None \<Rightarrow> s
     | Some i \<Rightarrow>
         let i = i\<lparr>ident_authorization_status := Some (authorization_status v),
                   ident_parent_id_token := validation_parent_id_token v\<rparr>;
             s = update_evse e (\<lambda>x. x\<lparr>evse_identifier := Some i\<rparr>) s;
             p = \<lparr>request_id = None, provided_id_token = ident_id_token i,
                  provided_parent_id_token = validation_parent_id_token v, authorization_type = ident_type i,
                  provided_connectors = Some [e], prevalidated = None, certificate = None\<rparr>
         in publish_token_validation_status p Token_Accepted (tariff_messages v) s)"

section \<open>Timeouts\<close>

text \<open>The tasks that the timer of a charging point runs.\<close>

definition plug_in_timeout_task :: "int \<Rightarrow> auth_handler \<Rightarrow> auth_handler" where
  "plug_in_timeout_task e s =
     (let s = send_output (Withdraw_authorization (evse_index_at e s)) s;
          s = s\<lparr>plug_in_queue := filter (\<lambda>q. q \<noteq> e) (plug_in_queue s)\<rparr>
      in update_evse e (\<lambda>x. x\<lparr>plug_in_timeout := True\<rparr>) s)"

definition authorization_timeout_task :: "int \<Rightarrow> ProvidedIdToken \<Rightarrow> auth_handler \<Rightarrow> auth_handler" where
  "authorization_timeout_task e p s =
     (let s = update_evse e (\<lambda>x. x\<lparr>evse_identifier := None\<rparr>) s;
          s = send_output (Withdraw_authorization (evse_index_at e s)) s
      in publish_token_validation_status p Token_TimedOut [] s)"

definition timeout_task :: "int \<Rightarrow> auth_handler \<Rightarrow> auth_handler" where
  "timeout_task e s = (case Option.bind (evse_at e s) timeout_timer of
       None \<Rightarrow> s
     | Some task \<Rightarrow>
         let s = update_evse e (\<lambda>x. x\<lparr>timeout_timer := None\<rparr>) s
         in (case task of
               PlugInTimeout \<Rightarrow> plug_in_timeout_task e s
             | AuthorizationTimeout p \<Rightarrow> authorization_timeout_task e p s))"

definition stop_timer :: "auth_env \<Rightarrow> int \<Rightarrow> auth_handler \<Rightarrow> auth_handler" where
  "stop_timer env e s = update_evse e (\<lambda>x. x\<lparr>timeout_timer := None\<rparr>) (during_timeout_wait env e s)"

section \<open>Reservations\<close>

definition handle_reservation ::
    "(string \<Rightarrow> int) \<Rightarrow> int \<Rightarrow> Reservation \<Rightarrow> auth_handler \<Rightarrow> ReservationResult \<times> auth_handler" where
  "handle_reservation from_rfc3339 now r s =
     (let e = (case res_evse_id r of Some e \<Rightarrow> if 0 \<le> e then Some e else None | None \<Rightarrow> None)
      in case make_reservation from_rfc3339 now e r (reservation_handler s) of (result, h) \<Rightarrow>
           (result, s\<lparr>reservation_handler := h\<rparr>))"

definition handle_cancel_reservation :: "int \<Rightarrow> auth_handler \<Rightarrow> (bool \<times> int option) \<times> auth_handler" where
  "handle_cancel_reservation i s = (case cancel_reservation i False Cancelled (reservation_handler s) of (result, h) \<Rightarrow>
     (if fst result then result else (False, None), s\<lparr>reservation_handler := h\<rparr>))"

definition call_reserved :: "auth_env \<Rightarrow> int \<Rightarrow> int option \<Rightarrow> auth_handler \<Rightarrow> bool \<times> auth_handler" where
  "call_reserved env i e s =
     (let r = (case e of Some k \<Rightarrow> if 0 \<le> k then get_evse_reservation k i (reservation_handler s) else None | None \<Rightarrow> None)
      in case reserved_callback env e i r s of (reserved, s) \<Rightarrow>
           (reserved, if reserved then on_reservations check_evse_reserved_and_send_updates s else s))"

definition cancel_replaced_if_dropped :: "int \<Rightarrow> int option \<Rightarrow> auth_handler \<Rightarrow> int option \<times> auth_handler" where
  "cancel_replaced_if_dropped i replaced_evse s = (case replaced_evse of
       None \<Rightarrow> (None, s)
     | Some e \<Rightarrow>
         if is_evse_reserved_with e i (reservation_handler s) then (Some e, s)
         else (None, on_reservations (call_reservation_cancelled i Cancelled (Some e) False) s))"

definition place_reservation ::
    "auth_env \<Rightarrow> (string \<Rightarrow> int) \<Rightarrow> int \<Rightarrow> Reservation \<Rightarrow> auth_handler \<Rightarrow> ReservationResult \<times> auth_handler" where
  "place_reservation env from_rfc3339 now r s =
     (let i = reservation_id r;
          replaced_evse = get_evse_id_of_reservation i (reservation_handler s)
      in case handle_reservation from_rfc3339 now r s of (result, s) \<Rightarrow>
         case cancel_replaced_if_dropped i replaced_evse s of (replaced_evse, s) \<Rightarrow>
           if result \<noteq> Accepted then (result, s)
           else (case call_reserved env i (res_evse_id r) s of (reserved, s) \<Rightarrow>
             if \<not> reserved
             then (Rejected, snd (cancel_replaced_if_dropped i replaced_evse (snd (handle_cancel_reservation i s))))
             else (Accepted, case res_evse_id r of
                 Some e \<Rightarrow> if 0 < e \<and> \<not> is_evse_reserved_with e i (reservation_handler s)
                           then on_reservations (notify_cancelled (Some e) i Cancelled False) s else s
               | None \<Rightarrow> s)))"

definition apply_restored_reservation :: "auth_env \<Rightarrow> int \<Rightarrow> int \<Rightarrow> auth_handler \<Rightarrow> auth_handler" where
  "apply_restored_reservation env e i s = (case call_reserved env i (Some e) s of (reserved, s) \<Rightarrow>
     if \<not> reserved
     then (case handle_cancel_reservation i s of (result, s) \<Rightarrow>
             if fst result then on_reservations (call_reservation_cancelled i Cancelled (Some e) True) s else s)
     else if \<not> is_evse_reserved_with e i (reservation_handler s)
     then on_reservations (notify_cancelled (Some e) i Cancelled False) s
     else s)"

definition handle_reservation_exists :: "string \<Rightarrow> int option \<Rightarrow> string option \<Rightarrow> auth_handler \<Rightarrow> ReservationCheckStatus" where
  "handle_reservation_exists token e group_token s =
     (let h = reservation_handler s;
          i = matches_reserved_identifier token e group_token h
      in case e of
           None \<Rightarrow> if i \<noteq> None then ReservedForToken else NotReserved
         | Some k \<Rightarrow>
             if \<not> is_evse_reserved k h then NotReserved
             else if i \<noteq> None then ReservedForToken
             else if group_token = None
             then if has_reservation_parent_id e h then ReservedForOtherTokenAndHasParentToken else ReservedForOtherToken
             else ReservedForOtherToken)"

section \<open>Events of the charging points\<close>

definition submit_event_for_connector :: "int \<Rightarrow> int \<Rightarrow> ConnectorEvent \<Rightarrow> auth_handler \<Rightarrow> auth_handler" where
  "submit_event_for_connector e c event s = (case evse_at e s of
       None \<Rightarrow> s
     | Some x \<Rightarrow> (case find (\<lambda>d. connector_id d = c) (connectors x) of
           None \<Rightarrow> s
         | Some d \<Rightarrow>
             let before = takeWhile (\<lambda>d. connector_id d \<noteq> c) (connectors x);
                 after = tl (dropWhile (\<lambda>d. connector_id d \<noteq> c) (connectors x));
                 d = submit_event event d;
                 s = update_evse e (\<lambda>x. x\<lparr>connectors := before @ d # after\<rparr>) s
             in on_reservations (on_connector_state_changed (connector_state d) e c) s))"

definition handle_permanent_fault_raised :: "int \<Rightarrow> int \<Rightarrow> auth_handler \<Rightarrow> auth_handler" where
  "handle_permanent_fault_raised e c s = (if ignore_faults s then s else submit_event_for_connector e c FAULTED_EVENT s)"

definition handle_permanent_fault_cleared :: "int \<Rightarrow> int \<Rightarrow> auth_handler \<Rightarrow> auth_handler" where
  "handle_permanent_fault_cleared e c s = (if ignore_faults s then s else submit_event_for_connector e c ERROR_CLEARED s)"

definition session_started :: "int \<Rightarrow> auth_handler \<Rightarrow> auth_handler" where
  "session_started e s =
     (let s = s\<lparr>plug_in_queue := plug_in_queue s @ [e]\<rparr>;
          s = update_evse e (\<lambda>x. x\<lparr>plugged_in := True\<rparr>) s
      in if length (evses (reservation_handler s)) = 1 \<or> \<not> plug_in_timeout_enabled s then s
         else update_evse e (\<lambda>x. x\<lparr>timeout_timer := Some PlugInTimeout\<rparr>) s)"

text \<open>The switch over the events; the flag tells whether the reservations are checked afterwards.\<close>

definition session_event :: "auth_env \<Rightarrow> int \<Rightarrow> int \<Rightarrow> SessionEventEnum \<Rightarrow> auth_handler \<Rightarrow> bool \<times> auth_handler" where
  "session_event env e c event s = (case event of
       Session_SessionStarted reason \<Rightarrow> (False, if reason = Start_EVConnected then session_started e s else s)
     | Session_TransactionStarted \<Rightarrow>
         (True, stop_timer env e (submit_event_for_connector e c TRANSACTION_STARTED
           (update_evse e (\<lambda>x. x\<lparr>plugged_in := True, transaction_active := True\<rparr>) s)))
     | Session_TransactionFinished \<Rightarrow>
         (False, update_evse e (\<lambda>x. x\<lparr>transaction_active := False, evse_identifier := None\<rparr>) s)
     | Session_SessionFinished \<Rightarrow>
         (let s = update_evse e (\<lambda>x. x\<lparr>plugged_in := False, plug_in_timeout := False, evse_identifier := None\<rparr>) s;
              s = stop_timer env e (submit_event_for_connector e c SESSION_FINISHED s)
          in (True, s\<lparr>plug_in_queue := filter (\<lambda>q. q \<noteq> e) (plug_in_queue s)\<rparr>))
     | Session_Disabled \<Rightarrow>
         (True, update_evse e (\<lambda>x. x\<lparr>reported_enabled := False\<rparr>) (submit_event_for_connector e c DISABLE s))
     | Session_Enabled \<Rightarrow>
         (True, update_evse e (\<lambda>x. x\<lparr>reported_enabled := True\<rparr>) (submit_event_for_connector e c ENABLE s))
     | Session_Deauthorized \<Rightarrow> (False, stop_timer env e (update_evse e (\<lambda>x. x\<lparr>evse_identifier := None\<rparr>) s))
     | Session_ReservationEnd \<Rightarrow>
         (False, if is_evse_reserved e (reservation_handler s)
                 then on_reservations (\<lambda>h. snd (cancel_evse_reservation e True h)) s else s)
     | _ \<Rightarrow> (False, s))"

definition handle_session_event :: "auth_env \<Rightarrow> int \<Rightarrow> int option \<Rightarrow> SessionEventEnum \<Rightarrow> auth_handler \<Rightarrow> auth_handler" where
  "handle_session_event env e connector event s =
     (let c = value_or 1 connector
      in if e \<le> 0 \<or> c \<le> 0 \<or> evse_at e s = None then s
         else case session_event env e c event s of (check_reservations, s) \<Rightarrow>
           let s = (if check_reservations then on_reservations check_evse_reserved_and_send_updates s else s)
           in if event \<noteq> Session_Enabled then s
              else (case take_restored_reservation e (reservation_handler s) of (restored, h) \<Rightarrow>
                let s = s\<lparr>reservation_handler := h\<rparr>
                in case restored of Some i \<Rightarrow> apply_restored_reservation env e i s | None \<Rightarrow> s))"

section \<open>Withdrawing an authorization\<close>

definition withdraw_targets_token_in_process :: "WithdrawAuthorizationRequest \<Rightarrow> auth_handler \<Rightarrow> bool" where
  "withdraw_targets_token_in_process r s =
     list_ex (\<lambda>p. does_withdraw_request_match r (get_referenced_evses p s) (provided_id_token p)) (tokens_in_process s)"

definition withdraw_authorization_or_stop_transaction :: "int \<Rightarrow> EVSEContext \<Rightarrow> auth_handler \<Rightarrow> auth_handler" where
  "withdraw_authorization_or_stop_transaction e x s =
     (if transaction_active x then send_output (Stop_transaction (evse_index x) Stop_DeAuthorized None) s
      else let s = send_output (Withdraw_authorization (evse_index x)) s
           in case evse_identifier x of
                None \<Rightarrow> s
              | Some i \<Rightarrow> publish_token_validation_status
                  \<lparr>request_id = None, provided_id_token = ident_id_token i, provided_parent_id_token = ident_parent_id_token i,
                   authorization_type = ident_type i, provided_connectors = Some [evse_id x], prevalidated = None,
                   certificate = None\<rparr> Token_Withdrawn [] s)"

definition withdraw_matches :: "WithdrawAuthorizationRequest \<Rightarrow> int \<times> EVSEContext \<Rightarrow> bool" where
  "withdraw_matches r ex = (case ex of (e, x) \<Rightarrow>
     (case withdraw_evse_id r of Some k \<Rightarrow> e = k | None \<Rightarrow> True) \<and>
     has_identifier (\<lambda>i. case withdraw_id_token r of Some t \<Rightarrow> is_equal_token t (ident_id_token i) | None \<Rightarrow> True) x)"

definition handle_withdraw_authorization ::
    "auth_env \<Rightarrow> WithdrawAuthorizationRequest \<Rightarrow> auth_handler \<Rightarrow> WithdrawAuthorizationResult \<times> auth_handler" where
  "handle_withdraw_authorization env r s =
     (if withdraw_evse_id r \<noteq> None \<and> evse_at (the (withdraw_evse_id r)) s = None then (Withdraw_EvseNotFound, s)
      else let s = s\<lparr>withdraw_request := Some r\<rparr>;
               in_process = withdraw_targets_token_in_process r s;
               s = (if in_process then during_withdraw_wait env r s else s);
               s = s\<lparr>withdraw_request := None\<rparr>;
               granted = filter (withdraw_matches r) (evses (reservation_handler s))
           in (if in_process \<or> granted \<noteq> [] then Withdraw_Accepted else Withdraw_AuthorizationNotFound,
               fold (\<lambda>(e, x). withdraw_authorization_or_stop_transaction e x) granted s))"

section \<open>Set up\<close>

definition init_evse :: "int \<Rightarrow> int \<Rightarrow> Connector list \<Rightarrow> auth_handler \<Rightarrow> auth_handler" where
  "init_evse e index cs s =
     (if e \<le> 0 then s else on_reservations (\<lambda>h. h\<lparr>evses := map_put e (new_evse e index cs) (evses h)\<rparr>) s)"

definition get_evse_id_by_index :: "int \<Rightarrow> auth_handler \<Rightarrow> int option" where
  "get_evse_id_by_index index s =
     map_option fst (find (\<lambda>(e, x). evse_index x = index) (evses (reservation_handler s)))"

fun take_restored :: "int list \<Rightarrow> auth_handler \<Rightarrow> (int \<times> int) list \<times> auth_handler" where
  "take_restored [] s = ([], s)"
| "take_restored (e # es) s =
     (if \<not> evse_is reported_enabled e s then take_restored es s
      else case take_restored_reservation e (reservation_handler s) of (restored, h) \<Rightarrow>
        case take_restored es (s\<lparr>reservation_handler := h\<rparr>) of (to_apply, s) \<Rightarrow>
          (case restored of Some i \<Rightarrow> (e, i) # to_apply | None \<Rightarrow> to_apply, s))"

definition initialize ::
    "auth_env \<Rightarrow> (string \<Rightarrow> int) \<Rightarrow> int \<Rightarrow> (int option \<times> Reservation) option list option \<Rightarrow> auth_handler \<Rightarrow> auth_handler option" where
  "initialize env from_rfc3339 now content s =
     (case load_reservations from_rfc3339 now content (reservation_handler s) of
        None \<Rightarrow> None
      | Some h \<Rightarrow>
          let s = s\<lparr>reservation_handler := check_evse_reserved_and_send_updates h\<rparr>
          in case take_restored (map fst (evses (reservation_handler s))) s of (to_apply, s) \<Rightarrow>
               Some (fold (\<lambda>(e, i). apply_restored_reservation env e i) to_apply s))"

definition set_master_pass_group_id :: "string \<Rightarrow> auth_handler \<Rightarrow> auth_handler" where
  "set_master_pass_group_id master s = s\<lparr>master_pass_group_id := (if master = [] then None else Some master)\<rparr>"

definition set_connection_timeout :: "int \<Rightarrow> auth_handler \<Rightarrow> auth_handler" where
  "set_connection_timeout timeout s = s\<lparr>connection_timeout := timeout\<rparr>"

definition set_plug_in_timeout_enabled :: "bool \<Rightarrow> auth_handler \<Rightarrow> auth_handler" where
  "set_plug_in_timeout_enabled enabled s = s\<lparr>plug_in_timeout_enabled := enabled\<rparr>"

definition set_prioritize_authorization_over_stopping_transaction :: "bool \<Rightarrow> auth_handler \<Rightarrow> auth_handler" where
  "set_prioritize_authorization_over_stopping_transaction b s =
     s\<lparr>prioritize_authorization_over_stopping_transaction := b\<rparr>"

definition set_stop_transaction_on_reswipe :: "bool \<Rightarrow> auth_handler \<Rightarrow> auth_handler" where
  "set_stop_transaction_on_reswipe b s = s\<lparr>stop_transaction_on_reswipe := b\<rparr>"

definition new_auth_handler ::
    "SelectionAlgorithm \<Rightarrow> int \<Rightarrow> bool \<Rightarrow> bool \<Rightarrow> bool \<Rightarrow> bool \<Rightarrow> (int option \<times> Reservation) list option \<Rightarrow> auth_handler" where
  "new_auth_handler algorithm timeout plug_in_timeout_on prioritize ignore_errors reswipe store =
     \<lparr>selection_algorithm = algorithm, connection_timeout = timeout, plug_in_timeout_enabled = plug_in_timeout_on,
      master_pass_group_id = None, prioritize_authorization_over_stopping_transaction = prioritize,
      ignore_faults = ignore_errors, stop_transaction_on_reswipe = reswipe,
      reservation_handler = new_handler [] store True, plug_in_queue = [], tokens_in_process = [], withdraw_request = None,
      publish_callback = True, auth_outputs = []\<rparr>"

end
