(* ===== verification/Auth_Safety.thy ===== *)
theory Auth_Safety
  imports Auth_Handler
begin

text \<open>
  What the authorization of tokens promises: the state of the reservations stays consistent, tokens are
  only accepted where the reservations and the validation allow it, and reserved vehicles keep their places.
\<close>

section \<open>Reserved vehicles that arrive\<close>

text \<open>A vehicle that arrives where it may leaves the others served.\<close>

lemma always_served_arrival:
  assumes "always_served cu (add_mset t M)" and "cu t e"
  shows "always_served (\<lambda>t' e'. cu t' e' \<and> e' \<noteq> e) M"
  unfolding always_served_def
proof (intro allI impI, elim conjE)
  fix arrived t'
  assume sub: "add_mset t' (mset (map fst arrived)) \<subseteq># M" and d: "distinct (map snd arrived)"
    and u: "\<forall>(t', e') \<in> set arrived. cu t' e' \<and> e' \<noteq> e"
  have "add_mset t' (mset (map fst ((t, e) # arrived))) \<subseteq># add_mset t M"
    using sub by (simp add: add_mset_commute [of t'])
  moreover have "distinct (map snd ((t, e) # arrived))" and "\<forall>(t', e') \<in> set ((t, e) # arrived). cu t' e'"
    using d u assms(2) by auto
  ultimately show "\<exists>e'. (cu t' e' \<and> e' \<noteq> e) \<and> e' \<notin> snd ` set arrived"
    using assms(1) [unfolded always_served_def, rule_format, of t' "(t, e) # arrived"] by auto
qed

lemma can_use_plugged_in:
  assumes "ordered es" and "map_of es e = Some evse"
  shows "can_use (map_put e (evse\<lparr>plugged_in := True\<rparr>) es) specific t e' \<longleftrightarrow> can_use es specific t e' \<and> e' \<noteq> e"
  using assms ordered_put [OF assms(1)]
  by (auto simp: can_use_def evse_accepts_def accepted_here_iff get_connector_availability_reservation_result_def
      ordered_map_of [symmetric])

lemma can_use_freed:
  assumes "map_has m e" and "\<And>k. map_has m' k \<longleftrightarrow> map_has m k \<and> k \<noteq> e"
  shows "can_use es m' t e' \<and> e' \<noteq> e \<longleftrightarrow> can_use es m t e'"
  using assms by (auto simp: can_use_def evse_accepts_def accepted_here_iff)

lemma mset_remove_id:
  "distinct (map f xs) \<Longrightarrow> x \<in> set xs \<Longrightarrow> mset xs = add_mset x (mset (filter (\<lambda>y. f y \<noteq> f x) xs))"
proof (induction xs)
  case (Cons y ys)
  show ?case
  proof (cases "y = x")
    case True
    then have "filter (\<lambda>z. f z \<noteq> f x) ys = ys"
      using Cons.prems(1) by (auto simp: filter_id_conv) (metis image_eqI)
    then show ?thesis
      using True by simp
  next
    case False
    then have "f y \<noteq> f x"
      using Cons.prems by auto
    then show ?thesis
      using False Cons by simp
  qed
qed simp

lemma matches_reserved_cases:
  assumes "matches_reserved_identifier token (Some e) parent h = Some i"
  obtains (own) r where "map_of (evse_reservations h) e = Some r" "token_matches token parent r" "reservation_id r = i"
  | (any) r where "map_of (evse_reservations h) e = None" "r \<in> set (global_reservations h)" "token_matches token parent r"
      "reservation_id r = i"
proof (cases "map_of (evse_reservations h) e")
  case None
  then obtain r where "find (token_matches token parent) (global_reservations h) = Some r" "reservation_id r = i"
    using assms by (auto simp: matches_reserved_identifier_def)
  then have "r \<in> set (global_reservations h)" "token_matches token parent r"
    by (auto simp: find_Some_iff)
  with None \<open>reservation_id r = i\<close> show ?thesis
    by (intro any)
next
  case (Some r)
  then show ?thesis
    using assms own by (auto simp: matches_reserved_identifier_def split: if_splits)
qed

section \<open>Consistency of the composed state\<close>

abbreviation auth_ok :: "auth_handler \<Rightarrow> bool" where
  "auth_ok s \<equiv> handler_ok (reservation_handler s)"

text \<open>Other threads keep the reservations consistent.\<close>

definition env_ok :: "auth_env \<Rightarrow> bool" where
  "env_ok env =
     ((\<forall>p s. auth_ok s \<longrightarrow> auth_ok (during_validation env p s)) \<and>
      (\<forall>es s. auth_ok s \<longrightarrow> auth_ok (during_plug_wait env es s)) \<and>
      (\<forall>e s. auth_ok s \<longrightarrow> auth_ok (during_timeout_wait env e s)) \<and>
      (\<forall>r s. auth_ok s \<longrightarrow> auth_ok (during_withdraw_wait env r s)) \<and>
      (\<forall>e i r s. auth_ok s \<longrightarrow> auth_ok (snd (reserved_callback env e i r s))))"

named_theorems auth_ok_intros

lemma auth_ok_send_output [simp]: "reservation_handler (send_output out s) = reservation_handler s"
  by (simp add: send_output_def)

lemma auth_ok_publish [simp]: "reservation_handler (publish_token_validation_status p status ms s) = reservation_handler s"
  by (simp add: publish_token_validation_status_def)

lemma auth_ok_update_evse [auth_ok_intros]: "auth_ok s \<Longrightarrow> auth_ok (update_evse e f s)"
  using handler_ok_fields(3) by (auto simp: update_evse_def evse_at_def on_reservations_def map_has_def split: option.split)

lemma auth_ok_on_reservations [auth_ok_intros]:
  "auth_ok s \<Longrightarrow> (\<And>h. handler_ok h \<Longrightarrow> handler_ok (f h)) \<Longrightarrow> auth_ok (on_reservations f s)"
  by (simp add: on_reservations_def)

lemma handler_ok_notifications [auth_ok_intros]:
  "handler_ok h \<Longrightarrow> handler_ok (check_evse_reserved_and_send_updates h)"
  "handler_ok h \<Longrightarrow> handler_ok (notify_cancelled e i reason u h)"
  "handler_ok h \<Longrightarrow> handler_ok (call_reservation_cancelled i reason e u h)"
  by (auto simp: handler_ok_def all_reservations_def persisted_def notify_cancelled_def call_reservation_cancelled_def)

lemma handler_ok_ops [auth_ok_intros]:
  "handler_ok h \<Longrightarrow> handler_ok (on_reservation_used i h)"
  "handler_ok h \<Longrightarrow> handler_ok (reservation_expired i h)"
  "handler_ok h \<Longrightarrow> handler_ok (on_connector_state_changed state e c h)"
  "handler_ok h \<Longrightarrow> handler_ok (snd (cancel_reservation i cb reason h))"
  "handler_ok h \<Longrightarrow> handler_ok (snd (cancel_evse_reservation e cb h))"
  "handler_ok h \<Longrightarrow> handler_ok (snd (take_restored_reservation e h))"
  "handler_ok h \<Longrightarrow> handler_ok (snd (make_reservation from_rfc3339 now k r h))"
  using reservation_step_ok [of h from_rfc3339 "Reservation_used i"] reservation_step_ok [of h from_rfc3339 "Reservation_expired i"]
    reservation_step_ok [of h from_rfc3339 "Connector_state_changed state e c"]
    reservation_step_ok [of h from_rfc3339 "Cancel_reservation i cb reason"]
    reservation_step_ok [of h from_rfc3339 "Cancel_evse_reservation e cb"]
    reservation_step_ok [of h from_rfc3339 "Take_restored_reservation e"]
    reservation_step_ok [of h from_rfc3339 "Make_reservation now k r"]
  by simp_all

lemma auth_ok_env:
  assumes "env_ok env" and "auth_ok s"
  shows "auth_ok (during_validation env p s)" and "auth_ok (during_plug_wait env es s)" and "auth_ok (during_timeout_wait env e s)"
    and "auth_ok (during_withdraw_wait env r s)" and "auth_ok (snd (reserved_callback env k i q s))"
  using assms by (simp_all add: env_ok_def)

lemma auth_ok_timers [auth_ok_intros]:
  "auth_ok s \<Longrightarrow> auth_ok (timeout_task e s)"
  "env_ok env \<Longrightarrow> auth_ok s \<Longrightarrow> auth_ok (stop_timer env e s)"
  by (auto simp: timeout_task_def plug_in_timeout_task_def authorization_timeout_task_def stop_timer_def Let_def
      intro!: auth_ok_intros auth_ok_env split: option.split evse_timeout.split)

lemma auth_ok_notify_evse [auth_ok_intros]: "env_ok env \<Longrightarrow> auth_ok s \<Longrightarrow> auth_ok (notify_evse env e p v s)"
  by (auto simp: notify_evse_def Let_def intro!: auth_ok_intros auth_ok_env)

lemma auth_ok_authorize_at: "authorize_at e v p s = (b, v', p', s') \<Longrightarrow> auth_ok s \<Longrightarrow> auth_ok s'"
  by (auto simp: authorize_at_def Let_def intro!: auth_ok_intros split: if_splits option.splits)

lemma auth_ok_select_evse: "select_evse env es token s = Some (e, status, s') \<Longrightarrow> env_ok env \<Longrightarrow> auth_ok s \<Longrightarrow> auth_ok s'"
  by (auto simp: select_evse_def select_by_plug_events_def select_first_def Let_def intro!: auth_ok_env
      split: if_splits SelectionAlgorithm.splits option.splits)

fun authorize_state :: "token_result + bool \<times> ValidationResult \<times> ProvidedIdToken \<times> auth_handler \<Rightarrow> auth_handler" where
  "authorize_state (Inl (r, p, s)) = s"
| "authorize_state (Inr (b, v, p, s)) = s"

lemma auth_ok_authorize_round:
  assumes "env_ok env" and "auth_ok s" and "authorize_round env es v p s = Some result"
  shows "auth_ok (authorize_state result)"
  using assms(3) auth_ok_notify_evse [OF assms(1) auth_ok_authorize_at] auth_ok_select_evse [OF _ assms(1)] assms(2)
  by (auto simp: authorize_round_def Let_def split: if_splits option.splits prod.splits SelectEvseReturnStatus.splits)

lemma authorize_round_early:
  "authorize_round env es v p s = Some (Inl (r, p', s')) \<Longrightarrow> r = REJECTED \<or> r = TIMEOUT \<or> r = WITHDRAWN"
  by (auto simp: authorize_round_def Let_def split: if_splits option.splits prod.splits SelectEvseReturnStatus.splits)

lemma authorize_round_token:
  "authorize_round env es v p s = Some (Inr (b, v', p', s')) \<Longrightarrow> provided_id_token p' = provided_id_token p"
  by (auto simp: authorize_round_def authorize_at_def Let_def split: if_splits option.splits prod.splits SelectEvseReturnStatus.splits)

text \<open>The last round decides what the loop returns.\<close>

lemma authorize_loop_round:
  "authorize_loop env es current p s vs = Some result \<Longrightarrow>
     (es = [] \<or> vs = []) \<and> result = Inr (False, current, p, s) \<or>
     (\<exists>v \<in> set vs. \<exists>p' s'. es \<noteq> [] \<and> authorize_round env es v p' s' = Some result \<and>
        provided_id_token p' = provided_id_token p \<and> (env_ok env \<and> auth_ok s \<longrightarrow> auth_ok s'))"
proof (induction vs arbitrary: current p s)
  case (Cons v vs)
  show ?case
  proof (cases "es = []")
    case True
    then show ?thesis
      using Cons.prems by simp
  next
    case es: False
    obtain r where r: "authorize_round env es v p s = Some r"
      using Cons.prems es by (cases "authorize_round env es v p s") auto
    show ?thesis
    proof (cases "r = result")
      case True
      then show ?thesis
        using r es by auto
    next
      case False
      then obtain v' p' s' where r': "r = Inr (False, v', p', s')" and rest: "authorize_loop env es v' p' s' vs = Some result"
        using Cons.prems es r by (cases r) (auto split: if_splits)
      have "result = r \<or> (\<exists>w \<in> set vs. \<exists>p'' s''. authorize_round env es w p'' s'' = Some result \<and>
          provided_id_token p'' = provided_id_token p' \<and> (env_ok env \<and> auth_ok s' \<longrightarrow> auth_ok s''))"
        using Cons.IH [OF rest] r' by auto
      moreover have "env_ok env \<and> auth_ok s \<longrightarrow> auth_ok s'"
        using auth_ok_authorize_round [OF _ _ r] r' by auto
      ultimately show ?thesis
        using False es authorize_round_token [OF r [unfolded r']] by auto
    qed
  qed
qed simp

lemma auth_ok_authorize_loop:
  assumes "env_ok env" and "auth_ok s" and "authorize_loop env es current p s vs = Some result"
  shows "auth_ok (authorize_state result)"
  using authorize_loop_round [OF assms(3)] auth_ok_authorize_round [OF assms(1)] assms(1,2) by auto

lemma auth_ok_stop_with_parent: "stop_with_parent es p s vs = Some (r, p', s') \<Longrightarrow> reservation_handler s' = reservation_handler s"
proof (induction vs)
  case (Cons v vs)
  have "reservation_handler (fold (\<lambda>e s. send_output (f e s) s) xs t) = reservation_handler t" for f xs t
    by (induction xs arbitrary: t) simp_all
  then show ?case
    using Cons by (auto simp: stop_all_transactions_def Let_def split: if_splits)
qed simp

lemma auth_ok_finish_token:
  assumes "env_ok env" and "auth_ok s" and "finish_token env (b, v, p, s) = (r, p', s')"
  shows "auth_ok s'"
proof -
  have "auth_ok (fold (\<lambda>e s. if evse_at e s \<noteq> None then notify_evse env e p v s else s) xs t)" if "auth_ok t" for xs t
    using that by (induction xs arbitrary: t) (simp_all add: auth_ok_notify_evse [OF assms(1)])
  then show ?thesis
    using assms(2,3) by (auto simp: finish_token_def split: if_splits)
qed

lemma auth_ok_handle_validated_token:
  assumes "env_ok env" and "auth_ok s" and "handle_validated_token env es p vs s = Some (r, p', s')"
  shows "auth_ok s'"
proof -
  have "auth_ok s'" if "authorize_loop env es' unknown_result p s vs = Some (Inl (r, p', s'))" for es'
    using auth_ok_authorize_loop [OF assms(1,2) that] by simp
  moreover have "auth_ok s'" if "authorize_loop env es' unknown_result p s vs = Some (Inr x)" "finish_token env x = (r, p', s')" for es' x
    using auth_ok_authorize_loop [OF assms(1,2) that(1)] auth_ok_finish_token [OF assms(1)] that(2) by (cases x) auto
  ultimately show ?thesis
    using assms(2,3) by (auto simp: handle_validated_token_def dest: auth_ok_stop_with_parent split: if_splits option.splits sum.splits)
qed

lemma auth_ok_on_token:
  assumes "env_ok env" and "auth_ok s" and "on_token env p s = Some (r, s')"
  shows "auth_ok s'"
proof -
  have "auth_ok u'" if "handle_token env p u = Some (r', p', u')" "auth_ok u" for r' p' u u'
    using that auth_ok_env(1) [OF assms(1) that(2)]
    by (auto simp: handle_token_def used_token_def Let_def split: if_splits
        dest: auth_ok_handle_validated_token [OF assms(1), rotated])
  then show ?thesis
    using assms(2,3) by (fastforce simp: on_token_def publish_result_def Let_def split: if_splits option.splits)
qed

lemma auth_ok_cancel_reservation: "auth_ok s \<Longrightarrow> auth_ok (snd (handle_cancel_reservation i s))"
  using handler_ok_ops(4) [of "reservation_handler s" i False Cancelled] by (simp add: handle_cancel_reservation_def case_prod_beta)

lemma auth_ok_call_reserved: "env_ok env \<Longrightarrow> auth_ok s \<Longrightarrow> auth_ok (snd (call_reserved env i e s))"
  using auth_ok_env(5) [of env s] by (auto simp: call_reserved_def Let_def case_prod_beta intro!: auth_ok_intros)

lemma auth_ok_apply: "env_ok env \<Longrightarrow> auth_ok s \<Longrightarrow> auth_ok (apply_restored_reservation env k i s)"
  using auth_ok_call_reserved [of env s i "Some k"] auth_ok_cancel_reservation
  by (auto simp: apply_restored_reservation_def case_prod_beta intro!: auth_ok_intros)

lemmas auth_ok_reserve = auth_ok_call_reserved auth_ok_apply auth_ok_cancel_reservation

lemma auth_ok_place_reservation: "env_ok env \<Longrightarrow> auth_ok s \<Longrightarrow> auth_ok (snd (place_reservation env from_rfc3339 now r s))"
proof -
  assume env: "env_ok env" and s: "auth_ok s"
  have handle: "auth_ok (snd (handle_reservation from_rfc3339 now r s))"
    using handler_ok_ops(7) [OF s] by (simp add: handle_reservation_def Let_def case_prod_beta)
  have drop: "auth_ok (snd (cancel_replaced_if_dropped i e t))" if "auth_ok t" for i e t
    using that by (auto simp: cancel_replaced_if_dropped_def intro!: auth_ok_intros split: option.split)
  show ?thesis
    unfolding place_reservation_def Let_def case_prod_beta
    by (auto intro!: drop handle env auth_ok_reserve auth_ok_intros split: option.split)
qed

lemma auth_ok_submit_event [auth_ok_intros]: "auth_ok s \<Longrightarrow> auth_ok (submit_event_for_connector e c event s)"
  by (auto simp: submit_event_for_connector_def Let_def intro!: auth_ok_intros split: option.split)

lemma auth_ok_session_event:
  assumes "env_ok env" and "auth_ok s"
  shows "auth_ok (handle_session_event env e c event s)"
proof -
  have "auth_ok (snd (session_event env e d event s))" for d
    using assms by (cases event) (auto simp: session_event_def session_started_def Let_def intro!: auth_ok_intros)
  then show ?thesis
    using assms
    by (auto simp: handle_session_event_def Let_def case_prod_beta intro!: auth_ok_intros auth_ok_reserve split: option.split)
qed

lemma auth_ok_withdraw:
  assumes "env_ok env" and "auth_ok s"
  shows "auth_ok (snd (handle_withdraw_authorization env r s))"
proof -
  have fold: "reservation_handler (fold (\<lambda>(e, x). withdraw_authorization_or_stop_transaction e x) xs t) = reservation_handler t" for xs t
    by (induction xs arbitrary: t) (auto simp: withdraw_authorization_or_stop_transaction_def Let_def split: option.split)
  have "auth_ok (during_withdraw_wait env r (s\<lparr>withdraw_request := Some r\<rparr>))"
    by (rule auth_ok_env(4) [OF assms(1)]) (use assms(2) in simp)
  then show ?thesis
    using assms(2) by (simp add: handle_withdraw_authorization_def Let_def fold)
qed

section \<open>Runs\<close>

text \<open>Requests, events, timers and changes of the configuration, each with what other threads do while the lock is free.\<close>

datatype auth_op =
    Token ProvidedIdToken
  | Validation_result_update ValidationResult int
  | Place_reservation int Reservation
  | Withdraw_reservation int
  | Session_event int "int option" SessionEventEnum
  | Fault_raised int int
  | Fault_cleared int int
  | Timer_elapsed int
  | Reservation_timer_elapsed int
  | Withdraw WithdrawAuthorizationRequest
  | Init_evse int int "Connector list"
  | Set_master_pass_group_id string
  | Set_plug_in_timeout_enabled bool
  | Set_connection_timeout int
  | Set_prioritize bool
  | Set_stop_on_reswipe bool

fun auth_step :: "(string \<Rightarrow> int) \<Rightarrow> auth_env \<Rightarrow> auth_op \<Rightarrow> auth_handler \<Rightarrow> auth_handler option" where
  "auth_step from_rfc3339 env (Token p) s = map_option snd (on_token env p s)"
| "auth_step from_rfc3339 env (Validation_result_update v e) s = Some (handle_token_validation_result_update v e s)"
| "auth_step from_rfc3339 env (Place_reservation now r) s = Some (snd (place_reservation env from_rfc3339 now r s))"
| "auth_step from_rfc3339 env (Withdraw_reservation i) s = Some (snd (handle_cancel_reservation i s))"
| "auth_step from_rfc3339 env (Session_event e c event) s = Some (handle_session_event env e c event s)"
| "auth_step from_rfc3339 env (Fault_raised e c) s = Some (handle_permanent_fault_raised e c s)"
| "auth_step from_rfc3339 env (Fault_cleared e c) s = Some (handle_permanent_fault_cleared e c s)"
| "auth_step from_rfc3339 env (Timer_elapsed e) s = Some (timeout_task e s)"
| "auth_step from_rfc3339 env (Reservation_timer_elapsed i) s = Some (on_reservations (reservation_expired i) s)"
| "auth_step from_rfc3339 env (Withdraw r) s = Some (snd (handle_withdraw_authorization env r s))"
| "auth_step from_rfc3339 env (Init_evse e index cs) s = Some (init_evse e index cs s)"
| "auth_step from_rfc3339 env (Set_master_pass_group_id master) s = Some (set_master_pass_group_id master s)"
| "auth_step from_rfc3339 env (Set_plug_in_timeout_enabled b) s = Some (set_plug_in_timeout_enabled b s)"
| "auth_step from_rfc3339 env (Set_connection_timeout t) s = Some (set_connection_timeout t s)"
| "auth_step from_rfc3339 env (Set_prioritize b) s = Some (set_prioritize_authorization_over_stopping_transaction b s)"
| "auth_step from_rfc3339 env (Set_stop_on_reswipe b) s = Some (set_stop_transaction_on_reswipe b s)"

definition auth_start :: "auth_handler \<Rightarrow> bool" where
  "auth_start s = (\<exists>algorithm timeout plug_in prioritize ignore_errors reswipe store. store \<in> {None, Some []} \<and>
     s = new_auth_handler algorithm timeout plug_in prioritize ignore_errors reswipe store)"

definition auth_trans :: "(string \<Rightarrow> int) \<Rightarrow> auth_env \<times> auth_op \<Rightarrow> auth_handler \<Rightarrow> auth_handler \<Rightarrow> bool" where
  "auth_trans from_rfc3339 event s s' = (env_ok (fst event) \<and> auth_step from_rfc3339 (fst event) (snd event) s = Some s')"

lemma auth_ok_init_evse: "auth_ok s \<Longrightarrow> auth_ok (init_evse e index cs s)"
  by (auto simp: init_evse_def on_reservations_def handler_ok_def all_reservations_def persisted_def set_keys_put)

lemma auth_ok_other:
  "auth_ok s \<Longrightarrow> auth_ok (handle_token_validation_result_update v e s)"
  "auth_ok s \<Longrightarrow> auth_ok (handle_permanent_fault_raised e c s)"
  "auth_ok s \<Longrightarrow> auth_ok (handle_permanent_fault_cleared e c s)"
  by (auto simp: handle_token_validation_result_update_def handle_permanent_fault_raised_def handle_permanent_fault_cleared_def
      Let_def intro!: auth_ok_intros split: option.split)

interpretation auth: invariant_system auth_start "auth_trans from_rfc3339" auth_ok for from_rfc3339
proof
  show "auth_ok s" if "auth_start s" for s
    using that by (auto simp: auth_start_def new_auth_handler_def new_handler_def handler_ok_def all_reservations_def persisted_def
        ordered_def)
  show "auth_ok s'" if "auth_ok s" "auth_trans from_rfc3339 event s s'" for s event s'
    using that
    by (cases "snd event") (auto simp: auth_trans_def set_master_pass_group_id_def set_plug_in_timeout_enabled_def
        set_connection_timeout_def set_prioritize_authorization_over_stopping_transaction_def set_stop_transaction_on_reswipe_def
        intro!: auth_ok_intros auth_ok_place_reservation auth_ok_reserve auth_ok_session_event auth_ok_withdraw auth_ok_init_evse
        auth_ok_other dest: auth_ok_on_token)
qed

section \<open>Authorized tokens\<close>

lemma authorize_at_cases:
  assumes "authorize_at e v p s = (True, v', p', s')"
  obtains (free) "matches_reserved_identifier (token_value (provided_id_token p)) (Some e)
        (map_option token_value (validation_parent_id_token v)) (reservation_handler s) = None"
      "\<not> is_evse_reserved e (reservation_handler s)" "charging_possible_at e s" "v' = v" "s' = s"
  | (reserved) i where "matches_reserved_identifier (token_value (provided_id_token p)) (Some e)
        (map_option token_value (validation_parent_id_token v)) (reservation_handler s) = Some i"
      "v' = v\<lparr>validation_reservation_id := Some i\<rparr>" "s' = on_reservations (on_reservation_used i) s"
proof (cases "matches_reserved_identifier (token_value (provided_id_token p)) (Some e)
    (map_option token_value (validation_parent_id_token v)) (reservation_handler s)")
  case None
  then show ?thesis
    using assms by (intro free) (auto simp: authorize_at_def Let_def split: if_splits)
next
  case (Some i)
  then show ?thesis
    using assms by (intro reserved) (auto simp: authorize_at_def Let_def split: if_splits)
qed

lemma authorize_at_evse_ids:
  "authorize_at e v p s = (True, v', p', s') \<Longrightarrow> (case validation_evse_ids v of Some es \<Rightarrow> e \<in> set es | None \<Rightarrow> True) \<and>
     authorization_status v' = authorization_status v \<and> p' = p\<lparr>provided_connectors := Some [e]\<rparr>"
  by (auto simp: authorize_at_def Let_def split: if_splits option.splits)

definition served :: "reservation_handler \<Rightarrow> bool" where
  "served h = always_served (can_use (evses h) (evse_reservations h)) (mset (reserved_types (global_reservations h)))"

definition plug_in_at :: "int \<Rightarrow> EVSEContext \<Rightarrow> reservation_handler \<Rightarrow> reservation_handler" where
  "plug_in_at e x h = h\<lparr>evses := map_put e (x\<lparr>plugged_in := True\<rparr>) (evses h)\<rparr>"

lemma served_plug_in:
  assumes "handler_ok h" and "map_of (evses h) e = Some x"
  shows "served (plug_in_at e x h) \<longleftrightarrow>
    always_served (\<lambda>t e'. can_use (evses h) (evse_reservations h) t e' \<and> e' \<noteq> e) (mset (reserved_types (global_reservations h)))"
proof -
  have "ordered (evses h)"
    using assms(1) by (simp add: handler_ok_def)
  then have "can_use (map_put e (x\<lparr>plugged_in := True\<rparr>) (evses h)) (evse_reservations h) =
      (\<lambda>t e'. can_use (evses h) (evse_reservations h) t e' \<and> e' \<noteq> e)"
    by (intro ext) (rule can_use_plugged_in [OF _ assms(2)])
  then show ?thesis
    by (simp add: served_def plug_in_at_def)
qed

lemma handler_ok_ids:
  assumes "handler_ok h"
  shows "distinct (map (\<lambda>e. reservation_id (snd e)) (evse_reservations h))"
    and "distinct (map reservation_id (global_reservations h))"
    and "er \<in> set (evse_reservations h) \<Longrightarrow> q \<in> set (global_reservations h) \<Longrightarrow> reservation_id q \<noteq> reservation_id (snd er)"
proof -
  have "distinct (map reservation_id (map snd (evse_reservations h) @ global_reservations h))"
    using assms by (simp add: handler_ok_def all_reservations_def)
  then have "distinct (map (\<lambda>e. reservation_id (snd e)) (evse_reservations h)) \<and> distinct (map reservation_id (global_reservations h)) \<and>
      (\<lambda>e. reservation_id (snd e)) ` set (evse_reservations h) \<inter> reservation_id ` set (global_reservations h) = {}"
    by (simp add: comp_def image_image)
  then show "distinct (map (\<lambda>e. reservation_id (snd e)) (evse_reservations h))"
    and "distinct (map reservation_id (global_reservations h))"
    and "er \<in> set (evse_reservations h) \<Longrightarrow> q \<in> set (global_reservations h) \<Longrightarrow> reservation_id q \<noteq> reservation_id (snd er)"
    by auto
qed

lemma used_effect:
  assumes "handler_ok h"
  shows "evse_reservations (on_reservation_used i h) = filter (\<lambda>e. reservation_id (snd e) \<noteq> i) (evse_reservations h)"
    and "global_reservations (on_reservation_used i h) = filter (\<lambda>r. reservation_id r \<noteq> i) (global_reservations h)"
    and "evses (on_reservation_used i h) = evses h"
  using cancel_effect [OF assms] unfolding on_reservation_used_def by (metis prod.collapse)+

lemma used_all:
  assumes "handler_ok h" and "r \<in> set (all_reservations h)"
  shows "set (all_reservations (on_reservation_used (reservation_id r) h)) = set (all_reservations h) - {r}"
proof -
  have "set (all_reservations (on_reservation_used (reservation_id r) h)) =
      {q \<in> set (all_reservations h). reservation_id q \<noteq> reservation_id r}"
    by (auto simp: all_reservations_def used_effect [OF assms(1)])
  moreover have "inj_on reservation_id (set (all_reservations h))"
    using assms(1) by (simp add: handler_ok_def distinct_map)
  ultimately show ?thesis
    using assms(2) by (auto dest: inj_onD)
qed

text \<open>A vehicle uses the reservation of the charging point.\<close>

lemma own_reservation_served:
  assumes ok: "handler_ok h" and e: "map_of (evses h) e = Some x" and "served h"
    and r: "map_of (evse_reservations h) e = Some r" and h': "h' = on_reservation_used (reservation_id r) h"
  shows "served (plug_in_at e x h')"
proof -
  let ?m = "evse_reservations h"
  note eff = used_effect [OF ok, of "reservation_id r", folded h']
  note ids = handler_ok_ids [OF ok]
  have o: "ordered ?m"
    using ok by (simp add: handler_ok_def)
  have in_m: "(e, r) \<in> set ?m"
    using r o by (simp add: ordered_map_of)
  have gs: "global_reservations h' = global_reservations h"
    unfolding eff using ids(3) [OF in_m] by (simp add: filter_id_conv)
  have entry: "er = (e, r)" if "er \<in> set ?m" "reservation_id (snd er) = reservation_id r" for er
    using that in_m ids(1) inj_onD [of "\<lambda>e. reservation_id (snd e)" "set ?m" er "(e, r)"] by (simp add: distinct_map)
  have unique: "q = r" if "(e, q) \<in> set ?m" for q
    using that r ordered_map_of [OF o, of e q] by simp
  have "map_has (evse_reservations h') k \<longleftrightarrow> map_has ?m k \<and> k \<noteq> e" for k
  proof -
    have "k \<noteq> e \<longleftrightarrow> reservation_id q \<noteq> reservation_id r" if "(k, q) \<in> set ?m" for q
      using entry [OF that] unique that by auto
    then show ?thesis
      unfolding eff map_has_iff by auto
  qed
  then have "can_use (evses h') (evse_reservations h') t e' \<and> e' \<noteq> e \<longleftrightarrow> can_use (evses h) ?m t e'" for t e'
    unfolding eff(3) using r by (intro can_use_freed) (auto simp: map_has_def)
  moreover have "handler_ok h'" "map_of (evses h') e = Some x"
    using handler_ok_ops(1) [OF ok] e by (simp_all add: h' eff(3) [unfolded h'])
  ultimately show ?thesis
    using \<open>served h\<close> by (simp add: served_plug_in gs) (simp add: served_def)
qed

text \<open>
  A vehicle uses a reservation that is not for a charging point: it has plugged in already, or the charging point
  offers what the reservation asks for.
\<close>

lemma any_reservation_served:
  assumes ok: "handler_ok h" and e: "map_of (evses h) e = Some x" and "served h" and r: "r \<in> set (global_reservations h)"
    and use: "\<not> plugged_in x \<Longrightarrow> can_use (evses h) (evse_reservations h) (value_or UnknownType (res_connector_type r)) e"
    and h': "h' = on_reservation_used (reservation_id r) h"
  shows "served (plug_in_at e x h')"
proof -
  let ?cu = "can_use (evses h) (evse_reservations h)"
  let ?t = "value_or UnknownType (res_connector_type r)" and ?ts = "mset (reserved_types (global_reservations h'))"
  note eff = used_effect [OF ok, of "reservation_id r", folded h']
  note ids = handler_ok_ids [OF ok]
  have m: "evse_reservations h' = evse_reservations h"
    unfolding eff using ids(3) [OF _ r] by (simp add: filter_id_conv) metis
  have "mset (global_reservations h) = add_mset r (mset (global_reservations h'))"
    unfolding eff by (rule mset_remove_id [OF ids(2) r])
  then have before: "always_served ?cu (add_mset ?t ?ts)"
    using \<open>served h\<close> by (simp add: served_def reserved_types_def)
  have "always_served (\<lambda>t e'. ?cu t e' \<and> e' \<noteq> e) ?ts"
  proof (cases "plugged_in x")
    case True
    then have "\<not> ?cu t e" for t
      using e by (auto simp: can_use_def evse_accepts_def accepted_here_iff)
    then have "(\<lambda>t e'. ?cu t e' \<and> e' \<noteq> e) = ?cu"
      by (auto simp: fun_eq_iff)
    then show ?thesis
      using always_served_mono [OF before, of ?ts] by simp
  qed (rule always_served_arrival [OF before use])
  moreover have "handler_ok h'" "map_of (evses h') e = Some x"
    using handler_ok_ops(1) [OF ok] e by (simp_all add: h' eff(3) [unfolded h'])
  ultimately show ?thesis
    by (simp add: served_plug_in m eff(3))
qed

lemma free_served:
  assumes "handler_ok h" and "map_of (evses h) e = Some x" and "is_charging_possible e dummy h"
  shows "served (plug_in_at e x h)"
proof -
  have "ordered (evses h)"
    using assms(1) by (simp add: handler_ok_def)
  from reserved_as_plugged_in [OF this assms(2), of dummy "evse_reservations h"] show ?thesis
    using assms(3) by (auto simp: served_def plug_in_at_def is_charging_possible_def is_reservation_possible_iff Let_def split: if_splits)
qed

section \<open>Selection\<close>

lemma find_member: "find P xs = Some x \<Longrightarrow> x \<in> set xs \<and> P x"
  by (auto simp: find_Some_iff)

lemma plugin_member:
  "get_oldest_plugin es s \<noteq> -1 \<Longrightarrow> get_oldest_plugin es s \<in> set es \<inter> set (plug_in_queue s)"
  "get_last_plugin es s \<noteq> -1 \<Longrightarrow> get_last_plugin es s \<in> set es \<inter> set (plug_in_queue s)"
  by (auto simp: get_oldest_plugin_def get_last_plugin_def split: option.splits dest: find_member)

lemma select_evse_member:
  assumes "select_evse env es token s = Some (Some e, status, s')" and "es \<noteq> []"
  shows "e \<in> set es"
proof (cases "length es = 1")
  case True
  then show ?thesis
    using assms hd_in_set [OF assms(2)] by (simp add: select_evse_def)
next
  case False
  then show ?thesis
    using assms plugin_member [of es]
    by (auto simp: select_evse_def select_by_plug_events_def select_first_def select_plugged_in_evse_def Let_def
        split: SelectionAlgorithm.splits if_splits option.splits dest: find_member)
qed

lemma authorized_round:
  assumes "authorize_round env es v p s = Some (Inr (True, v', p', s'))" and "es \<noteq> []"
  shows "authorization_status v = Status_Accepted \<and> \<not> equals_master_pass_group_id (validation_parent_id_token v) s \<and>
    (\<exists>e q s1 s2. e \<in> set es \<and> provided_id_token q = provided_id_token p \<and> authorize_at e v q s1 = (True, v', p', s2) \<and>
       (env_ok env \<and> auth_ok s \<longrightarrow> auth_ok s1) \<and> s' = notify_evse env e p' v' s2)"
proof -
  let ?p = "if validation_parent_id_token v \<noteq> None then p\<lparr>provided_parent_id_token := validation_parent_id_token v\<rparr> else p"
  let ?s = "publish_token_validation_status ?p Token_Accepted (tariff_messages v) s"
  have v: "authorization_status v = Status_Accepted" "\<not> equals_master_pass_group_id (validation_parent_id_token v) s"
    using assms(1) by (auto simp: authorize_round_def split: if_splits)
  obtain e status s1 where e: "select_evse env es (provided_id_token ?p) ?s = Some (Some e, status, s1)"
    using assms(1) v by (auto simp: authorize_round_def Let_def split: option.splits SelectEvseReturnStatus.splits)
  then obtain s2 where at: "authorize_at e v ?p s1 = (True, v', p', s2)" and s': "s' = notify_evse env e p' v' s2"
    using assms(1) v by (cases "authorize_at e v ?p s1") (auto simp: authorize_round_def Let_def)
  have "auth_ok s1" if "env_ok env \<and> auth_ok s"
    using auth_ok_select_evse [OF e] that by simp
  then show ?thesis
    using v at s' select_evse_member [OF e assms(2)]
    by (intro conjI exI [of _ e] exI [of _ ?p] exI [of _ s1] exI [of _ s2]) auto
qed

section \<open>Properties\<close>


text \<open>
  C11: a token starts a transaction only when it is allowed to. Whatever other threads do while the token is
  handled, there is a validation result that accepts the token and is not from the master pass group, a
  charging point that the token referred to and that the validation allows, and a state of the reservations in which
  either a reservation for the token matched and was used up, or the charging point was not reserved and
  charging there took no place of a reserved vehicle. The notification of that charging point is the last step.
\<close>

theorem token_starts_only_if_allowed:
  assumes "handle_token env p s = Some (USED_TO_START_TRANSACTION, p', s')"
  shows "\<exists>e v v' q s1 s2. e \<in> set (get_referenced_evses p s) \<and>
    (v = prevalidated_result p \<and> prevalidated p = Some True \<or> v \<in> set (validate_token env p s)) \<and>
    authorization_status v = Status_Accepted \<and> (case validation_evse_ids v of Some es \<Rightarrow> e \<in> set es | None \<Rightarrow> True) \<and>
    provided_id_token q = provided_id_token p \<and> authorize_at e v q s1 = (True, v', p', s2) \<and>
    (validation_reservation_id v' = matches_reserved_identifier (token_value (provided_id_token p)) (Some e)
       (map_option token_value (validation_parent_id_token v)) (reservation_handler s1) \<and> validation_reservation_id v' \<noteq> None \<or>
     \<not> is_evse_reserved e (reservation_handler s1) \<and> charging_possible_at e s1) \<and>
    s' = notify_evse env e p' v' s2"
proof -
  obtain vs u where vs: "handle_validated_token env (get_referenced_evses p s) p vs u = Some (USED_TO_START_TRANSACTION, p', s')"
      and v: "vs = [prevalidated_result p] \<and> prevalidated p = Some True \<or> vs = validate_token env p s"
    using assms by (auto simp: handle_token_def used_token_def Let_def split: if_splits)
  define es where "es = filter (\<lambda>e. evse_is (\<lambda>x. evse_identifier x = None) e u) (get_referenced_evses p s)"
  have "stop_with_parent xs p u ws \<noteq> Some (USED_TO_START_TRANSACTION, p', s')" for xs ws
    by (induction ws) (auto simp: Let_def)
  moreover have "authorize_loop env es unknown_result p u vs \<noteq> Some (Inl (USED_TO_START_TRANSACTION, p', s'))"
    using authorize_loop_round authorize_round_early by blast
  ultimately obtain b v' where loop: "authorize_loop env es unknown_result p u vs = Some (Inr (True, v', p', s'))"
    using vs by (auto simp: handle_validated_token_def finish_token_def es_def split: if_splits option.splits sum.splits prod.splits)
  obtain w q t where w: "w \<in> set vs" "es \<noteq> []" "authorize_round env es w q t = Some (Inr (True, v', p', s'))"
      "provided_id_token q = provided_id_token p"
    using authorize_loop_round [OF loop] by auto
  obtain e q' s1 s2 where e: "authorization_status w = Status_Accepted" "e \<in> set es" "provided_id_token q' = provided_id_token q"
      "authorize_at e w q' s1 = (True, v', p', s2)" "s' = notify_evse env e p' v' s2"
    using authorized_round [OF w(3,2)] by blast
  have "validation_reservation_id v' = matches_reserved_identifier (token_value (provided_id_token p)) (Some e)
       (map_option token_value (validation_parent_id_token w)) (reservation_handler s1) \<and> validation_reservation_id v' \<noteq> None \<or>
     \<not> is_evse_reserved e (reservation_handler s1) \<and> charging_possible_at e s1"
    using e(4) by (cases rule: authorize_at_cases) (use e(3) w(4) in auto)
  then show ?thesis
    using v w(1,4) e authorize_at_evse_ids [OF e(4)]
    by (intro exI [of _ e] exI [of _ w] exI [of _ v'] exI [of _ q'] exI [of _ s1] exI [of _ s2]) (auto simp: es_def)
qed

section \<open>Examples\<close>

fun auth_run :: "(string \<Rightarrow> int) \<Rightarrow> (auth_env \<times> auth_op) list \<Rightarrow> auth_handler \<Rightarrow> auth_handler option" where
  "auth_run from_rfc3339 [] s = Some s"
| "auth_run from_rfc3339 ((env, op) # ops) s = Option.bind (auth_step from_rfc3339 env op s) (auth_run from_rfc3339 ops)"

lemma reachable_run:
  assumes "reachable auth_start (auth_trans from_rfc3339) past s" and "list_all (\<lambda>(env, op). env_ok env) ops"
    and "auth_run from_rfc3339 ops s = Some s'"
  shows "reachable auth_start (auth_trans from_rfc3339) (past @ ops) s'"
  using assms
proof (induction ops arbitrary: past s)
  case (Cons op ops)
  then obtain t where t: "auth_step from_rfc3339 (fst op) (snd op) s = Some t" "auth_run from_rfc3339 ops t = Some s'"
    by (cases op) (auto simp: bind_eq_Some_conv)
  have "reachable auth_start (auth_trans from_rfc3339) (past @ [op]) t"
    by (rule reachable_step [OF Cons.prems(1)]) (use Cons.prems(2) t(1) in \<open>auto simp: auth_trans_def\<close>)
  then show ?case
    using Cons.IH [of "past @ [op]" t] Cons.prems(2) t(2) by simp
qed simp

definition quiet_env :: "ValidationResult list \<Rightarrow> auth_env" where
  "quiet_env vs = \<lparr>validate_token = (\<lambda>p s. vs), during_validation = (\<lambda>p s. s), during_plug_wait = (\<lambda>es s. s),
     during_timeout_wait = (\<lambda>e s. s), during_withdraw_wait = (\<lambda>r s. s), reserved_callback = (\<lambda>e i r s. (True, s))\<rparr>"

definition accepted_result :: ValidationResult where
  "accepted_result = unknown_result\<lparr>authorization_status := Status_Accepted\<rparr>"

definition rfid_card :: "string \<Rightarrow> ProvidedIdToken" where
  "rfid_card value = \<lparr>request_id = None, provided_id_token = \<lparr>token_value = value, token_type = ISO14443\<rparr>,
     provided_parent_id_token = None, authorization_type = RFID, provided_connectors = None, prevalidated = None,
     certificate = None\<rparr>"

definition two_evses :: "(auth_env \<times> auth_op) list" where
  "two_evses = map (Pair (quiet_env [])) [Init_evse 1 0 [new_connector 1 cType2], Init_evse 2 1 [new_connector 1 cCCS2, new_connector 2 cType2]]"

definition example_start :: auth_handler where
  "example_start = new_auth_handler PlugEvents 60 False False False True (Some [])"

lemma quiet_run_reachable:
  assumes "auth_run rfc3339_example ops example_start = Some s" and "list_all (\<lambda>(env, op). \<exists>vs. env = quiet_env vs) ops"
  shows "reachable auth_start (auth_trans rfc3339_example) ops s"
proof -
  have "auth_start example_start"
    unfolding auth_start_def example_start_def by blast
  then have start: "reachable auth_start (auth_trans rfc3339_example) [] example_start"
    by (rule reachable_start)
  have "env_ok (quiet_env vs)" for vs
    by (simp add: env_ok_def quiet_env_def)
  then have "list_all (\<lambda>(env, op). env_ok env) ops"
    using assms(2) by (auto simp: list_all_iff split_beta)
  from reachable_run [OF start this assms(1)] show ?thesis
    by simp
qed

definition reserved_run :: "(auth_env \<times> auth_op) list" where
  "reserved_run = two_evses @ [(quiet_env [], Place_reservation 5 (vehicle 7 (Some cType2)))]"


definition plugged_run :: "(auth_env \<times> auth_op) list" where
  "plugged_run = two_evses @ map (Pair (quiet_env []))
     [Session_event 2 None (Session_SessionStarted Start_EVConnected), Session_event 1 None (Session_SessionStarted Start_EVConnected)]"

theorem token_starts_only_if_allowed_witness:
  "\<exists>s e v q s1 v' p' s2. auth_run rfc3339_example plugged_run example_start = Some s \<and>
     e \<in> set (get_referenced_evses (rfid_card ''XYZ'') s) \<and> v \<in> {accepted_result} \<and> authorize_at e v q s1 = (True, v', p', s2)"
proof -
  have "case auth_run rfc3339_example plugged_run example_start of None \<Rightarrow> False | Some s \<Rightarrow>
      (case handle_token (quiet_env [accepted_result]) (rfid_card ''XYZ'') s of
         Some (r, _) \<Rightarrow> r = USED_TO_START_TRANSACTION | None \<Rightarrow> False)"
    by code_simp
  then obtain s p' s' where run: "auth_run rfc3339_example plugged_run example_start = Some s"
    and started: "handle_token (quiet_env [accepted_result]) (rfid_card ''XYZ'') s = Some (USED_TO_START_TRANSACTION, p', s')"
    by (auto split: option.splits)
  have "prevalidated (rfid_card ''XYZ'') \<noteq> Some True" and "set (validate_token (quiet_env [accepted_result]) p t) = {accepted_result}" for p t
    by (simp_all add: rfid_card_def quiet_env_def)
  with token_starts_only_if_allowed [OF started] run show ?thesis
    by (elim exE conjE) (intro exI conjI, assumption+, auto)
qed

section \<open>Deviations\<close>

definition two_types_run :: "(auth_env \<times> auth_op) list" where
  "two_types_run = map (Pair (quiet_env []))
     [Init_evse 1 0 [new_connector 1 cType2], Init_evse 2 1 [new_connector 1 cCCS2],
      Place_reservation 5 (vehicle 7 (Some cCCS2)), Place_reservation 5 ((vehicle 8 (Some cType2))\<lparr>id_token := ''DEF''\<rparr>)]"


end
