(* ===== verification/Spec2Isabelle.thy ===== *)
theory Spec2Isabelle
  imports V2G_Connection IEC_Safety Auth_Safety
begin

text \<open>
  A verification of three parts of the EVerest charging station software: the vehicle-to-grid connection of a
  DC charger (\<^verbatim>\<open>modules/EVSE/EvseV2G\<close> with the codec \<^verbatim>\<open>lib/everest/cbv2g\<close>), the control pilot state machine
  that decides when contactors may close (\<^verbatim>\<open>modules/EVSE/EvseManager/IECStateMachine.cpp\<close>), and the authorization
  of tokens with its reservations (\<^verbatim>\<open>modules/EVSE/Auth/lib\<close>). Paths are relative to \<^verbatim>\<open>src/\<close>.

  \<^bold>\<open>How the parts interact.\<close> A vehicle opens a connection. The charger negotiates a protocol with EXI coded
  handshake messages behind an eight byte transport header, and then answers DIN 70121 requests until the
  session ends. On the wire below, the control pilot tells whether the vehicle asks for power; the state machine turns
  it and the permission of the charger into commands for the contactors and the lock. Above both, a driver
  presents a token, which the authorization module validates, assigns to a charging point and
  checks against the reservations.

  \<^bold>\<open>Shared theories.\<close> \<open>Prelude\<close>: integer types, the state and error monad of the C code, facts on words and lists.
  \<open>Event_System\<close>: reachability, and the locales \<open>invariant_system\<close> and \<open>refined_system\<close> that every state machine of the
  development interprets. \<open>Ordered_Map\<close>: \<^verbatim>\<open>std::map\<close>. \<open>Permutations\<close>: \<^verbatim>\<open>std::next_permutation\<close> and
  \<^verbatim>\<open>std::prev_permutation\<close>, and that iterating them enumerates each permutation once.

  \<^bold>\<open>EXI codec\<close> (\<^verbatim>\<open>lib/everest/cbv2g/lib/cbv2g\<close>).
  \<^item> \<open>Exi_Bitstream\<close> (\<^verbatim>\<open>common/exi_bitstream.c\<close>): the bit cursor, and the locales \<open>exi_codec\<close> and \<open>exi_message\<close> (what
    an encoder and a decoder promise each other: round trip, overflow report, memory safety, no encoding is a prefix of another).
  \<^item> \<open>Exi_Basetypes\<close> (\<^verbatim>\<open>exi_basetypes.c\<close>): integers, byte strings and seven bit groups; the conversion that
    leaves its array is characterised exactly.
  \<^item> \<open>Exi_Basetypes_Codec\<close> (\<^verbatim>\<open>exi_basetypes_encoder.c\<close>, \<^verbatim>\<open>exi_basetypes_decoder.c\<close>, \<^verbatim>\<open>exi_types_decoder.c\<close>,
    \<^verbatim>\<open>exi_header.c\<close>): the locale is interpreted for every type, with the exact results of the decoders.
  \<^item> \<open>Exi_Grammar\<close>, \<open>AppHand\<close> (\<^verbatim>\<open>app_handshake/*.c\<close>): the grammar loops of the handshake messages; a valid document is read
    back, and the decoder is safe on all bytes.
  \<^item> \<open>V2GTP\<close> (\<^verbatim>\<open>exi_v2gtp.c\<close>): the transport header.

  \<^bold>\<open>Connection\<close> (\<^verbatim>\<open>modules/EVSE/EvseV2G\<close>).
  \<^item> \<open>V2G_Context\<close> (\<^verbatim>\<open>v2g.hpp\<close>, \<^verbatim>\<open>v2g_ctx.cpp\<close>): the charging context; published values are a list.
  \<^item> \<open>V2G_Server\<close>, \<open>V2G_Handshake\<close> (\<^verbatim>\<open>v2g_server.cpp\<close>, \<^verbatim>\<open>connection.cpp\<close>): reading from a fragmented socket, framing,
    negotiation. The buffer is never left, a request with a supported offer gets the best one, others are refused.
  \<^item> \<open>Din_Messages\<close>, \<open>Din_Server\<close>, \<open>Din_Session\<close> (\<^verbatim>\<open>din_msgDefDatatypes.h\<close>, \<^verbatim>\<open>din_server.cpp\<close>): all handlers, and the order of the
    charging session: what must have been accepted before a response is positive, and that a vehicle that follows the
    protocol is served.
  \<^item> \<open>V2G_Connection\<close> (\<^verbatim>\<open>v2g_handle_connection\<close>): both carried over to bytes on the wire.

  \<^bold>\<open>Control pilot.\<close> \<open>IEC_State_Machine\<close> has one definition per member function; \<open>IEC_Safety\<close> proves in every
  interleaving of driver, charger and timers when contactors may be closed and the plug is locked, that power ends six
  seconds after the pilot signal, and that the captive cable mode refines a small automaton.

  \<^bold>\<open>Authorization\<close> (\<^verbatim>\<open>modules/EVSE/Auth/lib\<close>).
  \<^item> \<open>Auth_Connector\<close> (\<^verbatim>\<open>ConnectorStateMachine.cpp\<close>, \<^verbatim>\<open>Connector.cpp\<close>): six states that refine three facts.
  \<^item> \<open>Reservations\<close> (\<^verbatim>\<open>ReservationHandler.cpp\<close>, from \<^verbatim>\<open>has_evse_connector_type\<close> on): the test whether reservations are possible, and
    the proof that its search over orders and places decides the declarative \<open>always_served\<close>.
  \<^item> \<open>Reservation_Handler\<close> (the other operations of that file) with the consistency invariant \<open>handler_ok\<close>;
    \<open>Reservation_Safety\<close>: runs of the handler, accepted reservations are kept and served, charging without a reservation takes no
    place, reservations survive a restart.
  \<^item> \<open>Auth_Handler\<close> (\<^verbatim>\<open>AuthHandler.cpp\<close>): tokens, selection, session events, timeouts, withdrawal. The record \<open>auth_handler\<close>
    holds the members, with the shared map of charging points inside the reservation handler. \<open>Auth_Safety\<close>:
    the invariant in every run, and that a token starts a transaction only where validation and reservations
    allow it, without harm to reserved vehicles.

  \<^bold>\<open>Termination and bounds.\<close> Loops are total functions: structural recursion, or a measure (the unread events of the socket,
  the remaining magnitude of an integer, the permutations still ahead). Only the grammar loops take a bound
  (between 3 and 21 rounds: one for each element of the message and each entry of its array, and one for the end); running out of it is the error \<open>LOOP_BOUND_REACHED\<close>, and a rank that every step decreases shows that it is never returned.
  Accesses outside an array are the error \<open>UNDEFINED_BEHAVIOUR\<close>.

  \<^bold>\<open>Parameters.\<close> The DIN message codec, the random session identifier, the clock, \<^verbatim>\<open>Everest::Date::from_rfc3339\<close>, the answers of token
  validators and of the charging point in \<^verbatim>\<open>reserved_callback\<close>, and what other threads do while \<^verbatim>\<open>AuthHandler\<close> has released
  its lock (assumed only to keep \<open>handler_ok\<close>) are arguments.

  \<^bold>\<open>Not modelled.\<close> The generated DIN and ISO 15118 message codecs have the shape of \<open>AppHand\<close> but tens of thousands of
  lines; the ISO 15118-2 handlers rest on them and on certificates and OpenSSL. TLS, discovery, logging, telemetry and module
  interfaces are input and output. \<^verbatim>\<open>Charger.cpp\<close> and the energy management compute with floating point
  numbers in several threads. OCPP, the framework, security, SLAC, drivers, simulators and tools are glue around
  MQTT, JSON, databases, sockets and devices. Data races are not modelled: what runs under a mutex is one step.
\<close>

end
